(* ===== verification/Gobol_Prelude.thy ===== *)
theory Gobol_Prelude
  imports
    Main
    "HOL-Library.Word"
    "HOL-Library.Char_ord"
    "HOL-Library.List_Lexorder"
    "HOL-Library.Multiset"
begin

text \<open>
  Shared vocabulary of the development.

  A Go call ends in one of three ways: it returns a value, it returns a non-nil \<open>error\<close>, or it
  panics. These are the three constructors of \<open>('e, 'a) res\<close>; every component chooses its own type
  \<open>'e\<close> of errors. Code that changes state takes the state and returns the new one together with the
  outcome. Log calls (\<open>if logh.InfoEnabled { ... }\<close>) do not change a component's state and are left
  out of the components, except of \<open>rip\<close>, where logging an error can panic.

  The theory also holds the model of Go's byte strings, of decimal formatting and of
  \<open>sort.Sort\<close>, and the list lemmas that several components use.
\<close>

section \<open>Outcomes of a call\<close>

datatype ('e, 'a) res = Ok 'a | Err 'e | Panic

fun res_bind :: "('e, 'a) res \<Rightarrow> ('a \<Rightarrow> ('e, 'b) res) \<Rightarrow> ('e, 'b) res" where
  "res_bind (Ok x) f = f x"
| "res_bind (Err e) f = Err e"
| "res_bind Panic f = Panic"

lemma res_bind_Ok_iff: "res_bind r f = Ok y \<longleftrightarrow> (\<exists>x. r = Ok x \<and> f x = Ok y)"
  by (cases r) auto

lemma res_bind_Err_iff: "res_bind r f = Err e \<longleftrightarrow> r = Err e \<or> (\<exists>x. r = Ok x \<and> f x = Err e)"
  by (cases r) auto

lemma res_bind_cong [fundef_cong]:
  "r = r' \<Longrightarrow> (\<And>x. r' = Ok x \<Longrightarrow> f x = g x) \<Longrightarrow> res_bind r f = res_bind r' g"
  by (cases r') auto

fun res_ok :: "('e, 'a) res \<Rightarrow> bool" where
  "res_ok (Ok _) = True"
| "res_ok _ = False"

text \<open>
  A call that changes a state of type \<open>'s\<close>. The state is there after a panic too, because a deferred
  function may recover and go on with it.
\<close>

type_synonym ('s, 'a) io = "'s \<Rightarrow> (string, 'a) res \<times> 's"

definition io_ret :: "'a \<Rightarrow> ('s, 'a) io" where
  "io_ret x s = (Ok x, s)"

definition io_bind :: "('s, 'a) io \<Rightarrow> ('a \<Rightarrow> ('s, 'b) io) \<Rightarrow> ('s, 'b) io" where
  "io_bind m f s =
     (case m s of (Ok x, s') \<Rightarrow> f x s' | (Err e, s') \<Rightarrow> (Err e, s') | (Panic, s') \<Rightarrow> (Panic, s'))"

text \<open>A call that only changes the state when it returns.\<close>

definition io_of :: "('s \<Rightarrow> (string, 'a \<times> 's) res) \<Rightarrow> ('s, 'a) io" where
  "io_of f s = (case f s of Ok (x, s') \<Rightarrow> (Ok x, s') | Err e \<Rightarrow> (Err e, s) | Panic \<Rightarrow> (Panic, s))"

text \<open>A call on the second part of the state, and on the first.\<close>

definition io_snd :: "('t, 'a) io \<Rightarrow> ('s \<times> 't, 'a) io" where
  "io_snd m st = (case m (snd st) of (r, t) \<Rightarrow> (r, (fst st, t)))"

definition io_fst :: "('s, 'a) io \<Rightarrow> ('s \<times> 't, 'a) io" where
  "io_fst m st = (case m (fst st) of (r, s) \<Rightarrow> (r, (s, snd st)))"

text \<open>\<open>defer func() { if r := recover(); r != nil { h } }()\<close>.\<close>

definition io_recover :: "('s, 'a) io \<Rightarrow> ('s, 'a) io \<Rightarrow> ('s, 'a) io" where
  "io_recover m h s = (case m s of (Panic, s') \<Rightarrow> h s' | r \<Rightarrow> r)"

named_theorems io_simps
lemmas [io_simps] =
  io_ret_def io_bind_def io_of_def io_snd_def io_fst_def io_recover_def

lemma io_bind_eq:
  "m s = (Ok x, s') \<Longrightarrow> io_bind m f s = f x s'"
  "m s = (Err e, s') \<Longrightarrow> io_bind m f s = (Err e, s')"
  "m s = (Panic, s') \<Longrightarrow> io_bind m f s = (Panic, s')"
  by (simp_all add: io_bind_def)

lemma io_part_eq:
  "m s = (r, s') \<Longrightarrow> io_fst m (s, t) = (r, (s', t))"
  "n t = (r, t') \<Longrightarrow> io_snd n (s, t) = (r, (s, t'))"
  by (simp_all add: io_fst_def io_snd_def)

section \<open>Bytes and strings\<close>

text \<open>
  A Go string is a sequence of bytes, and so is a HOL \<open>string\<close>; \<open>bytes_of_string\<close> is the
  conversion \<open>[]byte(s)\<close>. Comparison of Go strings is lexicographic on the bytes, which is the
  order that \<open>List_Lexorder\<close> and \<open>Char_ord\<close> give to \<open>string\<close>.
\<close>

type_synonym byte = "8 word"

definition byte_of_char :: "char \<Rightarrow> byte" where
  "byte_of_char c = word_of_nat (of_char c)"

definition bytes_of_string :: "string \<Rightarrow> byte list" where
  "bytes_of_string s = map byte_of_char s"

lemma inj_byte_of_char: "inj byte_of_char"
proof (rule injI)
  fix c d
  assume eq: "byte_of_char c = byte_of_char d"
  have bound: "of_char x < (256 :: nat)" for x :: char
    by simp
  from eq have "unat (byte_of_char c) = unat (byte_of_char d)"
    by simp
  then have "of_char c = (of_char d :: nat)"
    using bound [of c] bound [of d]
    by (simp add: byte_of_char_def unat_of_nat)
  then show "c = d"
    by simp
qed

lemma bytes_of_string_inject [simp]: "bytes_of_string s = bytes_of_string t \<longleftrightarrow> s = t"
  unfolding bytes_of_string_def using inj_byte_of_char by (simp add: inj_map_eq_map)

lemma bytes_of_string_simps [simp]:
  "bytes_of_string [] = []"
  "bytes_of_string (s @ t) = bytes_of_string s @ bytes_of_string t"
  "length (bytes_of_string s) = length s"
  by (simp_all add: bytes_of_string_def)

text \<open>\<open>hex.EncodeToString\<close>: two lower-case digits per byte, high nibble first.\<close>

definition hex_digit :: "nat \<Rightarrow> char" where
  "hex_digit n = ''0123456789abcdef'' ! n"

definition hex_encode :: "byte list \<Rightarrow> string" where
  "hex_encode bs = concat (map (\<lambda>b. [hex_digit (unat b div 16), hex_digit (unat b mod 16)]) bs)"

lemma hex_digit_inject: "m < 16 \<Longrightarrow> n < 16 \<Longrightarrow> hex_digit m = hex_digit n \<longleftrightarrow> m = n"
  unfolding hex_digit_def by (subst nth_eq_iff_index_eq) auto

lemma hex_encode_simps [simp]:
  "hex_encode [] = []"
  "hex_encode (b # bs) = hex_digit (unat b div 16) # hex_digit (unat b mod 16) # hex_encode bs"
  by (simp_all add: hex_encode_def)

lemma unat_byte_less: "unat (b :: byte) < 256"
  using unsigned_less [of b, where 'a = nat] by simp

lemma hex_encode_inject [simp]: "hex_encode bs = hex_encode cs \<longleftrightarrow> bs = cs"
proof (induction bs arbitrary: cs)
  case Nil
  then show ?case by (cases cs) auto
next
  case (Cons b bs)
  show ?case
  proof (cases cs)
    case (Cons c cs')
    have "unat b div 16 = unat c div 16 \<and> unat b mod 16 = unat c mod 16 \<longleftrightarrow> unat b = unat c"
      by (metis div_mult_mod_eq)
    moreover have "unat b div 16 < 16" "unat c div 16 < 16"
      using unat_byte_less [of b] unat_byte_less [of c] by auto
    ultimately show ?thesis
      using Cons.IH [of cs'] Cons by (auto simp: hex_digit_inject word_unat_eq_iff)
  qed simp
qed

text \<open>\<open>strconv.Itoa\<close> and the verb \<open>%d\<close>.\<close>

fun string_of_nat :: "nat \<Rightarrow> string" where
  "string_of_nat n =
     (if n < 10 then [hex_digit n] else string_of_nat (n div 10) @ [hex_digit (n mod 10)])"

declare string_of_nat.simps [simp del]

definition itoa :: "int \<Rightarrow> string" where
  "itoa i = (if i < 0 then CHR ''-'' # string_of_nat (nat (- i)) else string_of_nat (nat i))"

section \<open>sort.Sort\<close>

text \<open>
  \<open>sort.Sort\<close> promises a permutation of its input that is sorted by \<open>Less\<close> when \<open>Less\<close> is a strict
  weak order, and nothing about equal elements. \<open>go_sort\<close> is insertion sort. The locale
  \<open>sort_contract\<close> states the promise; its main lemma is that on elements that \<open>Less\<close> tells apart
  the result does not depend on the order of the input, whatever the algorithm.
\<close>

fun go_insert :: "('a \<Rightarrow> 'a \<Rightarrow> bool) \<Rightarrow> 'a \<Rightarrow> 'a list \<Rightarrow> 'a list" where
  "go_insert lt x [] = [x]"
| "go_insert lt x (y # ys) = (if lt y x then y # go_insert lt x ys else x # y # ys)"

fun go_sort :: "('a \<Rightarrow> 'a \<Rightarrow> bool) \<Rightarrow> 'a list \<Rightarrow> 'a list" where
  "go_sort lt [] = []"
| "go_sort lt (x # xs) = go_insert lt x (go_sort lt xs)"

definition strict_weak :: "('a \<Rightarrow> 'a \<Rightarrow> bool) \<Rightarrow> 'a set \<Rightarrow> bool" where
  "strict_weak lt S \<longleftrightarrow>
     (\<forall>x\<in>S. \<not> lt x x) \<and>
     (\<forall>x\<in>S. \<forall>y\<in>S. \<forall>z\<in>S. lt x y \<longrightarrow> lt y z \<longrightarrow> lt x z) \<and>
     (\<forall>x\<in>S. \<forall>y\<in>S. \<forall>z\<in>S. \<not> lt x y \<longrightarrow> \<not> lt y z \<longrightarrow> \<not> lt x z)"

definition separates :: "('a \<Rightarrow> 'a \<Rightarrow> bool) \<Rightarrow> 'a set \<Rightarrow> bool" where
  "separates lt S \<longleftrightarrow> (\<forall>x\<in>S. \<forall>y\<in>S. lt x y \<or> x = y \<or> lt y x)"

lemma strict_weak_mono: "strict_weak lt S \<Longrightarrow> T \<subseteq> S \<Longrightarrow> strict_weak lt T"
  unfolding strict_weak_def by (meson subsetD)

lemma separates_mono: "separates lt S \<Longrightarrow> T \<subseteq> S \<Longrightarrow> separates lt T"
  unfolding separates_def by (meson subsetD)

locale sort_contract =
  fixes srt :: "('a \<Rightarrow> 'a \<Rightarrow> bool) \<Rightarrow> 'a list \<Rightarrow> 'a list"
  assumes srt_mset: "mset (srt lt xs) = mset xs"
    and srt_sorted: "strict_weak lt (set xs) \<Longrightarrow> sorted_wrt (\<lambda>a b. \<not> lt b a) (srt lt xs)"
begin

lemma srt_set: "set (srt lt xs) = set xs"
  by (metis srt_mset set_mset_mset)

lemma srt_length: "length (srt lt xs) = length xs"
  by (metis srt_mset size_mset)

lemma srt_distinct: "distinct (srt lt xs) = distinct xs"
  using srt_mset [of lt xs] by (rule mset_eq_imp_distinct_iff)

lemma sorted_unique:
  assumes "sorted_wrt (\<lambda>a b. \<not> lt b a) xs" and "sorted_wrt (\<lambda>a b. \<not> lt b a) ys"
    and "mset xs = mset ys" and "strict_weak lt (set xs)" and "separates lt (set xs)"
  shows "xs = ys"
  using assms
proof (induction xs arbitrary: ys)
  case (Cons x xs)
  then obtain y ys' where ys: "ys = y # ys'"
    by (metis mset_zero_iff_right neq_Nil_conv list.distinct(1))
  have sets: "set ys = set (x # xs)"
    using Cons.prems(3) by (metis set_mset_mset)
  have "\<not> lt y x"
  proof
    assume "lt y x"
    moreover have "y \<in> set (x # xs)" using sets ys by auto
    ultimately show False
      using Cons.prems(1,4) by (auto simp: strict_weak_def)
  qed
  moreover have "\<not> lt x y"
  proof
    assume "lt x y"
    moreover have "x \<in> set ys" using sets by auto
    ultimately show False
      using Cons.prems(2,4) ys sets by (auto simp: strict_weak_def)
  qed
  ultimately have "x = y"
    using Cons.prems(5) sets ys unfolding separates_def by auto
  moreover have "xs = ys'"
    using Cons.prems ys \<open>x = y\<close>
    by (intro Cons.IH) (auto intro: strict_weak_mono separates_mono)
  ultimately show ?case using ys by simp
qed simp

theorem srt_order_independent:
  assumes "mset xs = mset ys" and "strict_weak lt (set xs)" and "separates lt (set xs)"
  shows "srt lt xs = srt lt ys"
proof (rule sorted_unique)
  have sets: "set ys = set xs"
    using assms(1) by (metis set_mset_mset)
  show "sorted_wrt (\<lambda>a b. \<not> lt b a) (srt lt xs)" and "sorted_wrt (\<lambda>a b. \<not> lt b a) (srt lt ys)"
    using assms(2) sets by (auto intro: srt_sorted)
  show "mset (srt lt xs) = mset (srt lt ys)"
    by (simp add: srt_mset assms(1))
  show "strict_weak lt (set (srt lt xs))" and "separates lt (set (srt lt xs))"
    using assms(2,3) by (simp_all add: srt_set)
qed

end

lemma mset_go_insert: "mset (go_insert lt x xs) = add_mset x (mset xs)"
  by (induction xs) auto

lemma set_go_insert: "set (go_insert lt x xs) = insert x (set xs)"
  by (metis mset_go_insert set_mset_add_mset_insert set_mset_mset)

lemma mset_go_sort: "mset (go_sort lt xs) = mset xs"
  by (induction xs) (auto simp: mset_go_insert)

lemma set_go_sort [simp]: "set (go_sort lt xs) = set xs"
  by (metis mset_go_sort set_mset_mset)

lemma sorted_go_insert:
  "strict_weak lt (insert x (set xs)) \<Longrightarrow> sorted_wrt (\<lambda>a b. \<not> lt b a) xs \<Longrightarrow>
     sorted_wrt (\<lambda>a b. \<not> lt b a) (go_insert lt x xs)"
proof (induction xs)
  case (Cons y ys)
  have sub: "strict_weak lt (insert x (set ys))"
    using Cons.prems(1) by (rule strict_weak_mono) auto
  show ?case
  proof (cases "lt y x")
    case True
    then have "\<not> lt x y"
      using Cons.prems(1) unfolding strict_weak_def by (meson insertI1 insertI2 list.set_intros(1))
    with True sub Cons show ?thesis by (auto simp: set_go_insert)
  next
    case False
    have "\<not> lt z x" if "z \<in> set ys" for z
    proof -
      have "\<not> lt z y" using Cons.prems(2) that by simp
      with False Cons.prems(1) that show ?thesis
        unfolding strict_weak_def by (meson insertI1 insertI2 list.set_intros)
    qed
    with False Cons.prems(2) show ?thesis by auto
  qed
qed simp

lemma sorted_go_sort: "strict_weak lt (set xs) \<Longrightarrow> sorted_wrt (\<lambda>a b. \<not> lt b a) (go_sort lt xs)"
  by (induction xs) (auto intro!: sorted_go_insert intro: strict_weak_mono)

interpretation go_sort: sort_contract go_sort
  by unfold_locales (simp_all add: mset_go_sort sorted_go_sort)

end
