(* ===== verification/Float64.thy ===== *)
theory Float64
  imports Gobol_Prelude
begin

text \<open>
  Go's \<open>float64\<close>: IEEE 754 binary64, represented by its 64 bits, so that \<open>math.Float64bits\<close> and
  \<open>math.Float64frombits\<close> are the identity. The low 63 bits of a float are its magnitude: ordered as
  a number, it orders the non-NaN values by absolute value.

  Every finite float is a whole number of units of \<open>2 ^ -1074\<close>, the least positive float.
  Arithmetic computes the exact result in these units and rounds it once to the nearest float,
  ties to even. A NaN produced by an operation is always the same quiet NaN \<open>f64_nan\<close>: the payload
  of a NaN is not specified by the language.

  The lemmas: \<open>f64_lt\<close> is a strict order on the values that are not NaN and agrees with the exact
  values; rounding an exactly representable result gives that result; integers up to
  \<open>2 ^ 53\<close> in absolute value convert, add and compare exactly.
\<close>

type_synonym float64 = "64 word"

section \<open>Classification and comparison\<close>

definition f64_inf_mag :: nat where
  "f64_inf_mag = 2047 * 2 ^ 52"

definition f64_neg :: "float64 \<Rightarrow> bool" where
  "f64_neg w \<longleftrightarrow> 2 ^ 63 \<le> unat w"

definition f64_mag :: "float64 \<Rightarrow> nat" where
  "f64_mag w = unat w mod 2 ^ 63"

definition f64_make :: "bool \<Rightarrow> nat \<Rightarrow> float64" where
  "f64_make s m = word_of_nat (if s then 2 ^ 63 + m else m)"

definition f64_nan :: float64 where
  "f64_nan = f64_make False (f64_inf_mag + 2 ^ 51)"

definition f64_is_nan :: "float64 \<Rightarrow> bool" where
  "f64_is_nan w \<longleftrightarrow> f64_inf_mag < f64_mag w"

definition f64_is_inf :: "float64 \<Rightarrow> bool" where
  "f64_is_inf w \<longleftrightarrow> f64_mag w = f64_inf_mag"

definition f64_finite :: "float64 \<Rightarrow> bool" where
  "f64_finite w \<longleftrightarrow> f64_mag w < f64_inf_mag"

text \<open>The sign-magnitude reading: it orders all values that are not NaN, and identifies the zeros.\<close>

definition f64_key :: "float64 \<Rightarrow> int" where
  "f64_key w = (if f64_neg w then - int (f64_mag w) else int (f64_mag w))"

definition f64_lt :: "float64 \<Rightarrow> float64 \<Rightarrow> bool" where
  "f64_lt a b \<longleftrightarrow> \<not> f64_is_nan a \<and> \<not> f64_is_nan b \<and> f64_key a < f64_key b"

definition f64_eq :: "float64 \<Rightarrow> float64 \<Rightarrow> bool" where
  "f64_eq a b \<longleftrightarrow> \<not> f64_is_nan a \<and> \<not> f64_is_nan b \<and> f64_key a = f64_key b"

section \<open>Exact values and rounding\<close>

definition f64_mag_units :: "nat \<Rightarrow> nat" where
  "f64_mag_units m =
     (let e = m div 2 ^ 52; f = m mod 2 ^ 52
      in if e = 0 then f else (2 ^ 52 + f) * 2 ^ (e - 1))"

definition f64_units :: "float64 \<Rightarrow> int" where
  "f64_units w = (if f64_neg w then - int (f64_mag_units (f64_mag w)) else int (f64_mag_units (f64_mag w)))"

fun bitlen :: "nat \<Rightarrow> nat" where
  "bitlen n = (if n = 0 then 0 else Suc (bitlen (n div 2)))"

declare bitlen.simps [simp del]

text \<open>The quotient \<open>n / d\<close> rounded to the nearest whole number, ties to even.\<close>

definition round_even :: "nat \<Rightarrow> nat \<Rightarrow> nat" where
  "round_even n d =
     (let q = n div d; r = n mod d
      in if 2 * r < d \<or> (2 * r = d \<and> even q) then q else Suc q)"

text \<open>
  The magnitude of the float nearest to \<open>n / d\<close> units. A value of at most 53 bits is its own
  magnitude; a longer one is rounded to 53 bits and its exponent counts the bits dropped. A carry
  out of the significand moves to the exponent by itself.
\<close>

definition f64_round_mag :: "nat \<Rightarrow> nat \<Rightarrow> nat" where
  "f64_round_mag n d =
     (let k = bitlen (n div d) - 53
      in min f64_inf_mag (k * 2 ^ 52 + round_even n (d * 2 ^ k)))"

definition f64_one_units :: nat where
  "f64_one_units = 2 ^ 1074"

definition f64_of_units :: "int \<Rightarrow> float64" where
  "f64_of_units u = f64_make (u < 0) (f64_round_mag (nat \<bar>u\<bar>) 1)"

text \<open>The conversion \<open>float64(i)\<close> of an integer.\<close>

definition f64_of_int :: "int \<Rightarrow> float64" where
  "f64_of_int i = f64_of_units (i * int f64_one_units)"

definition f64_add :: "float64 \<Rightarrow> float64 \<Rightarrow> float64" where
  "f64_add a b =
     (if f64_is_nan a \<or> f64_is_nan b then f64_nan
      else if f64_is_inf a then
        (if f64_is_inf b \<and> f64_neg a \<noteq> f64_neg b then f64_nan else a)
      else if f64_is_inf b then b
      else if f64_units a + f64_units b = 0 then f64_make (f64_neg a \<and> f64_neg b) 0
      else f64_of_units (f64_units a + f64_units b))"

definition f64_div :: "float64 \<Rightarrow> float64 \<Rightarrow> float64" where
  "f64_div a b =
     (let s = (f64_neg a \<noteq> f64_neg b)
      in if f64_is_nan a \<or> f64_is_nan b then f64_nan
         else if f64_is_inf a then (if f64_is_inf b then f64_nan else f64_make s f64_inf_mag)
         else if f64_is_inf b then f64_make s 0
         else if f64_units b = 0 then
           (if f64_units a = 0 then f64_nan else f64_make s f64_inf_mag)
         else f64_make s
           (f64_round_mag (f64_mag_units (f64_mag a) * f64_one_units) (f64_mag_units (f64_mag b))))"

section \<open>Sign and magnitude\<close>

lemma f64_mag_less: "f64_mag w < 2 ^ 63"
  by (simp add: f64_mag_def)

lemma f64_inf_mag_less: "f64_inf_mag < 2 ^ 63"
  by (simp add: f64_inf_mag_def)

lemma unat_f64_make: "m < 2 ^ 63 \<Longrightarrow> unat (f64_make s m) = (if s then 2 ^ 63 + m else m)"
  by (simp add: f64_make_def unat_of_nat)

lemma f64_make_proj [simp]:
  assumes "m < 2 ^ 63"
  shows "f64_neg (f64_make s m) = s" and "f64_mag (f64_make s m) = m"
  using assms by (simp_all add: f64_neg_def f64_mag_def unat_f64_make)

lemma f64_make_neg_mag [simp]: "f64_make (f64_neg w) (f64_mag w) = w"
proof -
  have lt: "unat w < 2 ^ 64"
    using unsigned_less [of w, where 'a = nat] by simp
  have "unat (f64_make (f64_neg w) (f64_mag w)) = unat w"
  proof (cases "f64_neg w")
    case True
    with lt have "unat w mod 2 ^ 63 = unat w - 2 ^ 63"
      by (simp add: f64_neg_def le_mod_geq)
    with True show ?thesis
      by (simp add: unat_f64_make [OF f64_mag_less]) (simp add: f64_neg_def f64_mag_def)
  next
    case False
    then show ?thesis
      by (simp add: unat_f64_make [OF f64_mag_less]) (simp add: f64_neg_def f64_mag_def)
  qed
  then show ?thesis
    by (simp add: word_unat_eq_iff)
qed

lemma f64_eqI: "f64_neg a = f64_neg b \<Longrightarrow> f64_mag a = f64_mag b \<Longrightarrow> a = b"
  by (rule box_equals [OF _ f64_make_neg_mag f64_make_neg_mag]) (simp only:)

section \<open>The order\<close>

lemma f64_lt_irrefl [simp]: "\<not> f64_lt a a"
  by (simp add: f64_lt_def)

lemma f64_lt_trans: "f64_lt a b \<Longrightarrow> f64_lt b c \<Longrightarrow> f64_lt a c"
  by (auto simp: f64_lt_def)

lemma f64_lt_asym: "f64_lt a b \<Longrightarrow> \<not> f64_lt b a"
  by (auto simp: f64_lt_def)

lemma f64_lt_total:
  "\<not> f64_is_nan a \<Longrightarrow> \<not> f64_is_nan b \<Longrightarrow> f64_lt a b \<or> f64_eq a b \<or> f64_lt b a"
  by (auto simp: f64_lt_def f64_eq_def)

lemma f64_lt_not_nan: "f64_lt a b \<Longrightarrow> \<not> f64_is_nan a \<and> \<not> f64_is_nan b"
  by (simp add: f64_lt_def)

lemma f64_not_lt_trans:
  "\<not> f64_is_nan b \<Longrightarrow> \<not> f64_lt a b \<Longrightarrow> \<not> f64_lt b c \<Longrightarrow> \<not> f64_lt a c"
  by (auto simp: f64_lt_def)

section \<open>Bit lengths\<close>

lemma bitlen_0 [simp]: "bitlen 0 = 0"
  by (simp add: bitlen.simps)

lemma bitlen_pos: "0 < n \<Longrightarrow> bitlen n = Suc (bitlen (n div 2))"
  by (subst bitlen.simps) simp

lemma bitlen_eqI: "2 ^ b \<le> n \<Longrightarrow> n < 2 ^ Suc b \<Longrightarrow> bitlen n = Suc b"
proof (induction b arbitrary: n)
  case 0
  then have "n = 1" by simp
  then show ?case by (simp add: bitlen_pos)
next
  case (Suc b)
  then have "2 ^ b \<le> n div 2" and "n div 2 < 2 ^ Suc b"
    by auto
  then have "bitlen (n div 2) = Suc b"
    by (rule Suc.IH)
  moreover from Suc.prems have "0 < n"
    by (metis gr0I not_le zero_less_numeral zero_less_power)
  ultimately show ?case
    by (simp add: bitlen_pos)
qed

lemma bitlen_exists: "0 < (n :: nat) \<Longrightarrow> \<exists>b. 2 ^ b \<le> n \<and> n < 2 ^ Suc b"
  using ex_power_ivl1 [of 2 n] by auto

lemma bitlen_bounds: "0 < n \<Longrightarrow> 2 ^ (bitlen n - 1) \<le> n \<and> n < 2 ^ bitlen n"
  using bitlen_exists [of n] bitlen_eqI by fastforce

lemma bitlen_le: "n < 2 ^ b \<Longrightarrow> bitlen n \<le> b"
proof (cases "n = 0")
  case False
  assume lt: "n < 2 ^ b"
  from False have "2 ^ (bitlen n - 1) \<le> n"
    using bitlen_bounds by simp
  with lt have "(2 :: nat) ^ (bitlen n - 1) < 2 ^ b"
    by linarith
  then show ?thesis by simp
qed simp

lemma bitlen_shift: "0 < n \<Longrightarrow> bitlen (n * 2 ^ k) = bitlen n + k"
proof -
  assume "0 < n"
  then obtain b where b: "2 ^ b \<le> n" "n < 2 ^ Suc b"
    using bitlen_exists by blast
  then have "2 ^ (b + k) \<le> n * 2 ^ k" and "n * 2 ^ k < 2 ^ Suc (b + k)"
    by (auto simp: power_add)
  then have "bitlen (n * 2 ^ k) = Suc (b + k)"
    by (rule bitlen_eqI)
  with bitlen_eqI [OF b] show ?thesis by simp
qed

section \<open>Rounding representable values\<close>

lemma round_even_exact [simp]: "0 < d \<Longrightarrow> round_even (q * d) d = q"
  by (simp add: round_even_def)

lemma round_even_1 [simp]: "round_even n (Suc 0) = n"
  by (simp add: round_even_def)

lemma f64_mag_split:
  obtains (subnormal) "m < 2 ^ 52" "f64_mag_units m = m"
  | (normal) e f where "m = Suc e * 2 ^ 52 + f" "f < 2 ^ 52" "f64_mag_units m = (2 ^ 52 + f) * 2 ^ e"
proof (cases "m div 2 ^ 52 = 0")
  case True
  then show ?thesis
    by (intro subnormal) (auto simp: f64_mag_units_def div_eq_0_iff)
next
  case False
  then obtain e where e: "m div 2 ^ 52 = Suc e"
    using not0_implies_Suc by blast
  show ?thesis
  proof (rule normal)
    show "m = Suc e * 2 ^ 52 + m mod 2 ^ 52"
      by (metis e div_mult_mod_eq)
    show "m mod 2 ^ 52 < 2 ^ 52" by simp
    show "f64_mag_units m = (2 ^ 52 + m mod 2 ^ 52) * 2 ^ e"
      using e by (simp add: f64_mag_units_def Let_def)
  qed
qed

lemma f64_round_mag_units: "m \<le> f64_inf_mag \<Longrightarrow> f64_round_mag (f64_mag_units m) 1 = m"
proof (cases m rule: f64_mag_split)
  case subnormal
  then have "bitlen m \<le> 52" by (intro bitlen_le)
  with subnormal show "m \<le> f64_inf_mag \<Longrightarrow> ?thesis"
    by (simp add: f64_round_mag_def)
next
  case (normal e f)
  have "bitlen (2 ^ 52 + f) = 53"
    using normal(2) by (subst bitlen_eqI [of 52]) auto
  then have k: "bitlen ((2 ^ 52 + f) * 2 ^ e) - 53 = e"
    by (simp add: bitlen_shift)
  assume "m \<le> f64_inf_mag"
  then show ?thesis
    unfolding f64_round_mag_def normal(3) Let_def div_by_1 k
    by (subst mult_1) (simp add: normal(1))
qed

lemma f64_mag_units_eq_0 [simp]: "f64_mag_units m = 0 \<longleftrightarrow> m = 0"
  by (cases m rule: f64_mag_split) auto

lemma f64_mag_units_pos [simp]: "0 < f64_mag_units m \<longleftrightarrow> 0 < m"
  using f64_mag_units_eq_0 [of m] by linarith

lemma f64_mag_units_mono: "m < m' \<Longrightarrow> f64_mag_units m < f64_mag_units m'"
proof (cases m rule: f64_mag_split)
  case sub: subnormal
  assume less: "m < m'"
  show ?thesis
  proof (cases m' rule: f64_mag_split)
    case subnormal
    with sub less show ?thesis by simp
  next
    case (normal e f)
    have "m < 2 ^ 52 + f" using sub by simp
    also have "\<dots> \<le> (2 ^ 52 + f) * 2 ^ e" by simp
    finally show ?thesis using sub normal by simp
  qed
next
  case n: (normal e f)
  assume less: "m < m'"
  show ?thesis
  proof (cases m' rule: f64_mag_split)
    case subnormal
    with n less show ?thesis by simp
  next
    case (normal e' f')
    from less have "Suc e * 2 ^ 52 + f < Suc e' * 2 ^ 52 + f'"
      using n(1) normal(1) by simp
    with n(2) normal(2) consider "e = e'" "f < f'" | "e < e'"
      by (cases e e' rule: linorder_cases) auto
    then show ?thesis
    proof cases
      case 1
      then show ?thesis using n(3) normal(3) by simp
    next
      case 2
      have "(2 ^ 52 + f) * 2 ^ e < 2 ^ 53 * 2 ^ e"
        using n(2) by (intro mult_strict_right_mono) auto
      also have "\<dots> = 2 ^ 52 * 2 ^ Suc e" by simp
      also have "\<dots> \<le> (2 ^ 52 + f') * 2 ^ e'"
        using 2 by (intro mult_mono power_increasing) auto
      finally show ?thesis using n(3) normal(3) by simp
    qed
  qed
qed

lemma f64_mag_units_less_iff: "f64_mag_units m < f64_mag_units m' \<longleftrightarrow> m < m'"
  by (metis f64_mag_units_mono linorder_neqE_nat order.asym less_irrefl)

section \<open>Exact operations\<close>

lemma f64_finite_not_nan: "f64_finite w \<Longrightarrow> \<not> f64_is_nan w \<and> \<not> f64_is_inf w"
  by (simp add: f64_finite_def f64_is_nan_def f64_is_inf_def)

lemma f64_of_units_make:
  "m < f64_inf_mag \<Longrightarrow> nat \<bar>u\<bar> = f64_mag_units m \<Longrightarrow> f64_of_units u = f64_make (u < 0) m"
  using f64_round_mag_units [of m] by (simp add: f64_of_units_def)

lemma f64_units_make:
  "m < 2 ^ 63 \<Longrightarrow> f64_units (f64_make s m) = (if s then - int (f64_mag_units m) else int (f64_mag_units m))"
  by (simp add: f64_units_def)

lemma f64_of_units_exact:
  assumes "m < f64_inf_mag" and "nat \<bar>u\<bar> = f64_mag_units m"
  shows "f64_units (f64_of_units u) = u" and "f64_finite (f64_of_units u)"
    and "f64_neg (f64_of_units u) = (u < 0)"
proof -
  have m: "m < 2 ^ 63"
    using assms(1) f64_inf_mag_less by simp
  have u: "int (f64_mag_units m) = \<bar>u\<bar>"
    using assms(2) by (simp flip: assms(2))
  show "f64_units (f64_of_units u) = u"
    by (simp add: f64_of_units_make [OF assms] f64_units_make [OF m] u)
  show "f64_finite (f64_of_units u)" and "f64_neg (f64_of_units u) = (u < 0)"
    using assms(1) m by (simp_all add: f64_of_units_make [OF assms] f64_finite_def)
qed

lemma f64_of_units_units:
  assumes "f64_finite w" and "f64_units w \<noteq> 0"
  shows "f64_of_units (f64_units w) = w"
proof -
  have "nat \<bar>f64_units w\<bar> = f64_mag_units (f64_mag w)"
    by (simp add: f64_units_def)
  moreover have "f64_units w < 0 \<longleftrightarrow> f64_neg w"
    using assms(2) f64_mag_units_pos [of "f64_mag w"] by (auto simp: f64_units_def)
  ultimately show ?thesis
    using f64_of_units_make [of "f64_mag w" "f64_units w"] assms(1)
    by (simp add: f64_finite_def)
qed

lemma f64_lt_units:
  assumes "f64_finite a" and "f64_finite b"
  shows "f64_lt a b \<longleftrightarrow> f64_units a < f64_units b"
proof -
  have "- int x < int y \<longleftrightarrow> - int (f64_mag_units x) < int (f64_mag_units y)" for x y
    using f64_mag_units_eq_0 [of x] f64_mag_units_eq_0 [of y] by linarith
  moreover have "\<not> int x < - int y" for x y
    by linarith
  ultimately show ?thesis
    using assms
    by (simp add: f64_lt_def f64_finite_not_nan f64_key_def f64_units_def f64_mag_units_less_iff)
qed

lemma f64_mag_units_normal:
  "f < 2 ^ 52 \<Longrightarrow> f64_mag_units (Suc e * 2 ^ 52 + f) = (2 ^ 52 + f) * 2 ^ e"
proof -
  assume "f < 2 ^ 52"
  then have "(Suc e * 2 ^ 52 + f) div 2 ^ 52 = Suc e" and "(Suc e * 2 ^ 52 + f) mod 2 ^ 52 = f"
    by (simp_all only: div_mult_self3 mod_mult_self3 div_less mod_less power_eq_0_iff) simp_all
  then show ?thesis
    by (simp only: f64_mag_units_def Let_def) simp
qed

lemma f64_normal_representable:
  assumes "2 ^ 52 \<le> M" and "M < 2 ^ 53" and "e \<le> 2045"
  shows "\<exists>m < f64_inf_mag. f64_mag_units m = M * 2 ^ e"
proof (intro exI conjI)
  let ?m = "Suc e * 2 ^ 52 + (M - 2 ^ 52)"
  show "f64_mag_units ?m = M * 2 ^ e"
    using assms by (subst f64_mag_units_normal) auto
  have "?m < Suc e * 2 ^ 52 + 2 ^ 52"
    using assms by simp
  also have "\<dots> \<le> 2046 * 2 ^ 52 + 2 ^ 52"
    using assms(3) by simp
  finally show "?m < f64_inf_mag"
    by (simp add: f64_inf_mag_def)
qed

lemma f64_int_representable:
  assumes "n \<le> 2 ^ 53"
  shows "\<exists>m < f64_inf_mag. f64_mag_units m = n * f64_one_units"
proof (cases "n = 0")
  case True
  then show ?thesis by (intro exI [of _ 0]) (simp add: f64_inf_mag_def)
next
  case False
  then obtain b where b: "2 ^ b \<le> n" "n < 2 ^ Suc b"
    using bitlen_exists [of n] by auto
  show ?thesis
  proof (cases "n = 2 ^ 53")
    case True
    then have "n * f64_one_units = 2 ^ 52 * 2 ^ 1075"
      by (simp add: f64_one_units_def flip: power_add)
    then show ?thesis
      using f64_normal_representable [of "2 ^ 52" 1075] by simp
  next
    case False
    with assms b(1) have "(2 :: nat) ^ b < 2 ^ 53"
      by simp
    then have "b < 53"
      by (rule power_less_imp_less_exp [rotated]) simp
    then have split: "(2 :: nat) ^ 52 = 2 ^ b * 2 ^ (52 - b)" "(2 :: nat) ^ 53 = 2 ^ Suc b * 2 ^ (52 - b)"
      "f64_one_units = 2 ^ (52 - b) * 2 ^ (1022 + b)"
      by (simp_all add: f64_one_units_def flip: power_add power_Suc)
    have "\<exists>m < f64_inf_mag. f64_mag_units m = (n * 2 ^ (52 - b)) * 2 ^ (1022 + b)"
      using b \<open>b < 53\<close> by (intro f64_normal_representable) (auto simp only: split mult_le_mono1 mult_less_cancel2 zero_less_power zero_less_numeral)
    then show ?thesis
      by (simp add: split(3) mult.assoc)
  qed
qed

text \<open>The integers that \<open>float64\<close> holds without gaps.\<close>

definition f64_exact_int :: "int \<Rightarrow> bool" where
  "f64_exact_int i \<longleftrightarrow> \<bar>i\<bar> \<le> 2 ^ 53"

lemma f64_of_int_exact:
  assumes "f64_exact_int i"
  shows "f64_units (f64_of_int i) = i * int f64_one_units"
    and "f64_finite (f64_of_int i)"
    and "f64_neg (f64_of_int i) = (i < 0)"
proof -
  have "nat \<bar>i\<bar> \<le> 2 ^ 53"
    using assms by (simp add: nat_le_iff f64_exact_int_def)
  then obtain m where m: "m < f64_inf_mag" "f64_mag_units m = nat \<bar>i\<bar> * f64_one_units"
    using f64_int_representable by blast
  have "nat \<bar>i * int f64_one_units\<bar> = f64_mag_units m"
    by (simp add: m(2) abs_mult nat_mult_distrib)
  note exact = f64_of_units_exact [OF m(1) this]
  have pos: "0 < f64_one_units"
    by (simp add: f64_one_units_def)
  show "f64_units (f64_of_int i) = i * int f64_one_units"
    and "f64_finite (f64_of_int i)"
    using exact(1,2) by (simp_all only: f64_of_int_def)
  show "f64_neg (f64_of_int i) = (i < 0)"
    using exact(3) pos by (simp add: f64_of_int_def mult_less_0_iff)
qed

lemma f64_of_int_0 [simp]: "f64_of_int 0 = f64_make False 0"
  by (simp add: f64_of_int_def f64_of_units_def f64_round_mag_def)

lemma f64_of_int_not_nan: "f64_exact_int i \<Longrightarrow> \<not> f64_is_nan (f64_of_int i)"
  using f64_of_int_exact(2) f64_finite_not_nan by blast

lemma f64_lt_of_int: "f64_exact_int i \<Longrightarrow> f64_exact_int j \<Longrightarrow> f64_lt (f64_of_int i) (f64_of_int j) \<longleftrightarrow> i < j"
  by (simp add: f64_lt_units f64_of_int_exact f64_one_units_def)

lemma f64_of_int_inject:
  "f64_exact_int i \<Longrightarrow> f64_exact_int j \<Longrightarrow> f64_of_int i = f64_of_int j \<longleftrightarrow> i = j"
  by (metis f64_lt_of_int f64_lt_irrefl linorder_neqE)

lemma f64_add_of_int:
  assumes "f64_exact_int i" and "f64_exact_int j"
  shows "f64_add (f64_of_int i) (f64_of_int j) = f64_of_int (i + j)"
proof -
  note f = f64_of_int_exact(3) [OF assms(1)] f64_of_int_exact(3) [OF assms(2)]
    f64_finite_not_nan [OF f64_of_int_exact(2) [OF assms(1)]]
    f64_finite_not_nan [OF f64_of_int_exact(2) [OF assms(2)]]
  have sum: "f64_units (f64_of_int i) + f64_units (f64_of_int j) = (i + j) * int f64_one_units"
    by (simp add: f64_of_int_exact assms algebra_simps)
  show ?thesis
  proof (cases "i + j = 0")
    case True
    then have "\<not> (i < 0 \<and> j < 0)" by simp
    with True show ?thesis by (cases "i < 0") (auto simp: f64_add_def f sum)
  next
    case False
    then have "(i + j) * int f64_one_units \<noteq> 0"
      by (simp add: f64_one_units_def)
    then have "f64_add (f64_of_int i) (f64_of_int j) = f64_of_units ((i + j) * int f64_one_units)"
      by (simp add: f64_add_def f sum)
    then show ?thesis
      by (simp only: f64_of_int_def)
  qed
qed

lemma round_even_scale: "0 < d \<Longrightarrow> 0 < c \<Longrightarrow> round_even (q * d) (d * c) = round_even q c"
proof -
  assume pos: "0 < d" "0 < c"
  have "(q * d) div (d * c) = q div c" and "(q * d) mod (d * c) = d * (q mod c)"
    using pos by (simp_all add: mult.commute [of q] div_mult_mult1 mod_mult_mult1)
  moreover have "2 * (d * (q mod c)) < d * c \<longleftrightarrow> 2 * (q mod c) < c"
    and "2 * (d * (q mod c)) = d * c \<longleftrightarrow> 2 * (q mod c) = c"
    using pos by (simp_all add: mult.left_commute [of 2])
  ultimately show ?thesis
    unfolding round_even_def Let_def by presburger
qed

lemma f64_round_mag_scale: "0 < d \<Longrightarrow> f64_round_mag (q * d) d = f64_round_mag q 1"
  by (simp add: f64_round_mag_def round_even_scale)

lemma f64_mag_units_of_int:
  assumes "f64_exact_int k"
  shows "f64_mag_units (f64_mag (f64_of_int k)) = nat \<bar>k\<bar> * f64_one_units"
proof -
  have "int (f64_mag_units (f64_mag (f64_of_int k))) = \<bar>f64_units (f64_of_int k)\<bar>"
    by (simp add: f64_units_def)
  also have "\<dots> = int (nat \<bar>k\<bar> * f64_one_units)"
    by (simp add: f64_of_int_exact(1) [OF assms] abs_mult)
  finally show ?thesis
    by (simp only: of_nat_eq_iff)
qed

text \<open>Division is exact where the quotient is a whole number.\<close>

lemma f64_div_of_int:
  assumes "f64_exact_int i" and "f64_exact_int j" and "0 < j" and "j dvd i"
  shows "f64_div (f64_of_int i) (f64_of_int j) = f64_of_int (i div j)"
proof -
  obtain q where q: "i = q * j"
    using assms(4) by (metis dvdE mult.commute)
  have one: "0 < f64_one_units"
    by (simp add: f64_one_units_def)
  note mags = f64_mag_units_of_int [OF assms(1)] f64_mag_units_of_int [OF assms(2)]
  have num: "f64_mag_units (f64_mag (f64_of_int i)) * f64_one_units =
      (nat \<bar>q\<bar> * f64_one_units) * f64_mag_units (f64_mag (f64_of_int j))"
    by (simp only: mags) (simp add: q abs_mult nat_mult_distrib)
  have den: "0 < f64_mag_units (f64_mag (f64_of_int j))"
    using assms(3) one by (simp only: mags) simp
  have sign: "i < 0 \<longleftrightarrow> q < 0"
    using assms(3) by (simp add: q mult_less_0_iff)
  have mag: "nat \<bar>q\<bar> * f64_one_units = nat \<bar>q * int f64_one_units\<bar>"
    by (simp add: abs_mult nat_mult_distrib)
  have neg: "f64_neg (f64_of_int i) = (q < 0)" "f64_neg (f64_of_int j) = False"
    using f64_of_int_exact(3) [OF assms(1)] f64_of_int_exact(3) [OF assms(2)] assms(3) sign by auto
  have units: "f64_units (f64_of_int j) \<noteq> 0"
    using assms(3) one by (simp add: f64_of_int_exact(1) [OF assms(2)])
  note fin = f64_finite_not_nan [OF f64_of_int_exact(2) [OF assms(1)]]
    f64_finite_not_nan [OF f64_of_int_exact(2) [OF assms(2)]]
  have "f64_div (f64_of_int i) (f64_of_int j) =
      f64_make (q < 0) (f64_round_mag (nat \<bar>q\<bar> * f64_one_units) 1)"
    by (simp add: f64_div_def Let_def fin units neg num f64_round_mag_scale [OF den])
  also have "\<dots> = f64_of_units (q * int f64_one_units)"
    using one by (simp add: f64_of_units_def mag mult_less_0_iff)
  finally show ?thesis
    using assms(3) by (simp add: q f64_of_int_def)
qed

section \<open>Sums of integers\<close>

lemma f64_sum_exact:
  assumes "\<bar>s\<bar> + sum_list (map abs ns) \<le> 2 ^ 53"
  shows "fold (\<lambda>v acc. f64_add acc v) (map f64_of_int ns) (f64_of_int s) = f64_of_int (s + sum_list ns)"
  using assms
proof (induction ns arbitrary: s)
  case (Cons i ns)
  have nonneg: "0 \<le> sum_list (map abs ns)"
    by (rule sum_list_nonneg) auto
  have "f64_exact_int s" "f64_exact_int i"
    using Cons.prems nonneg by (auto simp: f64_exact_int_def)
  then have "f64_add (f64_of_int s) (f64_of_int i) = f64_of_int (s + i)"
    by (rule f64_add_of_int)
  then show ?case
    using Cons.IH [of "s + i"] Cons.prems by (simp add: add.assoc)
qed simp

lemma exact_ints:
  "sum_list (map abs ns) \<le> 2 ^ 53 \<Longrightarrow> i \<in> set ns \<Longrightarrow> f64_exact_int i"
proof (induction ns)
  case (Cons j ns)
  moreover have "0 \<le> sum_list (map abs ns)"
    by (rule sum_list_nonneg) auto
  ultimately show ?case by (auto simp: f64_exact_int_def)
qed simp

lemma exact_abs_sum: "\<bar>sum_list ns\<bar> \<le> sum_list (map abs ns)" for ns :: "int list"
  by (induction ns) auto

end
