(* ===== verification/Hashing.thy ===== *)
theory Hashing
  imports Float64
begin

text \<open>
  The \<open>hashing\<close> package: \<open>byteconv.go\<close> turns reflected values into bytes, \<open>sortconv.go\<close> orders the
  keys of a map, \<open>hashing.go\<close> feeds the bytes of all parameters to a hash function.

  \<open>goval\<close> is a \<open>reflect.Value\<close>. The entries of a map are listed in the order in which
  \<open>MapKeys\<close> returns the keys, which Go leaves open; the main theorem of the theory is that the bytes
  of a map do not depend on it. A value of interface kind (an element of a \<open>[]interface{}\<close>) is
  \<open>VIface\<close>; kinds that the package does not handle are \<open>VOther\<close>.

  The hash functions themselves (\<open>crypto/sha256\<close> and the others, \<open>golang.org/x/crypto/sha3\<close>) are
  parameters, records of the operations that the code calls.
\<close>

unbundle bit_operations_syntax

section \<open>Reflected values\<close>

datatype kind =
    KInvalid | KBool | KInt | KInt8 | KInt16 | KInt32 | KInt64
  | KUint | KUint8 | KUint16 | KUint32 | KUint64 | KUintptr | KFloat32 | KFloat64
  | KComplex64 | KComplex128 | KArray | KChan | KFunc | KInterface | KMap | KPtr | KSlice
  | KString | KStruct | KUnsafePointer

datatype int_kind = SInt | SInt8 | SInt16 | SInt32 | SInt64

datatype uint_kind = SUint | SUint8 | SUint16 | SUint32 | SUint64

datatype float_kind = SFloat32 | SFloat64

datatype goval =
    VBool bool
  | VInt int_kind "64 word"
  | VUint uint_kind "64 word"
  | VFloat float_kind float64
  | VString string
  | VMap "(goval \<times> goval) list"
  | VArray "goval list"
  | VSlice "goval list"
  | VIface goval
  | VOther kind

fun kind_of :: "goval \<Rightarrow> kind" where
  "kind_of (VBool _) = KBool"
| "kind_of (VInt k _) =
     (case k of SInt \<Rightarrow> KInt | SInt8 \<Rightarrow> KInt8 | SInt16 \<Rightarrow> KInt16 | SInt32 \<Rightarrow> KInt32 | SInt64 \<Rightarrow> KInt64)"
| "kind_of (VUint k _) =
     (case k of SUint \<Rightarrow> KUint | SUint8 \<Rightarrow> KUint8 | SUint16 \<Rightarrow> KUint16 | SUint32 \<Rightarrow> KUint32
      | SUint64 \<Rightarrow> KUint64)"
| "kind_of (VFloat k _) = (case k of SFloat32 \<Rightarrow> KFloat32 | SFloat64 \<Rightarrow> KFloat64)"
| "kind_of (VString _) = KString"
| "kind_of (VMap _) = KMap"
| "kind_of (VArray _) = KArray"
| "kind_of (VSlice _) = KSlice"
| "kind_of (VIface _) = KInterface"
| "kind_of (VOther k) = k"

text \<open>The \<open>==\<close> of map keys: bitwise on everything but floats, where the zeros are equal and a NaN is
  equal to nothing.\<close>

fun go_eq :: "goval \<Rightarrow> goval \<Rightarrow> bool"
  and go_eqs :: "goval list \<Rightarrow> goval list \<Rightarrow> bool" where
  "go_eq (VFloat k a) (VFloat k' b) = (k = k' \<and> f64_eq a b)"
| "go_eq (VArray xs) (VArray ys) = go_eqs xs ys"
| "go_eq (VIface x) (VIface y) = go_eq x y"
| "go_eq x y = (x = y)"
| "go_eqs [] [] = True"
| "go_eqs (x # xs) (y # ys) = (go_eq x y \<and> go_eqs xs ys)"
| "go_eqs _ _ = False"

text \<open>\<open>v.MapIndex(k)\<close>: the zero \<open>Value\<close>, of kind \<open>Invalid\<close>, when the key is not found.\<close>

fun MapIndex :: "(goval \<times> goval) list \<Rightarrow> goval \<Rightarrow> goval" where
  "MapIndex [] k = VOther KInvalid"
| "MapIndex ((k', v) # es) k = (if go_eq k' k then v else MapIndex es k)"

datatype hash_error = TypeNotMapped kind | NoAlgorithm string | HashFailed string

type_synonym 'a hres = "(hash_error, 'a) res"

section \<open>sortconv.go\<close>

text \<open>Each \<open>Less\<close> reads its operands with the accessor of one kind; \<open>Int\<close>, \<open>Float\<close> and \<open>Bool\<close> panic
  on a value of another kind, and \<open>None\<close> stands for that panic. \<open>String\<close> never panics.\<close>

fun reflect_Int :: "goval \<Rightarrow> int option" where
  "reflect_Int (VInt _ w) = Some (sint w)"
| "reflect_Int _ = None"

fun reflect_Float :: "goval \<Rightarrow> float64 option" where
  "reflect_Float (VFloat _ f) = Some f"
| "reflect_Float _ = None"

fun reflect_Bool :: "goval \<Rightarrow> bool option" where
  "reflect_Bool (VBool b) = Some b"
| "reflect_Bool _ = None"

fun reflect_String :: "goval \<Rightarrow> string" where
  "reflect_String (VString s) = s"
| "reflect_String v = ''<Value>''"

definition byString_Less :: "goval \<Rightarrow> goval \<Rightarrow> bool" where
  "byString_Less a b \<longleftrightarrow> reflect_String a < reflect_String b"

definition byFloat_Less :: "goval \<Rightarrow> goval \<Rightarrow> bool" where
  "byFloat_Less a b \<longleftrightarrow> f64_lt (the (reflect_Float a)) (the (reflect_Float b))"

definition byInt_Less :: "goval \<Rightarrow> goval \<Rightarrow> bool" where
  "byInt_Less a b \<longleftrightarrow> the (reflect_Int a) < the (reflect_Int b)"

definition byBool_Less :: "goval \<Rightarrow> goval \<Rightarrow> bool" where
  "byBool_Less a b \<longleftrightarrow>
     (let inti = if the (reflect_Bool a) then 1 else 0 :: byte;
          intj = if the (reflect_Bool b) then 1 else 0
      in inti < intj)"

text \<open>\<open>sort.Sort\<close> calls \<open>Less\<close> only when there are two elements or more; then every element is
  compared, so one element of the wrong kind panics.\<close>

definition sort_values ::
  "(goval \<Rightarrow> bool) \<Rightarrow> (goval \<Rightarrow> goval \<Rightarrow> bool) \<Rightarrow> goval list \<Rightarrow> goval list hres" where
  "sort_values readable lt xs =
     (if length xs < 2 then Ok xs
      else if list_all readable xs then Ok (go_sort lt xs) else Panic)"

section \<open>byteconv.go\<close>

text \<open>\<open>binary.BigEndian.PutUint64\<close>.\<close>

definition put_uint64 :: "64 word \<Rightarrow> byte list" where
  "put_uint64 w = map (\<lambda>i. ucast (drop_bit (8 * i) w)) [7, 6, 5, 4, 3, 2, 1, 0]"

definition float64ToByteArray :: "float64 \<Rightarrow> byte list" where
  "float64ToByteArray f = put_uint64 f"

definition int64ToByteArray :: "64 word \<Rightarrow> byte list" where
  "int64ToByteArray i = put_uint64 i"

definition uint64ToByteArray :: "64 word \<Rightarrow> byte list" where
  "uint64ToByteArray i = put_uint64 i"

definition boolToByteArray :: "bool \<Rightarrow> byte list" where
  "boolToByteArray b = (if b then [1] else [0])"

definition stringToByteArray :: "string \<Rightarrow> byte list" where
  "stringToByteArray s = (if length s = 0 then [] else bytes_of_string s)"

text \<open>
  \<open>sortKeys\<close> sorts its argument in place; the model returns the array as the call leaves it together
  with the error, which is \<open>None\<close> for \<open>nil\<close>.
\<close>

definition sortKeys :: "goval list \<Rightarrow> kind \<Rightarrow> (goval list \<times> hash_error option) hres" where
  "sortKeys array k =
     (let done = (\<lambda>r. res_bind r (\<lambda>xs. Ok (xs, None)))
      in case k of
        KString \<Rightarrow> done (sort_values (\<lambda>_. True) byString_Less array)
      | KUint \<Rightarrow> done (sort_values (\<lambda>v. reflect_Int v \<noteq> None) byInt_Less array)
      | KUint16 \<Rightarrow> done (sort_values (\<lambda>v. reflect_Int v \<noteq> None) byInt_Less array)
      | KUint32 \<Rightarrow> done (sort_values (\<lambda>v. reflect_Int v \<noteq> None) byInt_Less array)
      | KUint64 \<Rightarrow> done (sort_values (\<lambda>v. reflect_Int v \<noteq> None) byInt_Less array)
      | KUint8 \<Rightarrow> done (sort_values (\<lambda>v. reflect_Int v \<noteq> None) byInt_Less array)
      | KInt \<Rightarrow> done (sort_values (\<lambda>v. reflect_Int v \<noteq> None) byInt_Less array)
      | KInt16 \<Rightarrow> done (sort_values (\<lambda>v. reflect_Int v \<noteq> None) byInt_Less array)
      | KInt32 \<Rightarrow> done (sort_values (\<lambda>v. reflect_Int v \<noteq> None) byInt_Less array)
      | KInt64 \<Rightarrow> done (sort_values (\<lambda>v. reflect_Int v \<noteq> None) byInt_Less array)
      | KInt8 \<Rightarrow> done (sort_values (\<lambda>v. reflect_Int v \<noteq> None) byInt_Less array)
      | KFloat32 \<Rightarrow> done (sort_values (\<lambda>v. reflect_Float v \<noteq> None) byFloat_Less array)
      | KFloat64 \<Rightarrow> done (sort_values (\<lambda>v. reflect_Float v \<noteq> None) byFloat_Less array)
      | KBool \<Rightarrow> done (sort_values (\<lambda>v. reflect_Bool v \<noteq> None) byBool_Less array)
      | _ \<Rightarrow> Ok (array, Some (TypeNotMapped k)))"

text \<open>
  \<open>getByteArray\<close>, \<open>mapToByteArray\<close> and \<open>arrayToByteArray\<close> call each other. The two loops take
  \<open>getByteArray\<close> as an argument, which only meets components of the map or array.
  A nil slice and an empty one are the same list of bytes.
\<close>

fun map_loop :: "(goval \<Rightarrow> byte list hres) \<Rightarrow> (goval \<times> goval) list \<Rightarrow> goval list \<Rightarrow> byte list \<Rightarrow> byte list hres" where
  "map_loop get es [] bytes = Ok bytes"
| "map_loop get es (k # keys) bytes =
     res_bind (get k) (\<lambda>keyBytes.
     res_bind (get (MapIndex es k)) (\<lambda>valBytes.
       map_loop get es keys (bytes @ keyBytes @ valBytes)))"

definition mapToByteArray :: "(goval \<Rightarrow> byte list hres) \<Rightarrow> (goval \<times> goval) list \<Rightarrow> byte list hres" where
  "mapToByteArray get es =
     (if length es = 0 then Ok []
      else (let keys = map fst es
            in res_bind (sortKeys keys (kind_of (keys ! 0)))
                 (\<lambda>(keys, _). map_loop get es keys [])))"

fun array_loop :: "(goval \<Rightarrow> byte list hres) \<Rightarrow> goval list \<Rightarrow> byte list \<Rightarrow> byte list hres" where
  "array_loop get [] bytes = Ok bytes"
| "array_loop get (v # vs) bytes =
     res_bind (get v) (\<lambda>indexBytes. array_loop get vs (bytes @ indexBytes))"

definition arrayToByteArray :: "(goval \<Rightarrow> byte list hres) \<Rightarrow> goval list \<Rightarrow> byte list hres" where
  "arrayToByteArray get vs = array_loop get vs []"

lemma sort_values_set: "sort_values rd lt xs = Ok ys \<Longrightarrow> set ys = set xs"
  by (auto simp: sort_values_def split: if_splits)

lemma sortKeys_set: "sortKeys xs k = Ok (ys, e) \<Longrightarrow> set ys = set xs"
  by (cases k) (auto simp: sortKeys_def Let_def res_bind_Ok_iff dest: sort_values_set)

lemma MapIndex_mem: "MapIndex es k \<in> insert (VOther KInvalid) (snd ` set es)"
  by (induction es k rule: MapIndex.induct) auto

lemma map_loop_cong:
  "(\<And>x. x \<in> set keys \<Longrightarrow> f x = g x \<and> f (MapIndex es x) = g (MapIndex es x)) \<Longrightarrow>
     map_loop f es keys bytes = map_loop g es keys bytes"
  by (induction keys arbitrary: bytes) (auto intro!: res_bind_cong)

lemma mapToByteArray_cong [fundef_cong]:
  assumes "es = es'"
    and "\<And>x. es' \<noteq> [] \<Longrightarrow> x \<in> insert (VOther KInvalid) (fst ` set es' \<union> snd ` set es') \<Longrightarrow> f x = g x"
  shows "mapToByteArray f es = mapToByteArray g es'"
proof (cases "es' = []")
  case False
  have "map_loop f es' keys [] = map_loop g es' keys []"
    if "sortKeys (map fst es') k = Ok (keys, e)" for k keys e
  proof (rule map_loop_cong)
    fix x
    assume "x \<in> set keys"
    with sortKeys_set [OF that] have "x \<in> fst ` set es'" by simp
    then show "f x = g x \<and> f (MapIndex es' x) = g (MapIndex es' x)"
      using assms(2) [OF False] MapIndex_mem [of es' x] by blast
  qed
  then show ?thesis
    unfolding assms(1) mapToByteArray_def Let_def
    by (intro if_cong refl res_bind_cong) (auto split: prod.splits)
qed (simp add: assms(1) mapToByteArray_def)

lemma array_loop_cong:
  "(\<And>x. x \<in> set vs \<Longrightarrow> f x = g x) \<Longrightarrow> array_loop f vs bytes = array_loop g vs bytes"
  by (induction vs arbitrary: bytes) (auto intro!: res_bind_cong)

lemma arrayToByteArray_cong [fundef_cong]:
  "vs = vs' \<Longrightarrow> (\<And>x. x \<in> set vs' \<Longrightarrow> f x = g x) \<Longrightarrow> arrayToByteArray f vs = arrayToByteArray g vs'"
  by (simp add: arrayToByteArray_def cong: array_loop_cong)

lemma size_entry:
  assumes "(k, v) \<in> set es"
  shows "size k < size (VMap es)" and "size v < size (VMap es)"
proof -
  have "size_prod size size (k, v) < Suc (size_list (size_prod size size) es)"
    using size_list_estimation' [OF assms, of _ "size_prod size size"] by (simp add: less_Suc_eq_le)
  then show "size k < size (VMap es)" and "size v < size (VMap es)"
    by simp_all
qed

function getByteArray :: "goval \<Rightarrow> byte list hres" where
  "getByteArray (VString s) = Ok (stringToByteArray s)"
| "getByteArray (VInt _ i) = Ok (int64ToByteArray i)"
| "getByteArray (VUint _ i) = Ok (uint64ToByteArray i)"
| "getByteArray (VFloat _ f) = Ok (float64ToByteArray f)"
| "getByteArray (VBool b) = Ok (boolToByteArray b)"
| "getByteArray (VMap es) = mapToByteArray getByteArray es"
| "getByteArray (VArray vs) = arrayToByteArray getByteArray vs"
| "getByteArray (VSlice vs) = arrayToByteArray getByteArray vs"
| "getByteArray (VIface v) = Err (TypeNotMapped (kind_of (VIface v)))"
| "getByteArray (VOther k) = Err (TypeNotMapped k)"
  by pat_completeness auto
termination
proof (relation "measure size")
  fix es x
  assume "es \<noteq> []" and x: "x \<in> insert (VOther KInvalid) (fst ` set es \<union> snd ` set es)"
  then obtain k v where "(k, v) \<in> set es"
    by (metis list.set_intros(1) neq_Nil_conv prod.collapse)
  then have "0 < size_list (size_prod size size) es"
    using size_list_estimation' [of "(k, v)" es 1 "size_prod size size"] by auto
  with x show "(x, VMap es) \<in> measure size"
    by (auto dest: size_entry)
qed (auto simp: size_list_estimation' less_Suc_eq_le)

section \<open>hashing.go\<close>

definition SHA256 :: string where "SHA256 = ''sha256''"
definition SHA1 :: string where "SHA1 = ''sha1''"
definition MD5 :: string where "MD5 = ''md5''"
definition CRC32 :: string where "CRC32 = ''crc32''"
definition SHAKE128 :: string where "SHAKE128 = ''shake128''"
definition SHAKE256 :: string where "SHAKE256 = ''shake256''"

fun param_loop :: "goval list \<Rightarrow> byte list \<Rightarrow> byte list hres" where
  "param_loop [] result = Ok result"
| "param_loop (p # ps) result = res_bind (getByteArray p) (\<lambda>bytes. param_loop ps (result @ bytes))"

definition GenerateByteArray :: "goval list \<Rightarrow> byte list hres" where
  "GenerateByteArray parameters =
     (if length parameters = 0 then Ok [] else param_loop parameters [])"

text \<open>What the package uses of a \<open>hash.Hash\<close> and of a \<open>sha3.ShakeHash\<close>: a fresh state, \<open>Write\<close>,
  \<open>Sum(nil)\<close> and \<open>Read\<close> of a number of bytes; \<open>Inl\<close> is a returned error.\<close>

record 's hasher =
  hs_new :: 's
  hs_write :: "'s \<Rightarrow> byte list \<Rightarrow> string + 's"
  hs_sum :: "'s \<Rightarrow> byte list"

record 's shaker =
  sk_new :: 's
  sk_write :: "'s \<Rightarrow> byte list \<Rightarrow> string + 's"
  sk_read :: "'s \<Rightarrow> nat \<Rightarrow> string + byte list"

record 's hash_lib =
  sha256_New :: "'s hasher"
  sha1_New :: "'s hasher"
  md5_New :: "'s hasher"
  crc32_NewIEEE :: "'s hasher"

record 's shake_lib =
  sha3_NewShake128 :: "'s shaker"
  sha3_NewShake256 :: "'s shaker"

definition generateHash :: "'s hasher \<Rightarrow> goval list \<Rightarrow> byte list hres" where
  "generateHash h parameters =
     res_bind (GenerateByteArray parameters) (\<lambda>byteArray.
       case hs_write h (hs_new h) byteArray of
         Inl err \<Rightarrow> Err (HashFailed err)
       | Inr st \<Rightarrow> Ok (hs_sum h st))"

definition generateShakeHash :: "'s shaker \<Rightarrow> int \<Rightarrow> goval list \<Rightarrow> byte list hres" where
  "generateShakeHash h outputSize parameters =
     res_bind (GenerateByteArray parameters) (\<lambda>byteArray.
       case sk_write h (sk_new h) byteArray of
         Inl err \<Rightarrow> Err (HashFailed err)
       | Inr st \<Rightarrow>
           if outputSize < 0 then Panic
           else (case sk_read h st (nat outputSize) of
                   Inl err \<Rightarrow> Err (HashFailed err)
                 | Inr output \<Rightarrow> Ok output))"

definition GenerateSHA256 :: "'s hash_lib \<Rightarrow> goval list \<Rightarrow> byte list hres" where
  "GenerateSHA256 lib parameters = generateHash (sha256_New lib) parameters"

definition GenerateCRC32 :: "'s hash_lib \<Rightarrow> goval list \<Rightarrow> byte list hres" where
  "GenerateCRC32 lib parameters = generateHash (crc32_NewIEEE lib) parameters"

definition GenerateMD5 :: "'s hash_lib \<Rightarrow> goval list \<Rightarrow> byte list hres" where
  "GenerateMD5 lib parameters = generateHash (md5_New lib) parameters"

definition GenerateSHA1 :: "'s hash_lib \<Rightarrow> goval list \<Rightarrow> byte list hres" where
  "GenerateSHA1 lib parameters = generateHash (sha1_New lib) parameters"

definition GenerateSHAKE128 :: "'s shake_lib \<Rightarrow> int \<Rightarrow> goval list \<Rightarrow> byte list hres" where
  "GenerateSHAKE128 lib outputSize parameters =
     generateShakeHash (sha3_NewShake128 lib) outputSize parameters"

definition GenerateSHAKE256 :: "'s shake_lib \<Rightarrow> int \<Rightarrow> goval list \<Rightarrow> byte list hres" where
  "GenerateSHAKE256 lib outputSize parameters =
     generateShakeHash (sha3_NewShake256 lib) outputSize parameters"

definition Generate :: "'s hash_lib \<Rightarrow> string \<Rightarrow> goval list \<Rightarrow> byte list hres" where
  "Generate lib algorithm parameters =
     (if algorithm = SHA256 then GenerateSHA256 lib parameters
      else if algorithm = SHA1 then GenerateSHA1 lib parameters
      else if algorithm = MD5 then GenerateMD5 lib parameters
      else if algorithm = CRC32 then GenerateCRC32 lib parameters
      else Err (NoAlgorithm algorithm))"

definition GenerateSHAKE :: "'s shake_lib \<Rightarrow> string \<Rightarrow> int \<Rightarrow> goval list \<Rightarrow> byte list hres" where
  "GenerateSHAKE lib algorithm outputSize parameters =
     (if algorithm = SHAKE128 then GenerateSHAKE128 lib outputSize parameters
      else if algorithm = SHAKE256 then GenerateSHAKE256 lib outputSize parameters
      else Err (NoAlgorithm algorithm))"

section \<open>Fixed-width encodings\<close>

definition get_uint64 :: "byte list \<Rightarrow> 64 word" where
  "get_uint64 bs = foldl (\<lambda>acc b. push_bit 8 acc OR ucast b) 0 bs"

lemma length_put_uint64 [simp]: "length (put_uint64 w) = 8"
  by (simp add: put_uint64_def)

lemma join_byte:
  "push_bit 8 (drop_bit (8 + k) (w :: 64 word)) OR ucast (ucast (drop_bit k w) :: byte) = drop_bit k w"
proof (rule bit_word_eqI)
  fix n
  assume "n < LENGTH(64)"
  then show "bit (push_bit 8 (drop_bit (8 + k) w) OR ucast (ucast (drop_bit k w) :: byte)) n = bit (drop_bit k w) n"
    by (cases "n < 8") (auto simp: bit_simps)
qed

lemma get_put_uint64 [simp]: "get_uint64 (put_uint64 w) = w"
proof -
  have top: "drop_bit 64 w = 0"
    by (rule bit_word_eqI) (auto simp: bit_simps dest: bit_imp_le_length)
  show ?thesis
    unfolding get_uint64_def put_uint64_def
    by (simp add: join_byte [of 0, simplified] join_byte [of 8, simplified] join_byte [of 16, simplified]
        join_byte [of 24, simplified] join_byte [of 32, simplified] join_byte [of 40, simplified]
        join_byte [of 48, simplified] join_byte [of 56, simplified top, simplified])
qed

lemma put_uint64_inject [simp]: "put_uint64 v = put_uint64 w \<longleftrightarrow> v = w"
  by (metis get_put_uint64)

section \<open>The loops concatenate\<close>

text \<open>The first failure of a list of conversions, or the concatenation of their bytes.\<close>

definition concat_res :: "byte list hres list \<Rightarrow> byte list hres" where
  "concat_res rs = foldr (\<lambda>r acc. res_bind r (\<lambda>b. res_bind acc (\<lambda>bs. Ok (b @ bs)))) rs (Ok [])"

lemma concat_res_simps [simp]:
  "concat_res [] = Ok []"
  "concat_res (r # rs) = res_bind r (\<lambda>b. res_bind (concat_res rs) (\<lambda>bs. Ok (b @ bs)))"
  by (simp_all add: concat_res_def)

lemma res_bind_assoc: "res_bind (res_bind r f) g = res_bind r (\<lambda>x. res_bind (f x) g)"
  by (cases r) auto

lemma concat_res_append:
  "concat_res (rs @ rs') = res_bind (concat_res rs) (\<lambda>b. res_bind (concat_res rs') (\<lambda>b'. Ok (b @ b')))"
  by (induction rs) (auto simp: res_bind_assoc intro!: res_bind_cong, cases "concat_res rs'", auto)

lemma concat_res_Ok: "concat_res (map Ok bss) = Ok (concat bss)"
  by (induction bss) auto

lemma array_loop_concat:
  "array_loop get vs acc = res_bind (concat_res (map get vs)) (\<lambda>bs. Ok (acc @ bs))"
  by (induction vs arbitrary: acc) (auto simp: res_bind_assoc intro!: res_bind_cong)

lemma map_loop_concat:
  "map_loop get es keys acc =
     res_bind (concat_res (concat (map (\<lambda>k. [get k, get (MapIndex es k)]) keys))) (\<lambda>bs. Ok (acc @ bs))"
  by (induction keys arbitrary: acc) (auto simp: res_bind_assoc intro!: res_bind_cong)

lemma res_bind_Ok [simp]: "res_bind r Ok = r" "res_bind r (\<lambda>x. Ok x) = r"
  by (cases r; simp)+

lemma arrayToByteArray_concat: "arrayToByteArray get vs = concat_res (map get vs)"
  by (simp add: arrayToByteArray_def array_loop_concat)

lemma param_loop_concat:
  "param_loop ps acc = res_bind (concat_res (map getByteArray ps)) (\<lambda>bs. Ok (acc @ bs))"
  by (induction ps arbitrary: acc) (auto simp: res_bind_assoc intro!: res_bind_cong)

lemma GenerateByteArray_concat: "GenerateByteArray ps = concat_res (map getByteArray ps)"
  by (simp add: GenerateByteArray_def param_loop_concat)

lemma GenerateByteArray_append:
  "GenerateByteArray (ps @ qs) =
     res_bind (GenerateByteArray ps) (\<lambda>b. res_bind (GenerateByteArray qs) (\<lambda>b'. Ok (b @ b')))"
  by (simp add: GenerateByteArray_concat concat_res_append)

section \<open>The keys of a map\<close>

text \<open>Keys of one kind that \<open>sortKeys\<close> can order, no NaN among them, no two equal: the key sets
  of Go maps whose key type is a string, signed integer, float or boolean type.\<close>

fun key_ok :: "goval \<Rightarrow> bool" where
  "key_ok (VString _) = True"
| "key_ok (VInt _ _) = True"
| "key_ok (VFloat _ f) = (\<not> f64_is_nan f)"
| "key_ok (VBool _) = True"
| "key_ok _ = False"

definition good_keys :: "goval list \<Rightarrow> bool" where
  "good_keys ks \<longleftrightarrow>
     list_all key_ok ks \<and> list_all (\<lambda>k. kind_of k = kind_of (ks ! 0)) ks \<and> sorted_wrt (\<lambda>a b. \<not> go_eq a b) ks"

definition key_less :: "kind \<Rightarrow> goval \<Rightarrow> goval \<Rightarrow> bool" where
  "key_less k =
     (if k = KString then byString_Less
      else if k \<in> {KFloat32, KFloat64} then byFloat_Less
      else if k = KBool then byBool_Less
      else byInt_Less)"

lemma go_eq_refl: "key_ok k \<Longrightarrow> go_eq k k"
  by (cases k) (auto simp: f64_eq_def)

lemma go_eq_sym: "go_eq a b \<Longrightarrow> key_ok a \<Longrightarrow> key_ok b \<Longrightarrow> go_eq b a"
  by (cases a; cases b) (auto simp: f64_eq_def)

text \<open>The number behind a key that is not a string; \<open>Less\<close> compares these numbers.\<close>

fun num_rank :: "goval \<Rightarrow> int" where
  "num_rank (VInt _ w) = sint w"
| "num_rank (VFloat _ f) = f64_key f"
| "num_rank (VBool b) = (if b then 1 else 0)"
| "num_rank _ = 0"

lemma key_less_rank:
  assumes "key_ok a" and "key_ok b" and "kind_of a = k" and "kind_of b = k"
  shows "key_less k a b \<longleftrightarrow>
    (if k = KString then reflect_String a < reflect_String b else num_rank a < num_rank b)"
  using assms
  by (cases a; cases b; simp split: int_kind.splits float_kind.splits;
      auto simp: key_less_def byString_Less_def byFloat_Less_def byBool_Less_def byInt_Less_def f64_lt_def)

lemma go_eq_rank:
  assumes "key_ok a" and "key_ok b" and "kind_of a = kind_of b"
  shows "go_eq a b \<longleftrightarrow>
    (if kind_of a = KString then reflect_String a = reflect_String b else num_rank a = num_rank b)"
  using assms
  by (cases a; cases b; simp split: int_kind.splits float_kind.splits;
      auto simp: f64_eq_def dest: signed_word_eqI)

lemma good_keys_ok:
  "good_keys ks \<Longrightarrow> k \<in> set ks \<Longrightarrow> key_ok k \<and> kind_of k = kind_of (ks ! 0)"
  by (auto simp: good_keys_def list_all_iff)

lemma good_keys_eq:
  assumes "good_keys ks" and "a \<in> set ks" and "b \<in> set ks" and "go_eq a b"
  shows "a = b"
proof -
  obtain i j where ij: "i < length ks" "j < length ks" "a = ks ! i" "b = ks ! j"
    using assms(2,3) by (metis in_set_conv_nth)
  have "go_eq b a"
    using assms go_eq_sym good_keys_ok by blast
  with assms(1,4) ij show ?thesis
    by (cases i j rule: linorder_cases) (auto simp: good_keys_def sorted_wrt_iff_nth_less)
qed

lemma good_keys_distinct:
  assumes "good_keys ks"
  shows "distinct ks"
  unfolding distinct_conv_nth
proof (intro allI impI)
  fix i j
  assume ij: "i < length ks" "j < length ks" "i \<noteq> j"
  then have "go_eq (ks ! i) (ks ! i)" "go_eq (ks ! j) (ks ! j)"
    using good_keys_ok [OF assms] go_eq_refl nth_mem by blast+
  moreover have "\<not> go_eq (ks ! i) (ks ! j) \<or> \<not> go_eq (ks ! j) (ks ! i)"
    using assms ij by (cases i j rule: linorder_cases) (auto simp: good_keys_def sorted_wrt_iff_nth_less)
  ultimately show "ks ! i \<noteq> ks ! j"
    by metis
qed

lemma key_readable:
  "key_ok v \<Longrightarrow> kind_of v \<in> {KInt, KInt8, KInt16, KInt32, KInt64} \<Longrightarrow> reflect_Int v \<noteq> None"
  "key_ok v \<Longrightarrow> kind_of v \<in> {KFloat32, KFloat64} \<Longrightarrow> reflect_Float v \<noteq> None"
  "key_ok v \<Longrightarrow> kind_of v = KBool \<Longrightarrow> reflect_Bool v \<noteq> None"
  by (cases v; auto split: int_kind.splits float_kind.splits)+

lemma good_keys_order:
  assumes "good_keys ks" and "k = kind_of (ks ! 0)"
  shows "strict_weak (key_less k) (set ks)" and "separates (key_less k) (set ks)"
proof -
  have ok: "key_ok a" "kind_of a = k" if "a \<in> set ks" for a
    using assms that by (auto simp: good_keys_def list_all_iff)
  show "strict_weak (key_less k) (set ks)"
    using ok by (auto simp: strict_weak_def key_less_rank)
  have same: "a = b" if "a \<in> set ks" "b \<in> set ks" "go_eq a b" for a b
    using good_keys_eq [OF assms(1)] that by blast
  show "separates (key_less k) (set ks)"
    unfolding separates_def using ok same by (auto simp: key_less_rank go_eq_rank)
qed

lemma go_sort_short: "length xs < 2 \<Longrightarrow> go_sort lt xs = xs"
  by (cases xs; cases "tl xs") auto

lemma sort_values_all: "list_all rd xs \<Longrightarrow> sort_values rd lt xs = Ok (go_sort lt xs)"
  by (simp add: sort_values_def go_sort_short)

lemma sortKeys_good:
  assumes "good_keys ks" and "ks \<noteq> []"
  shows "sortKeys ks (kind_of (ks ! 0)) = Ok (go_sort (key_less (kind_of (ks ! 0))) ks, None)"
proof -
  let ?k = "kind_of (ks ! 0)"
  have all: "key_ok k \<and> kind_of k = ?k" if "k \<in> set ks" for k
    using assms(1) that by (auto simp: good_keys_def list_all_iff)
  then have head: "key_ok (ks ! 0)"
    using assms(2) by (simp add: nth_mem)
  have rd: "list_all (\<lambda>v. reflect_Int v \<noteq> None) ks" if "?k \<in> {KInt, KInt8, KInt16, KInt32, KInt64}"
    unfolding list_all_iff using all that by (metis key_readable(1))
  have rdf: "list_all (\<lambda>v. reflect_Float v \<noteq> None) ks" if "?k \<in> {KFloat32, KFloat64}"
    unfolding list_all_iff using all that by (metis key_readable(2))
  have rdb: "list_all (\<lambda>v. reflect_Bool v \<noteq> None) ks" if "?k = KBool"
    unfolding list_all_iff using all that by (metis key_readable(3))
  have rds: "list_all (\<lambda>_. True) ks"
    by (simp add: list_all_iff)
  show ?thesis
    using head rd rdf rdb
    by (cases "ks ! 0"; simp add: sortKeys_def key_less_def sort_values_all [OF rds]
        split: int_kind.splits float_kind.splits)
      (auto simp: sort_values_all)
qed

lemma MapIndex_entry:
  assumes "good_keys (map fst es)" and "(k, v) \<in> set es"
  shows "MapIndex es k = v"
proof -
  have "list_all key_ok (map fst es)" and "sorted_wrt (\<lambda>a b. \<not> go_eq a b) (map fst es)"
    using assms(1) by (simp_all add: good_keys_def)
  then show ?thesis
    using assms(2)
    by (induction es) (auto simp: go_eq_refl dest: bspec [of _ _ "(k, v)"] split: prod.splits)
qed

lemma mapToByteArray_good:
  assumes "good_keys (map fst es)"
  shows "mapToByteArray get es =
    concat_res (concat (map (\<lambda>k. [get k, get (MapIndex es k)])
      (go_sort (key_less (kind_of (map fst es ! 0))) (map fst es))))"
proof (cases "es = []")
  case False
  then show ?thesis
    using sortKeys_good [OF assms] by (simp add: mapToByteArray_def Let_def map_loop_concat)
qed (simp add: mapToByteArray_def)

lemma good_keys_perm:
  assumes "good_keys ks" and "mset ks = mset ks'"
  shows "good_keys ks'" and "kind_of (ks' ! 0) = kind_of (ks ! 0)"
proof -
  have sets: "set ks' = set ks" and len: "length ks' = length ks"
    using mset_eq_setD [OF assms(2)] mset_eq_length [OF assms(2)] by simp_all
  have all: "key_ok k \<and> kind_of k = kind_of (ks ! 0)" if "k \<in> set ks'" for k
    using assms(1) that sets by (auto simp: good_keys_def list_all_iff)
  show hd: "kind_of (ks' ! 0) = kind_of (ks ! 0)"
  proof (cases "ks' = []")
    case True
    with len show ?thesis by simp
  next
    case False
    then have "ks' ! 0 \<in> set ks'" by simp
    with all show ?thesis by blast
  qed
  have "sorted_wrt (\<lambda>a b. \<not> go_eq a b) ks'"
  proof -
    have "distinct ks"
      by (rule good_keys_distinct [OF assms(1)])
    then have dist: "distinct ks'"
      using assms(2) mset_eq_imp_distinct_iff by blast
    have neq: "\<not> go_eq a b" if "a \<in> set ks" "b \<in> set ks" "a \<noteq> b" for a b
      using good_keys_eq [OF assms(1)] that by blast
    show ?thesis
      unfolding sorted_wrt_iff_nth_less
      using dist neq by (simp add: nth_eq_iff_index_eq flip: sets)
  qed
  with all hd show "good_keys ks'"
    by (simp add: good_keys_def list_all_iff)
qed

text \<open>\<open>same_value v w\<close>: the same Go value, listed by \<open>MapKeys\<close> in another order at any depth.\<close>

inductive same_value :: "goval \<Rightarrow> goval \<Rightarrow> bool" where
  same_refl: "same_value v v"
| same_trans: "same_value u v \<Longrightarrow> same_value v w \<Longrightarrow> same_value u w"
| same_perm: "mset es = mset es' \<Longrightarrow> same_value (VMap es) (VMap es')"
| same_entry: "same_value v v' \<Longrightarrow> same_value (VMap (xs @ (k, v) # ys)) (VMap (xs @ (k, v') # ys))"
| same_array: "same_value v v' \<Longrightarrow> same_value (VArray (xs @ v # ys)) (VArray (xs @ v' # ys))"
| same_slice: "same_value v v' \<Longrightarrow> same_value (VSlice (xs @ v # ys)) (VSlice (xs @ v' # ys))"

text \<open>Every map inside the value has keys of a sortable type.\<close>

fun good_value :: "goval \<Rightarrow> bool" where
  "good_value (VMap es) \<longleftrightarrow> good_keys (map fst es) \<and> (\<forall>e\<in>set es. good_value (snd e))"
| "good_value (VArray vs) \<longleftrightarrow> (\<forall>v\<in>set vs. good_value v)"
| "good_value (VSlice vs) \<longleftrightarrow> (\<forall>v\<in>set vs. good_value v)"
| "good_value _ \<longleftrightarrow> True"

lemma same_value_good: "same_value v w \<Longrightarrow> good_value v \<Longrightarrow> good_value w"
proof (induction rule: same_value.induct)
  case (same_perm es es')
  then have "set es = set es'" and "mset (map fst es) = mset (map fst es')"
    by (metis set_mset_mset) (simp add: same_perm.hyps)
  with same_perm.prems show ?case
    using good_keys_perm(1) [of "map fst es" "map fst es'"] by simp
qed auto

lemma MapIndex_perm:
  assumes "good_keys (map fst es)" and "mset es = mset es'" and "k \<in> fst ` set es"
  shows "MapIndex es' k = MapIndex es k"
proof -
  from assms(3) obtain v where kv: "(k, v) \<in> set es" by auto
  with assms(2) have "(k, v) \<in> set es'" by (metis set_mset_mset)
  moreover have "good_keys (map fst es')"
    using good_keys_perm(1) [OF assms(1), of "map fst es'"] assms(2) by simp
  ultimately show ?thesis
    using MapIndex_entry assms(1) kv by metis
qed

lemma mapToByteArray_perm:
  assumes "good_keys (map fst es)" and "mset es = mset es'"
  shows "mapToByteArray get es = mapToByteArray get es'"
proof -
  have ms: "mset (map fst es) = mset (map fst es')"
    using assms(2) by simp
  have good: "good_keys (map fst es')" and kind: "kind_of (map fst es' ! 0) = kind_of (map fst es ! 0)"
    using good_keys_perm [OF assms(1) ms] by blast+
  have "go_sort (key_less (kind_of (map fst es ! 0))) (map fst es) =
      go_sort (key_less (kind_of (map fst es ! 0))) (map fst es')"
    using ms good_keys_order [OF assms(1) refl] by (rule go_sort.srt_order_independent)
  moreover have "map (\<lambda>k. [get k, get (MapIndex es k)]) (go_sort lt (map fst es')) =
      map (\<lambda>k. [get k, get (MapIndex es' k)]) (go_sort lt (map fst es'))" for lt
    using MapIndex_perm [OF assms] mset_eq_setD [OF assms(2)] by (auto simp: rev_image_eqI)
  ultimately show ?thesis
    by (simp only: mapToByteArray_good [OF assms(1)] mapToByteArray_good [OF good] kind)
qed

lemma MapIndex_replace:
  "getByteArray v = getByteArray v' \<Longrightarrow>
     getByteArray (MapIndex (xs @ (k, v) # ys) x) = getByteArray (MapIndex (xs @ (k, v') # ys) x)"
  by (induction xs) (auto split: prod.splits)

lemma same_value_bytes: "same_value v w \<Longrightarrow> good_value v \<Longrightarrow> getByteArray v = getByteArray w"
proof (induction rule: same_value.induct)
  case (same_trans u v w)
  then show ?case using same_value_good by simp
next
  case (same_perm es es')
  then show ?case by (simp add: mapToByteArray_perm)
next
  case (same_entry v v' xs k ys)
  then have "getByteArray v = getByteArray v'" by simp
  then have loop: "map_loop getByteArray (xs @ (k, v) # ys) ks acc =
      map_loop getByteArray (xs @ (k, v') # ys) ks acc" for ks acc
    by (simp add: map_loop_concat MapIndex_replace [of v v'] cong: map_cong)
  show ?case
    by (simp add: mapToByteArray_def loop)
next
  case (same_array v v' xs ys)
  then show ?case by (simp add: arrayToByteArray_concat concat_res_append)
next
  case (same_slice v v' xs ys)
  then show ?case by (simp add: arrayToByteArray_concat concat_res_append)
qed simp

section \<open>Hash functions\<close>

text \<open>
  The documented promise of every \<open>hash.Hash\<close>: \<open>Write\<close> never returns an error. Under it a hash
  fails only where the conversion of the parameters fails.
\<close>

definition hash_total :: "'s hasher \<Rightarrow> bool" where
  "hash_total h \<longleftrightarrow> (\<forall>st bs. \<exists>st'. hs_write h st bs = Inr st')"

definition digest :: "'s hasher \<Rightarrow> byte list \<Rightarrow> byte list" where
  "digest h bs = (case hs_write h (hs_new h) bs of Inl _ \<Rightarrow> [] | Inr st \<Rightarrow> hs_sum h st)"

locale hash_contract =
  fixes h :: "'s hasher"
  assumes total: "hash_total h"
begin

lemma generateHash_digest:
  "generateHash h ps = res_bind (GenerateByteArray ps) (\<lambda>bs. Ok (digest h bs))"
proof -
  have "(case hs_write h (hs_new h) bs of Inl err \<Rightarrow> Err (HashFailed err) | Inr st \<Rightarrow> Ok (hs_sum h st)) =
      Ok (digest h bs)" for bs
    using total unfolding hash_total_def digest_def by (metis sum.simps(6))
  then show ?thesis
    by (simp add: generateHash_def)
qed

lemma generateHash_errors: "generateHash h ps = Err e \<longleftrightarrow> GenerateByteArray ps = Err e"
  by (cases "GenerateByteArray ps") (auto simp: generateHash_digest)

end

text \<open>\<open>hash/crc32\<close> with the IEEE polynomial, the smallest of the hash functions.\<close>

fun crc32_bits :: "nat \<Rightarrow> 32 word \<Rightarrow> 32 word" where
  "crc32_bits 0 c = c"
| "crc32_bits (Suc n) c =
     crc32_bits n (if c AND 1 = 1 then drop_bit 1 c XOR 0xEDB88320 else drop_bit 1 c)"

definition crc32_update :: "32 word \<Rightarrow> byte \<Rightarrow> 32 word" where
  "crc32_update c b = crc32_bits 8 (c XOR ucast b)"

definition put_uint32 :: "32 word \<Rightarrow> byte list" where
  "put_uint32 w = map (\<lambda>i. ucast (drop_bit (8 * i) w)) [3, 2, 1, 0]"

definition crc32_hasher :: "32 word hasher" where
  "crc32_hasher =
     \<lparr>hs_new = 0xFFFFFFFF,
      hs_write = (\<lambda>c bs. Inr (foldl crc32_update c bs)),
      hs_sum = (\<lambda>c. put_uint32 (c XOR 0xFFFFFFFF))\<rparr>"

interpretation crc32: hash_contract crc32_hasher
  by unfold_locales (simp add: hash_total_def crc32_hasher_def)

definition crc32_lib :: "32 word hash_lib" where
  "crc32_lib =
     \<lparr>sha256_New = crc32_hasher, sha1_New = crc32_hasher, md5_New = crc32_hasher,
      crc32_NewIEEE = crc32_hasher\<rparr>"

lemma crc32_bits_numeral [simp]:
  "crc32_bits (numeral n) c =
     crc32_bits (pred_numeral n) (if c AND 1 = 1 then drop_bit 1 c XOR 0xEDB88320 else drop_bit 1 c)"
  by (simp add: numeral_eq_Suc)

lemma crc32_hello_world: "hex_encode (digest crc32_hasher (bytes_of_string ''hello world!'')) = ''03b4c26d''"
  by (simp add: bytes_of_string_def byte_of_char_def digest_def crc32_hasher_def crc32_update_def
      put_uint32_def hex_digit_def)

section \<open>Conversions that succeed\<close>

text \<open>
  The values that Go can build: the keys of a map have one kind and no two of them are equal; the kinds that have a
  constructor of their own are not \<open>VOther\<close>.
\<close>

function well_typed :: "goval \<Rightarrow> bool" where
  "well_typed (VMap es) \<longleftrightarrow>
     list_all (\<lambda>k. kind_of k = kind_of (map fst es ! 0)) (map fst es) \<and>
     sorted_wrt (\<lambda>a b. \<not> go_eq a b \<and> \<not> go_eq b a) (map fst es) \<and>
     (\<forall>e\<in>set es. well_typed (fst e) \<and> well_typed (snd e))"
| "well_typed (VArray vs) \<longleftrightarrow> (\<forall>v\<in>set vs. well_typed v)"
| "well_typed (VSlice vs) \<longleftrightarrow> (\<forall>v\<in>set vs. well_typed v)"
| "well_typed (VIface v) \<longleftrightarrow> well_typed v"
| "well_typed (VOther k) \<longleftrightarrow>
     k \<in> {KInvalid, KUintptr, KComplex64, KComplex128, KChan, KFunc, KInterface, KPtr, KStruct, KUnsafePointer}"
| "well_typed (VBool b) \<longleftrightarrow> True"
| "well_typed (VInt ik i) \<longleftrightarrow> True"
| "well_typed (VUint uk i) \<longleftrightarrow> True"
| "well_typed (VFloat fk f) \<longleftrightarrow> True"
| "well_typed (VString t) \<longleftrightarrow> True"
  by pat_completeness auto
termination
  by (relation "measure size") (auto simp: size_list_estimation' less_Suc_eq_le dest: size_entry)

fun is_uint :: "goval \<Rightarrow> bool" where
  "is_uint (VUint _ _) \<longleftrightarrow> True"
| "is_uint _ \<longleftrightarrow> False"

text \<open>
  Which of them are converted. A map with more than one entry must not have unsigned keys, and a key must be equal
  to itself, that is, contain no NaN, for \<open>MapIndex\<close> to find its entry.
\<close>

function converts :: "goval \<Rightarrow> bool" where
  "converts (VMap es) \<longleftrightarrow>
     (2 \<le> length es \<longrightarrow> (\<forall>e\<in>set es. \<not> is_uint (fst e))) \<and>
     (\<forall>e\<in>set es. go_eq (fst e) (fst e) \<and> converts (fst e) \<and> converts (snd e))"
| "converts (VArray vs) \<longleftrightarrow> (\<forall>v\<in>set vs. converts v)"
| "converts (VSlice vs) \<longleftrightarrow> (\<forall>v\<in>set vs. converts v)"
| "converts (VIface v) \<longleftrightarrow> False"
| "converts (VOther k) \<longleftrightarrow> False"
| "converts (VBool b) \<longleftrightarrow> True"
| "converts (VInt ik i) \<longleftrightarrow> True"
| "converts (VUint uk i) \<longleftrightarrow> True"
| "converts (VFloat fk f) \<longleftrightarrow> True"
| "converts (VString t) \<longleftrightarrow> True"
  by pat_completeness auto
termination
  by (relation "measure size") (auto simp: size_list_estimation' less_Suc_eq_le dest: size_entry)

lemma concat_res_Ok_iff: "(\<exists>b. concat_res rs = Ok b) \<longleftrightarrow> (\<forall>r\<in>set rs. \<exists>b. r = Ok b)"
  by (induction rs) (fastforce simp: res_bind_Ok_iff)+

lemma sortKeys_typed:
  assumes "ks \<noteq> []" and "\<forall>k\<in>set ks. kind_of k = kind_of (ks ! 0) \<and> well_typed k"
  shows "(\<exists>ks' e. sortKeys ks (kind_of (ks ! 0)) = Ok (ks', e)) \<longleftrightarrow> \<not> (2 \<le> length ks \<and> is_uint (ks ! 0))"
proof -
  have hd: "ks ! 0 \<in> set ks" using assms(1) by simp
  have rd: "list_all (\<lambda>v. reflect_Int v \<noteq> None) ks" if "ks ! 0 = VInt ik i" for ik i
    unfolding list_all_iff
  proof
    fix k assume "k \<in> set ks"
    with assms(2) that show "reflect_Int k \<noteq> None"
      by (cases k) (fastforce split: int_kind.splits uint_kind.splits float_kind.splits)+
  qed
  have rdf: "list_all (\<lambda>v. reflect_Float v \<noteq> None) ks" if "ks ! 0 = VFloat fk f" for fk f
    unfolding list_all_iff
  proof
    fix k assume "k \<in> set ks"
    with assms(2) that show "reflect_Float k \<noteq> None"
      by (cases k) (fastforce split: int_kind.splits uint_kind.splits float_kind.splits)+
  qed
  have rdb: "list_all (\<lambda>v. reflect_Bool v \<noteq> None) ks" if "ks ! 0 = VBool b" for b
    unfolding list_all_iff
  proof
    fix k assume "k \<in> set ks"
    with assms(2) that show "reflect_Bool k \<noteq> None"
      by (cases k) (fastforce split: int_kind.splits uint_kind.splits float_kind.splits)+
  qed
  have ru: "\<not> list_all (\<lambda>v. reflect_Int v \<noteq> None) ks" if "ks ! 0 = VUint uk i" for uk i
    using hd that by (auto simp: list_all_iff intro!: bexI [of _ "VUint uk i"])
  have other: "well_typed (VOther k)" if "ks ! 0 = VOther k" for k
    using assms(2) hd that by metis
  show ?thesis
    using rd rdf rdb ru other
    by (cases "ks ! 0") (auto simp: sortKeys_def sort_values_def list_all_iff not_less
        split: int_kind.splits uint_kind.splits float_kind.splits)
qed

lemma f64_eq_self: "f64_eq a b \<Longrightarrow> f64_eq b b"
  by (auto simp: f64_eq_def)

lemma go_eq_self: "go_eq a b \<Longrightarrow> go_eq b b" "go_eqs as bs \<Longrightarrow> go_eqs bs bs"
  by (induction a b and as bs rule: go_eq_go_eqs.induct) (auto dest: f64_eq_self)

lemma MapIndex_self:
  "sorted_wrt (\<lambda>a b. \<not> go_eq a b \<and> \<not> go_eq b a) (map fst es) \<Longrightarrow> (k, v) \<in> set es \<Longrightarrow>
     MapIndex es k = (if go_eq k k then v else VOther KInvalid)"
proof (induction es)
  case (Cons e es)
  obtain k' v' where e: "e = (k', v')" by fastforce
  show ?case
  proof (cases "(k, v) = e")
    case True
    have "MapIndex es k = VOther KInvalid" if "\<not> go_eq k k"
      using that go_eq_self(1) by (induction es) auto
    with True show ?thesis by auto
  next
    case False
    with Cons e have "(k, v) \<in> set es" and "\<not> go_eq k' k" by force+
    with Cons e show ?thesis by simp
  qed
qed simp

lemma is_uint_kind: "well_typed k \<Longrightarrow> is_uint k \<longleftrightarrow> kind_of k \<in> {KUint, KUint8, KUint16, KUint32, KUint64}"
  by (cases k) (auto split: int_kind.splits uint_kind.splits float_kind.splits)

lemma mapToByteArray_Ok_iff:
  assumes "es \<noteq> []" and "well_typed (VMap es)"
  shows "(\<exists>b. mapToByteArray get es = Ok b) \<longleftrightarrow> (2 \<le> length es \<longrightarrow> (\<forall>e\<in>set es. \<not> is_uint (fst e))) \<and>
    (\<forall>e\<in>set es. \<exists>b. get (fst e) = Ok b) \<and> (\<forall>e\<in>set es. \<exists>b. get (MapIndex es (fst e)) = Ok b)"
proof -
  let ?ks = "map fst es"
  have "list_all (\<lambda>k. kind_of k = kind_of (?ks ! 0)) ?ks" "\<forall>e\<in>set es. well_typed (fst e)"
    using assms(2) unfolding well_typed.simps by blast+
  then have typed: "\<forall>k\<in>set ?ks. kind_of k = kind_of (?ks ! 0) \<and> well_typed k"
    unfolding list_all_iff set_map by blast
  have "?ks \<noteq> []" using assms(1) by simp
  note sorts = sortKeys_typed [OF this typed]
  have "?ks ! 0 \<in> set ?ks" using assms(1) by simp
  then have uint: "is_uint (?ks ! 0) \<longleftrightarrow> \<not> (\<forall>e\<in>set es. \<not> is_uint (fst e))"
  proof -
    have "is_uint k \<longleftrightarrow> is_uint (?ks ! 0)" if "k \<in> set ?ks" for k
      using typed that \<open>?ks ! 0 \<in> set ?ks\<close> is_uint_kind [of k] is_uint_kind [of "?ks ! 0"] by metis
    with \<open>?ks ! 0 \<in> set ?ks\<close> show ?thesis unfolding set_map by blast
  qed
  have loop: "(\<exists>b. map_loop get es ks' [] = Ok b) \<longleftrightarrow>
      (\<forall>e\<in>set es. \<exists>b. get (fst e) = Ok b) \<and> (\<forall>e\<in>set es. \<exists>b. get (MapIndex es (fst e)) = Ok b)"
    if "sortKeys ?ks (kind_of (?ks ! 0)) = Ok (ks', e)" for ks' e
    using sortKeys_set [OF that] by (simp add: map_loop_concat concat_res_Ok_iff) blast
  show ?thesis
  proof (cases "sortKeys ?ks (kind_of (?ks ! 0))")
    case (Ok x)
    obtain ks' e where "x = (ks', e)" by fastforce
    with Ok loop [of ks' e] sorts uint assms(1) show ?thesis
      by (auto simp: mapToByteArray_def Let_def)
  qed (use sorts uint assms(1) in \<open>auto simp: mapToByteArray_def Let_def\<close>)
qed

lemma getByteArray_converts: "well_typed v \<Longrightarrow> (\<exists>b. getByteArray v = Ok b) \<longleftrightarrow> converts v"
proof (induction v rule: converts.induct)
  case (1 es)
  show ?case
  proof (cases "es = []")
    case False
    have keys: "(\<exists>b. getByteArray (fst e) = Ok b) \<longleftrightarrow> converts (fst e)"
      and vals: "(\<exists>b. getByteArray (MapIndex es (fst e)) = Ok b) \<longleftrightarrow> go_eq (fst e) (fst e) \<and> converts (snd e)"
      if "e \<in> set es" for e
      using "1.IH" [OF that] "1.prems" that MapIndex_self [of es "fst e" "snd e"] by auto
    show ?thesis
      using mapToByteArray_Ok_iff [OF False "1.prems"] keys vals by (simp add: ball_conj_distrib) blast
  qed (simp add: mapToByteArray_def)
qed (auto simp: arrayToByteArray_concat concat_res_Ok_iff)

lemma concat_res_words:
  "concat_res (map (\<lambda>w. Ok (put_uint64 w)) ws) = Ok (concat (map put_uint64 ws))"
  using concat_res_Ok [of "map put_uint64 ws"] by (simp add: comp_def)

text \<open>The decoder of a sequence of 8-byte words.\<close>

fun decode_uint64s :: "nat \<Rightarrow> byte list \<Rightarrow> 64 word list" where
  "decode_uint64s 0 bs = []"
| "decode_uint64s (Suc n) bs = get_uint64 (take 8 bs) # decode_uint64s n (drop 8 bs)"

lemma decode_uint64s_concat: "decode_uint64s (length ws) (concat (map put_uint64 ws)) = ws"
  by (induction ws) simp_all

section \<open>Properties\<close>

text \<open>
  C9: the bytes of a value, and so every hash computed from them, do not depend on the order in
  which Go happens to iterate over the maps inside it, at any depth, as long as the keys of these
  maps are strings, signed integers, floats other than NaN or booleans.
\<close>

theorem getByteArray_order_independent:
  assumes "same_value v w" and "good_value v"
  shows "getByteArray v = getByteArray w"
  using assms by (rule same_value_bytes)

theorem getByteArray_order_independent_witness:
  "getByteArray (VMap [(VString ''z'', VBool True), (VString ''a'', VBool False)]) =
   getByteArray (VMap [(VString ''a'', VBool False), (VString ''z'', VBool True)])"
proof (rule getByteArray_order_independent)
  show "same_value (VMap [(VString ''z'', VBool True), (VString ''a'', VBool False)])
      (VMap [(VString ''a'', VBool False), (VString ''z'', VBool True)])"
    by (rule same_perm) simp
  show "good_value (VMap [(VString ''z'', VBool True), (VString ''a'', VBool False)])"
    by (simp add: good_keys_def)
qed

text \<open>
  C14: exactly which parameters are converted. Strings, booleans, signed and unsigned integers and floats always are;
  a slice or an array is, just when its elements are; a map is, just when its keys and its values are, no
  key contains a NaN, and the keys are not unsigned integers if there are two entries or more. A value of any
  other kind, interfaces included, at any depth, makes the whole call fail.
\<close>

theorem GenerateByteArray_converts_iff:
  assumes "\<forall>p\<in>set ps. well_typed p"
  shows "(\<exists>bytes. GenerateByteArray ps = Ok bytes) \<longleftrightarrow> (\<forall>p\<in>set ps. converts p)"
  using assms getByteArray_converts by (auto simp: GenerateByteArray_concat concat_res_Ok_iff)

theorem GenerateByteArray_converts_iff_witness:
  "(\<exists>bytes. GenerateByteArray [VString ''metric'', VMap [(VInt SInt 3000, VBool True), (VInt SInt 5, VBool False)],
       VMap [(VUint SUint8 1, VBool True)]] = Ok bytes) \<and>
   (\<nexists>bytes. GenerateByteArray [VString ''metric'', VMap [(VUint SUint8 1, VBool True), (VUint SUint8 2, VBool False)]] = Ok bytes)"
  using GenerateByteArray_converts_iff [of "[VString ''metric'', VMap [(VInt SInt 3000, VBool True), (VInt SInt 5, VBool False)],
      VMap [(VUint SUint8 1, VBool True)]]"]
    GenerateByteArray_converts_iff [of "[VString ''metric'', VMap [(VUint SUint8 1, VBool True), (VUint SUint8 2, VBool False)]]"]
  by simp

text \<open>
  Integer parameters are encoded in eight big-endian bytes each, and the parameters can be read
  back from the bytes; in particular different lists of integers of one length never collide.
\<close>

theorem GenerateByteArray_int64_roundtrip:
  "\<exists>bytes. GenerateByteArray (map (VInt kd) ws) = Ok bytes \<and> length bytes = 8 * length ws \<and>
     decode_uint64s (length ws) bytes = ws"
proof (intro exI conjI)
  show "GenerateByteArray (map (VInt kd) ws) = Ok (concat (map put_uint64 ws))"
    by (simp add: GenerateByteArray_concat int64ToByteArray_def comp_def concat_res_words)
  show "length (concat (map put_uint64 ws)) = 8 * length ws"
    by (simp add: length_concat comp_def sum_list_triv mult.commute)
  show "decode_uint64s (length ws) (concat (map put_uint64 ws)) = ws"
    by (rule decode_uint64s_concat)
qed

text \<open>
  String parameters are concatenated without a separator or a length, so only the concatenation
  of the strings reaches the hash: \<open>("a", "bc")\<close> and \<open>("ab", "c")\<close> give the same bytes.
\<close>

theorem GenerateByteArray_strings:
  "GenerateByteArray (map VString ss) = Ok (bytes_of_string (concat ss))"
proof -
  have "getByteArray (VString s) = Ok (bytes_of_string s)" for s
    by (simp add: stringToByteArray_def)
  then have "map getByteArray (map VString ss) = map Ok (map bytes_of_string ss)"
    by simp
  then show ?thesis
    by (simp only: GenerateByteArray_concat concat_res_Ok) (induction ss; simp)
qed

text \<open>
  A map with unsigned integer keys and at least two entries makes the conversion panic, because
  \<open>sortKeys\<close> reads unsigned keys with \<open>Value.Int\<close>.
\<close>

theorem getByteArray_uint_keys_panic:
  assumes "2 \<le> length es" and "\<forall>k\<in>fst ` set es. \<exists>kd w. k = VUint kd w"
  shows "getByteArray (VMap es) = Panic"
proof -
  obtain k v es' where es: "es = (k, v) # es'"
    using assms(1) by (cases es) auto
  with assms(2) obtain kd w where k: "k = VUint kd w" by auto
  have "\<not> list_all (\<lambda>v. reflect_Int v \<noteq> None) (map fst es)"
    using es k by simp
  then have "sort_values (\<lambda>v. reflect_Int v \<noteq> None) byInt_Less (map fst es) = Panic"
    using assms(1) by (simp add: sort_values_def)
  then show ?thesis
    using es k assms(1) by (cases kd) (simp_all add: mapToByteArray_def sortKeys_def)
qed

theorem getByteArray_uint_keys_panic_witness:
  "getByteArray (VMap [(VUint SUint 1, VBool True), (VUint SUint 2, VBool False)]) = Panic"
  by (rule getByteArray_uint_keys_panic) auto

text \<open>
  A map with array keys is converted although \<open>sortKeys\<close> cannot sort its keys (the error it
  returns is dropped), and the bytes then depend on the iteration order of the map.
\<close>

theorem getByteArray_array_keys_unordered:
  "\<exists>es es' bs bs'. mset es = mset es' \<and> distinct (map fst es) \<and>
     getByteArray (VMap es) = Ok bs \<and> getByteArray (VMap es') = Ok bs' \<and> bs \<noteq> bs'"
proof (intro exI conjI)
  let ?a = "(VArray [VBool True], VString ''x'')" and ?b = "(VArray [VBool False], VString ''y'')"
  show "mset [?a, ?b] = mset [?b, ?a]" and "distinct (map fst [?a, ?b])"
    by simp_all
  show "getByteArray (VMap [?a, ?b]) = Ok ([1] @ bytes_of_string ''x'' @ [0] @ bytes_of_string ''y'')"
    and "getByteArray (VMap [?b, ?a]) = Ok ([0] @ bytes_of_string ''y'' @ [1] @ bytes_of_string ''x'')"
    by (simp_all add: mapToByteArray_def sortKeys_def arrayToByteArray_concat boolToByteArray_def
        stringToByteArray_def)
  show "[1] @ bytes_of_string ''x'' @ [0] @ bytes_of_string ''y'' \<noteq>
      [0] @ bytes_of_string ''y'' @ [1] @ bytes_of_string ''x''"
    by simp
qed

end
