(* ===== verification/Go_Channel.thy ===== *)
theory Go_Channel
  imports Gobol_Prelude
begin

text \<open>
  Go's buffered channels, as the library uses them: \<open>timeline\<close> for the points and for the
  termination signal, \<open>election\<close> for the feedback channel, \<open>tester/httpserver\<close> for the recorded
  requests.

  A send to a full channel blocks and a send to a closed channel panics. A receive takes the
  oldest element; on an empty channel it blocks, or, if the channel is closed, returns at once with
  \<open>ok = false\<close>. Closing a closed channel panics. \<open>chan_send_opt\<close> forgets the difference between
  blocking and panicking where a caller does not need it.
\<close>

record 'a chan =
  ch_buf :: "'a list"
  ch_cap :: nat
  ch_closed :: bool

datatype 'a send_res = Sent "'a chan" | SendBlocks | SendPanics

datatype 'a recv_res = Received 'a "'a chan" | RecvBlocks | RecvClosed

definition chan_make :: "nat \<Rightarrow> 'a chan" where
  "chan_make n = \<lparr>ch_buf = [], ch_cap = n, ch_closed = False\<rparr>"

definition chan_send :: "'a \<Rightarrow> 'a chan \<Rightarrow> 'a send_res" where
  "chan_send x c =
     (if ch_closed c then SendPanics
      else if length (ch_buf c) < ch_cap c then Sent (c\<lparr>ch_buf := ch_buf c @ [x]\<rparr>)
      else SendBlocks)"

definition chan_recv :: "'a chan \<Rightarrow> 'a recv_res" where
  "chan_recv c =
     (case ch_buf c of
        x # xs \<Rightarrow> Received x (c\<lparr>ch_buf := xs\<rparr>)
      | [] \<Rightarrow> if ch_closed c then RecvClosed else RecvBlocks)"

definition chan_close :: "'a chan \<Rightarrow> 'a chan option" where
  "chan_close c = (if ch_closed c then None else Some (c\<lparr>ch_closed := True\<rparr>))"

definition chan_invar :: "'a chan \<Rightarrow> bool" where
  "chan_invar c \<longleftrightarrow> length (ch_buf c) \<le> ch_cap c"

section \<open>The contract of a channel\<close>

locale channel_ops =
  fixes make :: "nat \<Rightarrow> 'c"
    and send :: "'a \<Rightarrow> 'c \<Rightarrow> 'c option"
    and recv :: "'c \<Rightarrow> ('a \<times> 'c) option"
    and contents :: "'c \<Rightarrow> 'a list"
    and room :: "'c \<Rightarrow> nat"
  assumes contents_make: "contents (make n) = []"
    and room_make: "room (make n) = n"
    and send_ok: "0 < room c \<Longrightarrow> \<exists>c'. send x c = Some c' \<and> contents c' = contents c @ [x] \<and> Suc (room c') = room c"
    and send_full: "room c = 0 \<Longrightarrow> send x c = None"
    and recv_empty: "contents c = [] \<Longrightarrow> recv c = None"
    and recv_ok: "contents c = x # xs \<Longrightarrow> \<exists>c'. recv c = Some (x, c') \<and> contents c' = xs"
begin

fun send_all :: "'a list \<Rightarrow> 'c \<Rightarrow> 'c option" where
  "send_all [] c = Some c"
| "send_all (x # xs) c = Option.bind (send x c) (send_all xs)"

lemma send_all_fits:
  "length xs \<le> room c \<Longrightarrow> \<exists>c'. send_all xs c = Some c' \<and> contents c' = contents c @ xs"
proof (induction xs arbitrary: c)
  case (Cons x xs)
  then have "0 < room c" by auto
  then obtain c' where "send x c = Some c'" "contents c' = contents c @ [x]" "Suc (room c') = room c"
    using send_ok by blast
  with Cons.IH [of c'] Cons.prems show ?case by auto
qed simp

lemma send_all_overflow: "room c < length xs \<Longrightarrow> send_all xs c = None"
proof (induction xs arbitrary: c)
  case (Cons x xs)
  show ?case
  proof (cases "room c = 0")
    case True
    then show ?thesis by (simp add: send_full)
  next
    case False
    then obtain c' where c': "send x c = Some c'" "Suc (room c') = room c"
      using send_ok by blast
    with Cons.prems have "room c' < length xs" by simp
    with c'(1) Cons.IH show ?thesis by simp
  qed
qed simp

text \<open>A channel made for \<open>n\<close> elements takes \<open>n\<close> of them, in order, and no more.\<close>

lemma fresh_send_all:
  "length xs \<le> n \<Longrightarrow> \<exists>c. send_all xs (make n) = Some c \<and> contents c = xs"
  using send_all_fits [of xs "make n"] by (simp add: contents_make room_make)

end

definition chan_send_opt :: "'a \<Rightarrow> 'a chan \<Rightarrow> 'a chan option" where
  "chan_send_opt x c = (case chan_send x c of Sent c' \<Rightarrow> Some c' | _ \<Rightarrow> None)"

definition chan_recv_opt :: "'a chan \<Rightarrow> ('a \<times> 'a chan) option" where
  "chan_recv_opt c = (case chan_recv c of Received x c' \<Rightarrow> Some (x, c') | _ \<Rightarrow> None)"

definition chan_room :: "'a chan \<Rightarrow> nat" where
  "chan_room c = (if ch_closed c then 0 else ch_cap c - length (ch_buf c))"

interpretation go_chan: channel_ops chan_make chan_send_opt chan_recv_opt ch_buf chan_room
  by unfold_locales
    (auto simp: chan_make_def chan_send_opt_def chan_send_def chan_recv_opt_def chan_recv_def
      chan_room_def split: if_splits)

section \<open>Steps of a channel\<close>

lemma chan_send_cases:
  obtains (sent) "\<not> ch_closed c" "length (ch_buf c) < ch_cap c"
      "chan_send x c = Sent (c\<lparr>ch_buf := ch_buf c @ [x]\<rparr>)"
  | (blocks) "\<not> ch_closed c" "ch_cap c \<le> length (ch_buf c)" "chan_send x c = SendBlocks"
  | (panics) "ch_closed c" "chan_send x c = SendPanics"
  by (metis chan_send_def not_le)

lemma chan_send_Sent_iff:
  "chan_send x c = Sent c' \<longleftrightarrow>
     \<not> ch_closed c \<and> length (ch_buf c) < ch_cap c \<and> c' = c\<lparr>ch_buf := ch_buf c @ [x]\<rparr>"
  by (auto simp: chan_send_def)

lemma chan_invar_make [simp]: "chan_invar (chan_make n)"
  by (simp add: chan_invar_def chan_make_def)

lemma chan_invar_send: "chan_invar c \<Longrightarrow> chan_send x c = Sent c' \<Longrightarrow> chan_invar c'"
  by (auto simp: chan_invar_def chan_send_Sent_iff)

lemma chan_invar_recv: "chan_invar c \<Longrightarrow> chan_recv c = Received x c' \<Longrightarrow> chan_invar c'"
  by (auto simp: chan_invar_def chan_recv_def split: list.splits if_splits)

lemma chan_invar_close: "chan_invar c \<Longrightarrow> chan_close c = Some c' \<Longrightarrow> chan_invar c'"
  by (auto simp: chan_invar_def chan_close_def split: if_splits)

lemmas chan_invars = chan_invar_send chan_invar_recv chan_invar_close

end
