(* ===== verification/Transport.thy ===== *)
theory Transport
  imports Hashing Go_Channel
begin

text \<open>
  \<open>timeline/transport.go\<close> and the data that the parts of the \<open>timeline\<close> package exchange.

  A value of type \<open>interface{}\<close> that travels through a data channel is a \<open>channel_item\<close>: one of the
  two serializers' \<open>ArrayItem\<close> structs, a pointer to one, or something else. The transport core is
  the point channel, the loop that empties it, and the batches the loop hands to
  \<open>TransferData\<close> (field \<open>co_batches\<close>, kept for the statements: the program stores it nowhere).
  \<open>TransferData\<close> is a parameter here, over an arbitrary state \<open>'w\<close> of the outside world; the two
  implementations have their own theories. \<open>transferDataLoop\<close> is a pass that nobody disturbs; \<open>core_step\<close> is
  the loop receive by receive, with the sends of other goroutines between.
\<close>

section \<open>Data\<close>

text \<open>\<open>FlatOperation\<close> is a \<open>uint8\<close>.\<close>

type_synonym flat_operation = "8 word"

definition Avg_op :: flat_operation where "Avg_op = 0"
definition Sum_op :: flat_operation where "Sum_op = 1"
definition Count_op :: flat_operation where "Count_op = 2"
definition Max_op :: flat_operation where "Max_op = 3"
definition Min_op :: flat_operation where "Min_op = 4"

lemmas flat_op_defs = Avg_op_def Sum_op_def Count_op_def Max_op_def Min_op_def

text \<open>\<open>ArrayItem\<close> of the json serializer and of the OpenTSDB serializer.\<close>

record json_item =
  Name :: string
  Parameters :: "goval list"

record tsdb_item =
  Metric :: string
  Tags :: "goval list"
  Timestamp :: "64 word"
  Value :: float64

datatype channel_item =
    JsonItem json_item
  | JsonItemPtr json_item
  | TsdbItem tsdb_item
  | TsdbItemPtr tsdb_item
  | OtherItem goval

record flattenerPointData =
  operation :: flat_operation
  timestamp :: "64 word"
  dataChannelItem :: channel_item

record FlattenerPoint =
  point_data :: flattenerPointData
  hashParameters :: "goval list"
  point_value :: float64

record Backend =
  Host :: string
  Port :: int

datatype timeline_error =
    InvalidBufferSize int
  | InvalidSerializerBufferSize int
  | InvalidBatchSendInterval int
  | InvalidRequestTimeout int
  | InvalidMaxReadTimeout int
  | InvalidReconnectionTimeout int
  | NullConfiguration
  | TimestampPropertyNotConfigured
  | ValuePropertyNotConfigured
  | NoBackend
  | TransportRequired
  | FlattenerRequired
  | NotHTTP
  | NotOpenTSDB
  | CastingData
  | CastingInstance
  | CastingPointItem
  | ExpectingPropertyName
  | ExpectingFloat64
  | ExpectingInt64
  | OperationNotMapped flat_operation
  | ErrorBody string
  | ReadingBody string
  | LibraryError string
  | HashingError hash_error

section \<open>Configuration\<close>

text \<open>Durations are numbers of nanoseconds; \<open>d.Seconds() <= 0\<close> holds just when \<open>d <= 0\<close>.\<close>

record DefaultTransportConfiguration =
  TransportBufferSize :: int
  BatchSendInterval :: int
  RequestTimeout :: int
  SerializerBufferSize :: int

definition Validate :: "'a DefaultTransportConfiguration_scheme \<Rightarrow> timeline_error option" where
  "Validate c =
     (if TransportBufferSize c \<le> 0 then Some (InvalidBufferSize (TransportBufferSize c))
      else if SerializerBufferSize c \<le> 0 then Some (InvalidSerializerBufferSize (SerializerBufferSize c))
      else if BatchSendInterval c \<le> 0 then Some (InvalidBatchSendInterval (BatchSendInterval c))
      else if RequestTimeout c \<le> 0 then Some (InvalidRequestTimeout (RequestTimeout c))
      else None)"

text \<open>
  The constants of \<open>transportType\<close>. \<open>typeOpenTSDB\<close> has no expression of its own and the block does
  not use \<open>iota\<close>, so it repeats the expression of \<open>typeHTTP\<close>.
\<close>

type_synonym transportType = "8 word"

definition typeHTTP :: transportType where "typeHTTP = 0"
definition typeOpenTSDB :: transportType where "typeOpenTSDB = 0"

section \<open>The transfer loop\<close>

text \<open>\<open>TransferData\<close>: \<open>None\<close> when the call never returns, else the new world and the error, if any.\<close>

type_synonym 'w transfer = "'w \<Rightarrow> channel_item list \<Rightarrow> ('w \<times> timeline_error option) option"

record 'w core =
  co_chan :: "channel_item chan"
  co_running :: bool
  co_batches :: "channel_item list list"
  co_world :: 'w

definition new_core :: "nat \<Rightarrow> 'w \<Rightarrow> 'w core" where
  "new_core n w = \<lparr>co_chan = chan_make n, co_running = False, co_batches = [], co_world = w\<rparr>"

text \<open>\<open>Start\<close> launches the loop; \<open>Close\<close> closes the channel, and panics if it is closed already.\<close>

definition core_Start :: "'w core \<Rightarrow> 'w core" where
  "core_Start t = t\<lparr>co_running := True\<rparr>"

definition core_Close :: "'w core \<Rightarrow> (timeline_error, 'w core) res" where
  "core_Close t =
     (case chan_close (co_chan t) of None \<Rightarrow> Panic | Some c \<Rightarrow> Ok (t\<lparr>co_chan := c\<rparr>))"

text \<open>
  The labelled inner loop: receive without blocking until the channel is empty (\<open>False\<close>) or is
  found closed (\<open>True\<close>).
\<close>

function innerLoop :: "'a chan \<Rightarrow> 'a list \<Rightarrow> 'a list \<times> bool \<times> 'a chan" where
  "innerLoop c points =
     (case chan_recv c of
        Received point c' \<Rightarrow> innerLoop c' (points @ [point])
      | RecvClosed \<Rightarrow> (points, True, c)
      | RecvBlocks \<Rightarrow> (points, False, c))"
  by pat_completeness auto
termination
  by (relation "measure (\<lambda>(c, _). length (ch_buf c))")
    (auto simp: chan_recv_def split: list.splits if_splits)

declare innerLoop.simps [simp del]

text \<open>
  One pass of the outer loop, after the batch interval has elapsed. A closed channel ends the
  loop; the error that \<open>TransferData\<close> returns is only logged. \<open>None\<close>: \<open>TransferData\<close> does not return.
\<close>

definition transferDataLoop ::
  "'w transfer \<Rightarrow> 'w core \<Rightarrow> 'w core option" where
  "transferDataLoop TransferData t =
     (case innerLoop (co_chan t) [] of
        (points, closed, c) \<Rightarrow>
          (let t = t\<lparr>co_chan := c\<rparr> in
           if closed then Some (t\<lparr>co_running := False\<rparr>)
           else if length points = 0 then Some t
           else
             (case TransferData (co_world t) points of
                None \<Rightarrow> None
              | Some (w, err) \<Rightarrow> Some (t\<lparr>co_batches := co_batches t @ [points], co_world := w\<rparr>))))"

section \<open>Runs of a transport\<close>

text \<open>
  The loop beside the goroutines that send to the channel: where the loop is, with the points it has received in
  this pass. One event is one operation on the channel, or one call of \<open>TransferData\<close>: another goroutine
  sends an item, the batch interval ends, the loop executes its \<open>select\<close> once, it transfers the points, the
  owner closes the transport. \<open>None\<close>: the event cannot complete in this state (the sender is blocked or panics,
  the loop is not there, its transfer never returns, the channel is closed twice).
\<close>

datatype loop_pc = Waiting | Draining "channel_item list" | Transferring "channel_item list"

datatype core_event = Send channel_item | Tick | Receive | Transfer | CloseCore

fun core_step :: "'w transfer \<Rightarrow> 'w core \<times> loop_pc \<Rightarrow> core_event \<Rightarrow> ('w core \<times> loop_pc) option" where
  "core_step tr (t, pc) (Send x) =
     (case chan_send x (co_chan t) of Sent c \<Rightarrow> Some (t\<lparr>co_chan := c\<rparr>, pc) | _ \<Rightarrow> None)"
| "core_step tr (t, Waiting) Tick = (if co_running t then Some (t, Draining []) else None)"
| "core_step tr (t, Draining points) Receive =
     (case chan_recv (co_chan t) of
        Received point c \<Rightarrow> Some (t\<lparr>co_chan := c\<rparr>, Draining (points @ [point]))
      | RecvClosed \<Rightarrow> Some (t\<lparr>co_running := False\<rparr>, Waiting)
      | RecvBlocks \<Rightarrow> Some (t, if length points = 0 then Waiting else Transferring points))"
| "core_step tr (t, Transferring points) Transfer =
     (case tr (co_world t) points of
        None \<Rightarrow> None
      | Some (w, err) \<Rightarrow> Some (t\<lparr>co_batches := co_batches t @ [points], co_world := w\<rparr>, Waiting))"
| "core_step tr (t, pc) CloseCore = (case core_Close t of Ok t' \<Rightarrow> Some (t', pc) | _ \<Rightarrow> None)"
| "core_step tr s _ = None"

fun core_run :: "'w transfer \<Rightarrow> 'w core \<times> loop_pc \<Rightarrow> core_event list \<Rightarrow> ('w core \<times> loop_pc) option" where
  "core_run tr s [] = Some s"
| "core_run tr s (e # es) = Option.bind (core_step tr s e) (\<lambda>s'. core_run tr s' es)"

fun sent_items :: "core_event list \<Rightarrow> channel_item list" where
  "sent_items [] = []"
| "sent_items (Send x # es) = x # sent_items es"
| "sent_items (_ # es) = sent_items es"

text \<open>The points that the loop has in hand.\<close>

fun loop_points :: "loop_pc \<Rightarrow> channel_item list" where
  "loop_points Waiting = []"
| "loop_points (Draining points) = points"
| "loop_points (Transferring points) = points"

lemma core_run_append:
  "core_run tr s (es @ fs) = Option.bind (core_run tr s es) (\<lambda>s'. core_run tr s' fs)"
  by (induction es arbitrary: s) simp_all

lemma core_stepE:
  assumes "core_step tr (t, pc) e = Some (t', pc')"
  obtains (send) x c where "e = Send x" "chan_send x (co_chan t) = Sent c" "t' = t\<lparr>co_chan := c\<rparr>" "pc' = pc"
    | (tick) "e = Tick" "pc = Waiting" "co_running t" "t' = t" "pc' = Draining []"
    | (received) ps x c where "e = Receive" "pc = Draining ps" "chan_recv (co_chan t) = Received x c" "t' = t\<lparr>co_chan := c\<rparr>"
        "pc' = Draining (ps @ [x])"
    | (closed) ps where "e = Receive" "pc = Draining ps" "chan_recv (co_chan t) = RecvClosed" "t' = t\<lparr>co_running := False\<rparr>"
        "pc' = Waiting"
    | (empty) "e = Receive" "pc = Draining []" "chan_recv (co_chan t) = RecvBlocks" "t' = t" "pc' = Waiting"
    | (full) ps where "e = Receive" "pc = Draining ps" "ps \<noteq> []" "chan_recv (co_chan t) = RecvBlocks" "t' = t"
        "pc' = Transferring ps"
    | (transfer) ps w err where "e = Transfer" "pc = Transferring ps" "tr (co_world t) ps = Some (w, err)"
        "t' = t\<lparr>co_batches := co_batches t @ [ps], co_world := w\<rparr>" "pc' = Waiting"
    | (closes) "e = CloseCore" "core_Close t = Ok t'" "pc' = pc"
  using assms
  by (cases "(tr, (t, pc), e)" rule: core_step.cases)
    (auto split: send_res.split_asm recv_res.split_asm if_split_asm option.split_asm res.split_asm)

lemma innerLoop_buf: "innerLoop c points = (points @ ch_buf c, ch_closed c, c\<lparr>ch_buf := []\<rparr>)"
proof (induction c points rule: innerLoop.induct)
  case (1 c points)
  show ?case
  proof (cases "ch_buf c")
    case Nil
    then show ?thesis
      by (subst innerLoop.simps) (simp add: chan_recv_def)
  next
    case (Cons x xs)
    then have "chan_recv c = Received x (c\<lparr>ch_buf := xs\<rparr>)"
      by (simp add: chan_recv_def)
    then show ?thesis
      using "1.IH" Cons by (subst innerLoop.simps) simp
  qed
qed

lemma transferDataLoop_eq:
  "transferDataLoop tr t =
     (let buf = ch_buf (co_chan t); t' = t\<lparr>co_chan := (co_chan t)\<lparr>ch_buf := []\<rparr>\<rparr>
      in if ch_closed (co_chan t) then Some (t'\<lparr>co_running := False\<rparr>)
         else if buf = [] then Some t'
         else map_option (\<lambda>(w, _). t'\<lparr>co_batches := co_batches t @ [buf], co_world := w\<rparr>) (tr (co_world t) buf))"
  by (simp add: transferDataLoop_def innerLoop_buf Let_def split: option.split)

lemma transferDataLoop_cases:
  assumes "transferDataLoop tr t = Some t'"
  obtains (closed) "ch_closed (co_chan t)" "t' = t\<lparr>co_chan := (co_chan t)\<lparr>ch_buf := []\<rparr>, co_running := False\<rparr>"
    | (empty) "\<not> ch_closed (co_chan t)" "ch_buf (co_chan t) = []" "t' = t\<lparr>co_chan := (co_chan t)\<lparr>ch_buf := []\<rparr>\<rparr>"
    | (batch) w err where "\<not> ch_closed (co_chan t)" "ch_buf (co_chan t) \<noteq> []"
        "tr (co_world t) (ch_buf (co_chan t)) = Some (w, err)"
        "t' = t\<lparr>co_chan := (co_chan t)\<lparr>ch_buf := []\<rparr>, co_batches := co_batches t @ [ch_buf (co_chan t)], co_world := w\<rparr>"
  using assms unfolding transferDataLoop_eq Let_def
  by (cases "tr (co_world t) (ch_buf (co_chan t))") (force split: if_splits)+

text \<open>The calls of \<open>TransferData\<close> on a list of batches, one after another.\<close>

fun transfer_all :: "'w transfer \<Rightarrow> channel_item list list \<Rightarrow> 'w \<Rightarrow> 'w option" where
  "transfer_all tr [] w = Some w"
| "transfer_all tr (b # bs) w = Option.bind (tr w b) (\<lambda>(w', _). transfer_all tr bs w')"

lemma transfer_all_append:
  "transfer_all tr (bs @ cs) w = Option.bind (transfer_all tr bs w) (transfer_all tr cs)"
  by (induction bs arbitrary: w) (simp_all add: case_prod_beta' split: Option.bind_splits)

section \<open>An undisturbed pass\<close>

text \<open>When nobody else uses the channel, a pass receives what is in it: \<open>transferDataLoop\<close>.\<close>

lemma core_run_receives:
  "core_run tr (t, Draining ps) (replicate (length (ch_buf (co_chan t))) Receive) =
     Some (t\<lparr>co_chan := (co_chan t)\<lparr>ch_buf := []\<rparr>\<rparr>, Draining (ps @ ch_buf (co_chan t)))"
proof (induction "ch_buf (co_chan t)" arbitrary: t ps)
  case Nil
  then have "(co_chan t)\<lparr>ch_buf := []\<rparr> = co_chan t" by simp
  with Nil show ?case by simp
next
  case (Cons x xs)
  let ?t = "t\<lparr>co_chan := (co_chan t)\<lparr>ch_buf := xs\<rparr>\<rparr>"
  have "chan_recv (co_chan t) = Received x ((co_chan t)\<lparr>ch_buf := xs\<rparr>)"
    by (simp add: chan_recv_def Cons.hyps(2) [symmetric])
  with Cons.hyps(1) [of ?t "ps @ [x]"] Cons.hyps(2) [symmetric] show ?case by simp
qed

lemma core_run_pass:
  assumes "co_running t" and "transferDataLoop tr t = Some t'"
  shows "\<exists>es. sent_items es = [] \<and> core_run tr (t, Waiting) es = Some (t', Waiting)"
proof -
  let ?rs = "Tick # replicate (length (ch_buf (co_chan t))) Receive @ [Receive]"
  let ?t = "t\<lparr>co_chan := (co_chan t)\<lparr>ch_buf := []\<rparr>\<rparr>"
  have none: "sent_items (replicate k Receive @ es) = sent_items es" for k es
    by (induction k) simp_all
  have drain: "core_run tr (t, Waiting) ?rs = core_step tr (?t, Draining (ch_buf (co_chan t))) Receive"
    using assms(1) core_run_receives [of tr t "[]"]
    by (simp add: core_run_append split: Option.bind_split)
  have recv: "chan_recv (co_chan ?t) = (if ch_closed (co_chan t) then RecvClosed else RecvBlocks)"
    by (simp add: chan_recv_def)
  show ?thesis
    using assms(2)
  proof (cases rule: transferDataLoop_cases)
    case (batch w err)
    then have "core_run tr (t, Waiting) (?rs @ [Transfer]) = Some (t', Waiting)"
      using drain recv by (subst core_run_append) simp
    then show ?thesis
      by (intro exI [of _ "?rs @ [Transfer]"]) (simp add: none)
  next
    case closed
    then show ?thesis
      using drain recv by (intro exI [of _ ?rs]) (simp add: none)
  next
    case empty
    then show ?thesis
      using drain recv by (intro exI [of _ ?rs]) (simp add: none)
  qed
qed

section \<open>Invariants of a run\<close>

text \<open>The batches are the world's whole history and none is empty.\<close>

definition core_inv ::
  "'w transfer \<Rightarrow> 'w \<Rightarrow> 'w core \<times> loop_pc \<Rightarrow> bool" where
  "core_inv tr w s \<longleftrightarrow>
     (\<forall>b\<in>set (co_batches (fst s)). b \<noteq> []) \<and> snd s \<noteq> Transferring [] \<and>
     transfer_all tr (co_batches (fst s)) w = Some (co_world (fst s))"

lemma core_inv_new: "core_inv tr w (core_Start (new_core n w), Waiting)"
  by (simp add: core_inv_def core_Start_def new_core_def)

lemma core_inv_step:
  assumes "core_inv tr w (t, pc)" and "core_step tr (t, pc) e = Some (t', pc')"
  shows "core_inv tr w (t', pc')"
  using assms(2)
  by (cases rule: core_stepE)
    (use assms(1) in \<open>auto simp: core_inv_def transfer_all_append core_Close_def split: option.split_asm\<close>)

lemma core_inv_run: "core_inv tr w s \<Longrightarrow> core_run tr s es = Some s' \<Longrightarrow> core_inv tr w s'"
proof (induction es arbitrary: s)
  case (Cons e es)
  then show ?case
    by (cases s) (auto simp: bind_eq_Some_conv intro: core_inv_step)
qed simp

text \<open>All the points a transport has seen, in order.\<close>

definition core_items :: "'w core \<times> loop_pc \<Rightarrow> channel_item list" where
  "core_items s = concat (co_batches (fst s)) @ loop_points (snd s) @ ch_buf (co_chan (fst s))"

lemma chan_recv_buf:
  "chan_recv c = Received x c' \<Longrightarrow> ch_buf c = x # ch_buf c' \<and> ch_closed c' = ch_closed c \<and> ch_cap c' = ch_cap c"
  "chan_recv c = RecvBlocks \<Longrightarrow> ch_buf c = [] \<and> \<not> ch_closed c"
  "chan_recv c = RecvClosed \<Longrightarrow> ch_buf c = [] \<and> ch_closed c"
  by (auto simp: chan_recv_def split: list.split_asm if_split_asm)

lemma core_step_open:
  assumes "core_step tr (t, pc) e = Some (t', pc')" and "\<not> ch_closed (co_chan t)" and "e \<noteq> CloseCore"
  shows "core_items (t', pc') = core_items (t, pc) @ sent_items [e] \<and> \<not> ch_closed (co_chan t')"
  using assms(1)
  by (cases rule: core_stepE)
    (use assms(2,3) in \<open>auto simp: core_items_def chan_send_Sent_iff dest: chan_recv_buf\<close>)

lemma sent_items_Cons: "sent_items (e # es) = sent_items [e] @ sent_items es"
  by (cases e) auto

lemma core_run_open:
  assumes "core_run tr s es = Some s'" and "\<not> ch_closed (co_chan (fst s))" and "CloseCore \<notin> set es"
  shows "core_items s' = core_items s @ sent_items es \<and> \<not> ch_closed (co_chan (fst s'))"
  using assms
proof (induction es arbitrary: s)
  case (Cons e es)
  obtain t pc where s: "s = (t, pc)" by fastforce
  from Cons.prems(1) obtain t1 pc1 where s1: "core_step tr (t, pc) e = Some (t1, pc1)" "core_run tr (t1, pc1) es = Some s'"
    by (auto simp: bind_eq_Some_conv s)
  have "core_items (t1, pc1) = core_items s @ sent_items [e] \<and> \<not> ch_closed (co_chan t1)"
    unfolding s using s1(1) Cons.prems(2,3) by (intro core_step_open) (auto simp: s)
  with Cons.IH [OF s1(2)] Cons.prems(3) show ?case
    by (simp add: sent_items_Cons [of e es])
qed simp

text \<open>Within a pass no batch is handed over before the loop has found the channel empty.\<close>

lemma core_run_within_pass:
  assumes "core_run tr (t, pc) es = Some (t', pc')" and "Tick \<notin> set es"
  shows "co_batches t' = co_batches t \<or> pc' = Waiting" "pc = Waiting \<Longrightarrow> pc' = Waiting"
proof -
  have "(co_batches t' = co_batches t \<or> pc' = Waiting) \<and> (pc = Waiting \<longrightarrow> pc' = Waiting)"
    using assms
  proof (induction es arbitrary: t pc)
    case (Cons e es)
    from Cons.prems(1) obtain t1 pc1 where s1: "core_step tr (t, pc) e = Some (t1, pc1)" "core_run tr (t1, pc1) es = Some (t', pc')"
      by (auto simp: bind_eq_Some_conv)
    from s1(1) have "(co_batches t1 = co_batches t \<or> pc1 = Waiting) \<and> (pc = Waiting \<longrightarrow> pc1 = Waiting)"
      by (cases rule: core_stepE) (use Cons.prems(2) in \<open>auto simp: core_Close_def split: option.split_asm\<close>)
    with Cons.IH [OF s1(2)] Cons.prems(2) show ?case by auto
  qed simp
  then show "co_batches t' = co_batches t \<or> pc' = Waiting" "pc = Waiting \<Longrightarrow> pc' = Waiting" by blast+
qed

text \<open>Once the channel is closed, only a batch that is already complete is handed over.\<close>

lemma core_step_closed:
  assumes "core_step tr (t, pc) e = Some (t', pc')" and "ch_closed (co_chan t)" and "\<forall>ps. pc \<noteq> Transferring ps"
  shows "co_batches t' = co_batches t \<and> ch_closed (co_chan t') \<and> (\<forall>ps. pc' \<noteq> Transferring ps)"
  using assms(1)
  by (cases rule: core_stepE)
    (use assms(2,3) in \<open>auto simp: chan_send_Sent_iff core_Close_def chan_close_def dest: chan_recv_buf\<close>)

lemma core_run_closed:
  "core_run tr s es = Some s' \<Longrightarrow> ch_closed (co_chan (fst s)) \<Longrightarrow> \<forall>ps. snd s \<noteq> Transferring ps \<Longrightarrow>
   co_batches (fst s') = co_batches (fst s)"
proof (induction es arbitrary: s)
  case (Cons e es)
  obtain t pc where s: "s = (t, pc)" by fastforce
  from Cons.prems(1) obtain t1 pc1 where s1: "core_step tr (t, pc) e = Some (t1, pc1)" "core_run tr (t1, pc1) es = Some s'"
    by (auto simp: bind_eq_Some_conv s)
  from core_step_closed [OF s1(1)] Cons.IH [OF s1(2)] Cons.prems(2,3) s show ?case by simp
qed simp

section \<open>Properties\<close>

text \<open>
  C3: until a transport is closed it neither loses, duplicates nor reorders points: however the sends of other
  goroutines fall between the receives of the loop and its transfers, the batches handed to \<open>TransferData\<close>,
  whether their transfer fails or not, followed by the points that the loop has in hand and by what
  is still in the channel, are exactly the points sent, in order.
\<close>

theorem transport_conserves_points:
  assumes "core_run tr (core_Start (new_core n w), Waiting) es = Some (t, pc)" and "CloseCore \<notin> set es"
  shows "concat (co_batches t) @ loop_points pc @ ch_buf (co_chan t) = sent_items es"
proof -
  have "core_items (core_Start (new_core n w), Waiting) = []" and "\<not> ch_closed (co_chan (core_Start (new_core n w)))"
    by (simp_all add: core_items_def core_Start_def new_core_def chan_make_def)
  with core_run_open [OF assms(1) _ assms(2)] have "core_items (t, pc) = sent_items es"
    by simp
  then show ?thesis by (simp add: core_items_def)
qed

definition example_sends :: "core_event list" where
  "example_sends =
     [Send (OtherItem (VBool True)), Tick, Receive, Send (OtherItem (VBool False)), Receive, Receive, Transfer,
      Send (OtherItem (VString ''x'')), Tick]"

text \<open>The buffer of the example holds one point; the pass takes two.\<close>

lemma example_sends_run:
  "core_run (\<lambda>w b. Some (w + length b, None)) (core_Start (new_core 1 (0 :: nat)), Waiting) example_sends =
   Some (\<lparr>co_chan = \<lparr>ch_buf = [OtherItem (VString ''x'')], ch_cap = 1, ch_closed = False\<rparr>, co_running = True,
     co_batches = [[OtherItem (VBool True), OtherItem (VBool False)]], co_world = 2\<rparr>, Draining [])"
  by (simp add: example_sends_def core_Start_def new_core_def chan_make_def chan_send_def chan_recv_def)

theorem transport_conserves_points_witness:
  "concat [[OtherItem (VBool True), OtherItem (VBool False)]] @ [OtherItem (VString ''x'')] = sent_items example_sends"
  using transport_conserves_points [OF example_sends_run] by (simp add: example_sends_def)

text \<open>
  C23: every batch handed to \<open>TransferData\<close> is non-empty, and \<open>TransferData\<close> is called once per batch, in the
  order of the batches and with nothing else between: a batch whose transfer fails is not sent again. Also
  when the transport is closed on the way.
\<close>

theorem transport_batches_once:
  assumes "core_run tr (core_Start (new_core n w), Waiting) es = Some (t, pc)"
  shows "(\<forall>b\<in>set (co_batches t). b \<noteq> []) \<and> transfer_all tr (co_batches t) w = Some (co_world t)"
  using core_inv_run [OF core_inv_new assms] by (simp add: core_inv_def)

theorem transport_batches_once_witness:
  "transfer_all (\<lambda>w b. Some (w + length b, None)) [[OtherItem (VBool True), OtherItem (VBool False)]] (0 :: nat) = Some 2"
  using transport_batches_once [OF example_sends_run] by simp

text \<open>
  C24: the batch of one pass of the loop, on a transport that is not closed meanwhile: the points that were in the
  channel when the interval ended, followed by all that were sent until the loop found the channel empty. So a
  pass takes more points than the buffer holds when senders fill it again between two receives.
\<close>

theorem transport_pass_batch:
  assumes "core_run tr (t, Waiting) (Tick # es @ [Receive]) = Some (t', Transferring ps)"
    and "Tick \<notin> set es" and "CloseCore \<notin> set es" and "\<not> ch_closed (co_chan t)"
  shows "ps = ch_buf (co_chan t) @ sent_items es \<and> ch_buf (co_chan t') = [] \<and> co_batches t' = co_batches t"
proof -
  have run: "core_run tr (t, Draining []) (es @ [Receive]) = Some (t', Transferring ps)"
    using assms(1) by (simp split: if_split_asm)
  then obtain t1 pc1 where s1: "core_step tr (t1, pc1) Receive = Some (t', Transferring ps)"
    by (auto simp: core_run_append bind_eq_Some_conv simp del: core_step.simps)
  have "ch_buf (co_chan t') = []"
    using s1 by (cases rule: core_stepE) (auto dest: chan_recv_buf)
  moreover have "co_batches t' = co_batches t"
    using core_run_within_pass(1) [OF run] assms(2) by simp
  moreover have "core_items (t', Transferring ps) = core_items (t, Draining []) @ sent_items (es @ [Receive])"
    using core_run_open [OF run] assms(3,4) by simp
  moreover have "sent_items (es @ [Receive]) = sent_items es"
    by (induction es rule: sent_items.induct) simp_all
  ultimately show ?thesis by (simp add: core_items_def)
qed

theorem transport_pass_batch_witness:
  "\<exists>t' ps. core_run (\<lambda>w b. Some (w, None)) ((core_Start (new_core 1 ()))\<lparr>co_chan := \<lparr>ch_buf = [OtherItem (VBool True)],
       ch_cap = 1, ch_closed = False\<rparr>\<rparr>, Waiting)
       (Tick # [Receive, Send (OtherItem (VBool False)), Receive] @ [Receive]) = Some (t', Transferring ps) \<and>
     ps = [OtherItem (VBool True), OtherItem (VBool False)] \<and> ch_cap (co_chan t') = 1"
proof -
  let ?t = "(core_Start (new_core 1 ()))\<lparr>co_chan := \<lparr>ch_buf = [OtherItem (VBool True)], ch_cap = 1, ch_closed = False\<rparr>\<rparr>"
  let ?ps = "[OtherItem (VBool True), OtherItem (VBool False)]"
  have run: "core_run (\<lambda>w b. Some (w, None)) (?t, Waiting) (Tick # [Receive, Send (OtherItem (VBool False)), Receive] @ [Receive]) =
      Some (?t\<lparr>co_chan := \<lparr>ch_buf = [], ch_cap = 1, ch_closed = False\<rparr>\<rparr>, Transferring ?ps)"
    by (simp add: core_Start_def new_core_def chan_send_def chan_recv_def)
  from transport_pass_batch [OF this] run show ?thesis by auto
qed

text \<open>
  The points that are in the channel when a transport is closed, and those that the loop has received in the pass
  that the closing falls into, are never transferred: whatever happens afterwards, no further batch is handed to
  \<open>TransferData\<close>, unless the loop had one complete.
\<close>

theorem transport_close_drops_points:
  assumes "core_run tr s es = Some (t1, pc1)" and "core_run tr s (es @ CloseCore # fs) = Some (t2, pc2)"
    and "\<forall>ps. pc1 \<noteq> Transferring ps"
  shows "co_batches t2 = co_batches t1"
proof -
  from assms(1,2) obtain s' where s': "core_step tr (t1, pc1) CloseCore = Some s'" "core_run tr s' fs = Some (t2, pc2)"
    by (auto simp: core_run_append bind_eq_Some_conv simp del: core_step.simps)
  then have "ch_closed (co_chan (fst s'))" "co_batches (fst s') = co_batches t1" "snd s' = pc1"
    by (auto simp: core_Close_def chan_close_def split: if_splits)
  with core_run_closed [OF s'(2)] assms(3) show ?thesis by simp
qed

theorem transport_close_drops_points_witness:
  "\<exists>t1 t2 pc2. core_run (\<lambda>w b. Some (w, None)) (core_Start (new_core 2 ()), Waiting)
       [Send (OtherItem (VBool True)), Send (OtherItem (VBool False)), Tick, Receive] =
         Some (t1, Draining [OtherItem (VBool True)]) \<and>
     core_run (\<lambda>w b. Some (w, None)) (core_Start (new_core 2 ()), Waiting)
       ([Send (OtherItem (VBool True)), Send (OtherItem (VBool False)), Tick, Receive] @ CloseCore # [Receive, Receive]) =
         Some (t2, pc2) \<and>
     ch_buf (co_chan t1) = [OtherItem (VBool False)] \<and> ch_buf (co_chan t2) = [] \<and> co_batches t2 = co_batches t1"
proof -
  let ?t = "core_Start (new_core 2 ())" and ?es = "[Send (OtherItem (VBool True)), Send (OtherItem (VBool False)), Tick, Receive]"
  let ?t1 = "?t\<lparr>co_chan := \<lparr>ch_buf = [OtherItem (VBool False)], ch_cap = 2, ch_closed = False\<rparr>\<rparr>"
  let ?t2 = "?t\<lparr>co_chan := \<lparr>ch_buf = [], ch_cap = 2, ch_closed = True\<rparr>, co_running := False\<rparr>"
  have 1: "core_run (\<lambda>w b. Some (w, None)) (?t, Waiting) ?es = Some (?t1, Draining [OtherItem (VBool True)])"
    and 2: "core_run (\<lambda>w b. Some (w, None)) (?t, Waiting) (?es @ CloseCore # [Receive, Receive]) = Some (?t2, Waiting)"
    by (simp_all add: core_Start_def new_core_def chan_make_def chan_send_def chan_recv_def core_Close_def chan_close_def)
  from transport_close_drops_points [OF 1 2] show ?thesis
    by (intro exI [of _ ?t1] exI [of _ ?t2] exI [of _ Waiting]) (use 1 2 in simp)
qed

end
