(* ===== verification/Http_Transport.thy ===== *)
theory Http_Transport
  imports Transport
begin

text \<open>
  \<open>timeline/http.go\<close>: the HTTP JSON transport.

  The json serializer (\<open>github.com/uol/serializer/json\<close>) and the HTTP client are parameters: a record
  with the operations that the code calls. \<open>'z\<close> is the state of the serializer, \<open>'w\<close> the state of
  the world behind the HTTP client.
\<close>

record HTTPTransportConfig = DefaultTransportConfiguration +
  ServiceEndpoint :: string
  Method :: string
  ExpectedResponseStatus :: int
  TimestampProperty :: string
  ValueProperty :: string

text \<open>\<open>serializer.New\<close>, \<open>Add\<close>, \<open>SerializeArray\<close> and \<open>SerializeGeneric\<close>, for items of type \<open>'i\<close>.\<close>

record ('z, 'i) serializer =
  ser_New :: "int \<Rightarrow> 'z"
  ser_Add :: "'z \<Rightarrow> string \<Rightarrow> goval \<Rightarrow> string list \<Rightarrow> 'z \<times> string option"
  ser_SerializeArray :: "'z \<Rightarrow> 'i list \<Rightarrow> string + string"
  ser_SerializeGeneric :: "'z \<Rightarrow> channel_item \<Rightarrow> string + string"

record http_request =
  rq_Method :: string
  rq_URL :: string
  rq_Body :: "byte list"
  rq_Headers :: "(string \<times> string) list"

record http_response =
  rs_StatusCode :: int
  rs_Body :: nat

text \<open>\<open>http.NewRequest\<close> (its error, if any), \<open>Client.Do\<close>, \<open>ioutil.ReadAll\<close> of a response body and the
  \<open>Close\<close> of the body.\<close>

record 'w http_client =
  hc_NewRequest :: "string \<Rightarrow> string \<Rightarrow> byte list \<Rightarrow> string + http_request"
  hc_Do :: "'w \<Rightarrow> http_request \<Rightarrow> 'w \<times> (string + http_response)"
  hc_ReadAll :: "'w \<Rightarrow> http_response \<Rightarrow> 'w \<times> (string + string)"
  hc_Close :: "'w \<Rightarrow> http_response \<Rightarrow> 'w"

record ('z, 'w) HTTPTransport =
  ht_core :: "'w core"
  ht_serviceURL :: string
  ht_configuration :: HTTPTransportConfig
  ht_serializer :: 'z

section \<open>Construction\<close>

definition NewHTTPTransport ::
  "('z, json_item) serializer \<Rightarrow> 'w \<Rightarrow> HTTPTransportConfig option \<Rightarrow> (timeline_error, ('z, 'w) HTTPTransport) res" where
  "NewHTTPTransport ser w configuration =
     (case configuration of
        None \<Rightarrow> Err NullConfiguration
      | Some cf \<Rightarrow>
          (case Validate cf of
             Some err \<Rightarrow> Err err
           | None \<Rightarrow>
               if length (TimestampProperty cf) = 0 then Err TimestampPropertyNotConfigured
               else if length (ValueProperty cf) = 0 then Err ValuePropertyNotConfigured
               else Ok \<lparr>ht_core = new_core (nat (TransportBufferSize cf)) w, ht_serviceURL = [],
                       ht_configuration = cf, ht_serializer = ser_New ser (SerializerBufferSize cf)\<rparr>))"

definition AddJSONMapping ::
  "('z, json_item) serializer \<Rightarrow> ('z, 'w) HTTPTransport \<Rightarrow> string \<Rightarrow> goval \<Rightarrow> string list \<Rightarrow>
     ('z, 'w) HTTPTransport \<times> timeline_error option" where
  "AddJSONMapping ser t name p variables =
     (case ser_Add ser (ht_serializer t) name p variables of
        (z, err) \<Rightarrow> (t\<lparr>ht_serializer := z\<rparr>, map_option LibraryError err))"

definition http_ConfigureBackend ::
  "('z, 'w) HTTPTransport \<Rightarrow> Backend option \<Rightarrow> (timeline_error, ('z, 'w) HTTPTransport) res" where
  "http_ConfigureBackend t backend =
     (case backend of
        None \<Rightarrow> Err NoBackend
      | Some b \<Rightarrow>
          Ok (t\<lparr>ht_serviceURL :=
                 ''http://'' @ Host b @ '':'' @ itoa (Port b) @ ''/'' @ ServiceEndpoint (ht_configuration t)\<rparr>))"

definition http_MatchType :: "transportType \<Rightarrow> bool" where
  "http_MatchType tt \<longleftrightarrow> tt = typeHTTP"

section \<open>Sending a batch\<close>

text \<open>The type assertion of every element; \<open>None\<close> when one of them is not an \<open>ArrayItem\<close>.\<close>

fun cast_json :: "channel_item list \<Rightarrow> json_item list option" where
  "cast_json [] = Some []"
| "cast_json (JsonItem x # xs) = map_option (Cons x) (cast_json xs)"
| "cast_json (_ # xs) = None"

text \<open>\<open>req.Header.Set\<close> and \<open>httpClient.Do\<close>, then the comparison of the status.\<close>

definition http_exchange ::
  "'w http_client \<Rightarrow> HTTPTransportConfig \<Rightarrow> 'w \<Rightarrow> http_request \<Rightarrow> 'w \<times> timeline_error option" where
  "http_exchange hc cf w req =
     (case hc_Do hc w (req\<lparr>rq_Headers := [(''Content-type'', ''application/json'')]\<rparr>) of
        (w, Inl err) \<Rightarrow> (w, Some (LibraryError err))
      | (w, Inr resp) \<Rightarrow>
          if rs_StatusCode resp \<noteq> ExpectedResponseStatus cf then
            (case hc_ReadAll hc w resp of
               (w, Inl err) \<Rightarrow> (w, Some (ReadingBody err))
             | (w, Inr body) \<Rightarrow> (w, Some (ErrorBody body)))
          else (hc_Close hc w resp, None))"

definition http_TransferData ::
  "('z, json_item) serializer \<Rightarrow> 'w http_client \<Rightarrow> 'z \<Rightarrow> HTTPTransportConfig \<Rightarrow> string \<Rightarrow>
     'w \<Rightarrow> channel_item list \<Rightarrow> 'w \<times> timeline_error option" where
  "http_TransferData ser hc z cf url w dataList =
     (case cast_json dataList of
        None \<Rightarrow> (w, Some CastingData)
      | Some points \<Rightarrow>
          (case ser_SerializeArray ser z points of
             Inl err \<Rightarrow> (w, Some (LibraryError err))
           | Inr payload \<Rightarrow>
               (case hc_NewRequest hc (Method cf) url (bytes_of_string payload) of
                  Inl err \<Rightarrow> (w, Some (LibraryError err))
                | Inr req \<Rightarrow> http_exchange hc cf w req)))"

section \<open>Conversion to and from flattener points\<close>

text \<open>The local variables of the conversion loop.\<close>

record params_state =
  ps_valueFound :: bool
  ps_timestampFound :: bool
  ps_value :: float64
  ps_timestamp :: "64 word"
  ps_hashParameters :: "goval list"

function params_loop ::
  "HTTPTransportConfig \<Rightarrow> goval list \<Rightarrow> nat \<Rightarrow> params_state \<Rightarrow> (timeline_error, params_state) res" where
  "params_loop cf ps i st =
     (if length ps \<le> i then Ok st
      else
        (let keep = (\<lambda>_. params_loop cf ps (i + 1) (st\<lparr>ps_hashParameters := ps_hashParameters st @ [ps ! i]\<rparr>))
         in if even i \<and> (\<not> ps_valueFound st \<or> \<not> ps_timestampFound st) then
              (case ps ! i of
                 VString key \<Rightarrow>
                   if \<not> ps_valueFound st \<and> key = ValueProperty cf then
                     (if length ps \<le> i + 1 then Panic
                      else case ps ! (i + 1) of
                        VFloat SFloat64 v \<Rightarrow>
                          params_loop cf ps (i + 2) (st\<lparr>ps_valueFound := True, ps_value := v\<rparr>)
                      | _ \<Rightarrow> Err ExpectingFloat64)
                   else if \<not> ps_timestampFound st \<and> key = TimestampProperty cf then
                     (if length ps \<le> i + 1 then Panic
                      else case ps ! (i + 1) of
                        VInt SInt64 v \<Rightarrow>
                          params_loop cf ps (i + 2) (st\<lparr>ps_timestampFound := True, ps_timestamp := v\<rparr>)
                      | _ \<Rightarrow> Err ExpectingInt64)
                   else keep ()
               | _ \<Rightarrow> Err ExpectingPropertyName)
            else keep ()))"
  by pat_completeness auto
termination
  by (relation "measure (\<lambda>(cf, ps, i, st). length ps - i)") auto

declare params_loop.simps [simp del]

definition http_hash_head :: "json_item \<Rightarrow> flat_operation \<Rightarrow> goval list" where
  "http_hash_head item op = [VString (Name item), VUint SUint8 (ucast op)]"

text \<open>\<open>now\<close> is the value of \<open>time.Now().Unix()\<close>.\<close>

definition http_DataChannelItemToFlattenedPoint ::
  "HTTPTransportConfig \<Rightarrow> 64 word \<Rightarrow> flat_operation \<Rightarrow> channel_item \<Rightarrow> (timeline_error, FlattenerPoint) res" where
  "http_DataChannelItemToFlattenedPoint cf now op inst =
     (case inst of
        JsonItemPtr item \<Rightarrow>
          res_bind
            (params_loop cf (Parameters item) 0
               \<lparr>ps_valueFound = False, ps_timestampFound = False, ps_value = f64_make False 0,
                ps_timestamp = 0, ps_hashParameters = http_hash_head item op\<rparr>)
            (\<lambda>st.
               Ok \<lparr>point_data =
                     \<lparr>operation = op,
                      timestamp = (if ps_timestampFound st then ps_timestamp st else now),
                      dataChannelItem =
                        JsonItem \<lparr>Name = Name item, Parameters = drop 2 (ps_hashParameters st)\<rparr>\<rparr>,
                   hashParameters = ps_hashParameters st,
                   point_value = ps_value st\<rparr>)
      | _ \<Rightarrow> Err CastingInstance)"

definition http_FlattenedPointToDataChannelItem ::
  "HTTPTransportConfig \<Rightarrow> FlattenerPoint \<Rightarrow> (timeline_error, channel_item) res" where
  "http_FlattenedPointToDataChannelItem cf point =
     (case dataChannelItem (point_data point) of
        JsonItem item \<Rightarrow>
          Ok (JsonItem (item\<lparr>Parameters := Parameters item @
                [VString (TimestampProperty cf), VInt SInt64 (timestamp (point_data point)),
                 VString (ValueProperty cf), VFloat SFloat64 (point_value point)]\<rparr>))
      | _ \<Rightarrow> Err CastingPointItem)"

definition http_Start :: "('z, 'w) HTTPTransport \<Rightarrow> ('z, 'w) HTTPTransport" where
  "http_Start t = t\<lparr>ht_core := core_Start (ht_core t)\<rparr>"

definition http_Close :: "('z, 'w) HTTPTransport \<Rightarrow> (timeline_error, ('z, 'w) HTTPTransport) res" where
  "http_Close t = res_bind (core_Close (ht_core t)) (\<lambda>c. Ok (t\<lparr>ht_core := c\<rparr>))"

definition http_Serialize ::
  "('z, json_item) serializer \<Rightarrow> ('z, 'w) HTTPTransport \<Rightarrow> channel_item \<Rightarrow> string + string" where
  "http_Serialize ser t item = ser_SerializeGeneric ser (ht_serializer t) item"

section \<open>The conversion loop on property lists\<close>

definition pairs_params :: "(string \<times> goval) list \<Rightarrow> goval list" where
  "pairs_params kvs = concat (map (\<lambda>(k, v). [VString k, v]) kvs)"

lemma pairs_params_simps [simp]:
  "pairs_params [] = []"
  "pairs_params ((k, v) # kvs) = VString k # v # pairs_params kvs"
  "pairs_params (kvs @ kvs') = pairs_params kvs @ pairs_params kvs'"
  by (simp_all add: pairs_params_def)

lemma even_length_pairs_params [simp]: "even (length (pairs_params kvs))"
  by (induction kvs) auto

text \<open>The loop on a list of pairs of a property name and a value, one pair at a time.\<close>

fun pairs_loop ::
  "HTTPTransportConfig \<Rightarrow> (string \<times> goval) list \<Rightarrow> params_state \<Rightarrow> (timeline_error, params_state) res" where
  "pairs_loop cf [] st = Ok st"
| "pairs_loop cf ((k, v) # kvs) st =
     (if \<not> ps_valueFound st \<and> k = ValueProperty cf then
        (case v of
           VFloat SFloat64 f \<Rightarrow> pairs_loop cf kvs (st\<lparr>ps_valueFound := True, ps_value := f\<rparr>)
         | _ \<Rightarrow> Err ExpectingFloat64)
      else if \<not> ps_timestampFound st \<and> k = TimestampProperty cf then
        (case v of
           VInt SInt64 i \<Rightarrow> pairs_loop cf kvs (st\<lparr>ps_timestampFound := True, ps_timestamp := i\<rparr>)
         | _ \<Rightarrow> Err ExpectingInt64)
      else pairs_loop cf kvs (st\<lparr>ps_hashParameters := ps_hashParameters st @ [VString k, v]\<rparr>))"

lemma params_loop_end: "length ps \<le> i \<Longrightarrow> params_loop cf ps i st = Ok st"
  by (subst params_loop.simps) simp

lemma params_loop_odd:
  "odd i \<Longrightarrow> i < length ps \<Longrightarrow>
     params_loop cf ps i st = params_loop cf ps (i + 1) (st\<lparr>ps_hashParameters := ps_hashParameters st @ [ps ! i]\<rparr>)"
  by (subst params_loop.simps) simp

lemma params_loop_pair:
  assumes "i = length pre" and "even i" and "ps = pre @ VString k # v # post"
  shows "params_loop cf ps i st =
    (if \<not> ps_valueFound st \<and> k = ValueProperty cf then
       (case v of
          VFloat SFloat64 f \<Rightarrow> params_loop cf ps (i + 2) (st\<lparr>ps_valueFound := True, ps_value := f\<rparr>)
        | _ \<Rightarrow> Err ExpectingFloat64)
     else if \<not> ps_timestampFound st \<and> k = TimestampProperty cf then
       (case v of
          VInt SInt64 j \<Rightarrow> params_loop cf ps (i + 2) (st\<lparr>ps_timestampFound := True, ps_timestamp := j\<rparr>)
        | _ \<Rightarrow> Err ExpectingInt64)
     else params_loop cf ps (i + 2) (st\<lparr>ps_hashParameters := ps_hashParameters st @ [VString k, v]\<rparr>))"
proof -
  have at: "ps ! i = VString k" "ps ! Suc i = v" "\<not> length ps \<le> i" "\<not> length ps \<le> Suc i"
    using assms by (simp_all add: nth_append)
  have keep: "params_loop cf ps (i + 1) (st\<lparr>ps_hashParameters := ps_hashParameters st @ [VString k]\<rparr>) =
      params_loop cf ps (i + 2) (st\<lparr>ps_hashParameters := ps_hashParameters st @ [VString k, v]\<rparr>)"
    using assms(2) at by (subst params_loop_odd) simp_all
  show ?thesis
    using assms(2) at keep by (subst params_loop.simps) (simp add: Let_def)
qed

lemma params_loop_pairs:
  assumes "even (length pre)"
  shows "params_loop cf (pre @ pairs_params kvs @ post) (length pre) st =
    res_bind (pairs_loop cf kvs st)
      (\<lambda>st'. params_loop cf (pre @ pairs_params kvs @ post) (length pre + length (pairs_params kvs)) st')"
  using assms
proof (induction kvs arbitrary: pre st)
  case (Cons kv kvs)
  obtain k v where kv: "kv = (k, v)" by (cases kv)
  have IH: "params_loop cf (pre @ VString k # v # pairs_params kvs @ post) (length pre + 2) st' =
      res_bind (pairs_loop cf kvs st')
        (\<lambda>st''. params_loop cf (pre @ VString k # v # pairs_params kvs @ post)
           (length pre + 2 + length (pairs_params kvs)) st'')" for st'
    using Cons.IH [of "pre @ [VString k, v]" st'] Cons.prems by simp
  show ?case
    using params_loop_pair [OF refl Cons.prems refl, of cf k v "pairs_params kvs @ post" st] IH
    by (auto simp: kv split: goval.split float_kind.split int_kind.split)
qed simp

text \<open>What the loop computes when no property name occurs twice.\<close>

definition typed_pairs :: "HTTPTransportConfig \<Rightarrow> (string \<times> goval) list \<Rightarrow> bool" where
  "typed_pairs cf kvs \<longleftrightarrow>
     distinct (map fst kvs) \<and>
     list_all (\<lambda>(k, v). (k = ValueProperty cf \<longrightarrow> (\<exists>f. v = VFloat SFloat64 f)) \<and>
       (k = TimestampProperty cf \<longrightarrow> (\<exists>i. v = VInt SInt64 i))) kvs"

definition other_pairs :: "HTTPTransportConfig \<Rightarrow> (string \<times> goval) list \<Rightarrow> (string \<times> goval) list" where
  "other_pairs cf kvs = filter (\<lambda>(k, _). k \<noteq> ValueProperty cf \<and> k \<noteq> TimestampProperty cf) kvs"

fun float_of :: "goval \<Rightarrow> float64" where
  "float_of (VFloat _ f) = f"
| "float_of _ = f64_make False 0"

fun int_of :: "goval \<Rightarrow> 64 word" where
  "int_of (VInt _ i) = i"
| "int_of _ = 0"

definition pairs_result :: "HTTPTransportConfig \<Rightarrow> (string \<times> goval) list \<Rightarrow> params_state \<Rightarrow> params_state" where
  "pairs_result cf kvs st =
     \<lparr>ps_valueFound = (ps_valueFound st \<or> ValueProperty cf \<in> fst ` set kvs),
      ps_timestampFound = (ps_timestampFound st \<or> TimestampProperty cf \<in> fst ` set kvs),
      ps_value = (case map_of kvs (ValueProperty cf) of None \<Rightarrow> ps_value st | Some v \<Rightarrow> float_of v),
      ps_timestamp = (case map_of kvs (TimestampProperty cf) of None \<Rightarrow> ps_timestamp st | Some v \<Rightarrow> int_of v),
      ps_hashParameters = ps_hashParameters st @ pairs_params (other_pairs cf kvs)\<rparr>"

lemma pairs_loop_result:
  assumes "typed_pairs cf kvs" and "ValueProperty cf \<noteq> TimestampProperty cf"
    and "ps_valueFound st \<Longrightarrow> ValueProperty cf \<notin> fst ` set kvs"
    and "ps_timestampFound st \<Longrightarrow> TimestampProperty cf \<notin> fst ` set kvs"
  shows "pairs_loop cf kvs st = Ok (pairs_result cf kvs st)"
  using assms
proof (induction kvs arbitrary: st)
  case Nil
  then show ?case by (simp add: pairs_result_def other_pairs_def)
next
  case (Cons kv kvs)
  obtain k v where kv: "kv = (k, v)" by (cases kv)
  have tl: "typed_pairs cf kvs" and new: "k \<notin> fst ` set kvs"
    using Cons.prems(1) by (auto simp: typed_pairs_def kv)
  have none: "map_of kvs k = None"
    using new by (simp add: map_of_eq_None_iff)
  consider (val) "k = ValueProperty cf" | (ts) "k = TimestampProperty cf"
    | (other) "k \<noteq> ValueProperty cf" "k \<noteq> TimestampProperty cf"
    by blast
  then show ?case
  proof cases
    case val
    then obtain f where f: "v = VFloat SFloat64 f"
      using Cons.prems(1) by (auto simp: typed_pairs_def kv)
    have vf: "\<not> ps_valueFound st"
      using Cons.prems(3) val kv by auto
    let ?st = "st\<lparr>ps_valueFound := True, ps_value := f\<rparr>"
    have "pairs_loop cf kvs ?st = Ok (pairs_result cf kvs ?st)"
      using Cons.prems(4) new val kv by (intro Cons.IH tl Cons.prems(2)) auto
    with val f vf none Cons.prems(2) show ?thesis
      by (simp add: kv pairs_result_def other_pairs_def split: option.split)
  next
    case ts
    then obtain i where i: "v = VInt SInt64 i"
      using Cons.prems(1) by (auto simp: typed_pairs_def kv)
    have tf: "\<not> ps_timestampFound st"
      using Cons.prems(4) ts kv by auto
    let ?st = "st\<lparr>ps_timestampFound := True, ps_timestamp := i\<rparr>"
    have "pairs_loop cf kvs ?st = Ok (pairs_result cf kvs ?st)"
      using Cons.prems(3) new ts kv by (intro Cons.IH tl Cons.prems(2)) auto
    with ts i tf none Cons.prems(2) show ?thesis
      by (simp add: kv pairs_result_def other_pairs_def split: option.split)
  next
    case other
    let ?st = "st\<lparr>ps_hashParameters := ps_hashParameters st @ [VString k, v]\<rparr>"
    have "pairs_loop cf kvs ?st = Ok (pairs_result cf kvs ?st)"
      using Cons.prems(3,4) kv by (intro Cons.IH tl Cons.prems(2)) auto
    with other show ?thesis
      by (auto simp: kv pairs_result_def other_pairs_def split: option.split)
  qed
qed

lemma params_loop_typed:
  assumes "typed_pairs cf kvs" and "ValueProperty cf \<noteq> TimestampProperty cf"
    and "\<not> ps_valueFound st" and "\<not> ps_timestampFound st"
  shows "params_loop cf (pairs_params kvs) 0 st = Ok (pairs_result cf kvs st)"
proof -
  have "pairs_loop cf kvs st = Ok (pairs_result cf kvs st)"
    using assms by (intro pairs_loop_result) auto
  then show ?thesis
    using params_loop_pairs [of "[]" cf kvs "[]" st] by (simp add: params_loop_end)
qed

lemma mset_other_pairs:
  assumes "distinct (map fst kvs)" and "a \<noteq> b" and "map_of kvs a = Some x" and "map_of kvs b = Some y"
  shows "mset (filter (\<lambda>(k, _). k \<noteq> b \<and> k \<noteq> a) kvs @ [(a, x), (b, y)]) = mset kvs"
proof -
  have only: "filter (\<lambda>kv. fst kv = k) kvs = [(k, v)]" if "map_of kvs k = Some v" for k v
    using assms(1) that by (induction kvs) (auto simp: filter_empty_conv image_iff split: if_splits)
  have "mset kvs = mset (filter (\<lambda>(k, _). k \<noteq> b \<and> k \<noteq> a) kvs) +
      (mset (filter (\<lambda>kv. fst kv = a) kvs) + mset (filter (\<lambda>kv. fst kv = b) kvs))"
    using assms(2) by (induction kvs) auto
  then show ?thesis
    by (simp add: only assms(3,4) add_mset_commute)
qed

lemma cast_json_map [simp]: "cast_json (map JsonItem ys) = Some ys"
  by (induction ys) auto

lemma cast_json_Some: "cast_json xs = Some ys \<longleftrightarrow> xs = map JsonItem ys"
  by (induction xs arbitrary: ys rule: cast_json.induct) auto

lemma http_to_point_typed:
  assumes "typed_pairs cf kvs" and "ValueProperty cf \<noteq> TimestampProperty cf"
  shows "http_DataChannelItemToFlattenedPoint cf now op (JsonItemPtr \<lparr>Name = n, Parameters = pairs_params kvs\<rparr>) =
    Ok \<lparr>point_data =
          \<lparr>operation = op,
           timestamp = (case map_of kvs (TimestampProperty cf) of None \<Rightarrow> now | Some v \<Rightarrow> int_of v),
           dataChannelItem = JsonItem \<lparr>Name = n, Parameters = pairs_params (other_pairs cf kvs)\<rparr>\<rparr>,
        hashParameters = VString n # VUint SUint8 (ucast op) # pairs_params (other_pairs cf kvs),
        point_value = (case map_of kvs (ValueProperty cf) of None \<Rightarrow> f64_make False 0 | Some v \<Rightarrow> float_of v)\<rparr>"
proof -
  have dom: "k \<in> fst ` set kvs \<longleftrightarrow> map_of kvs k \<noteq> None" for k
    by (simp add: map_of_eq_None_iff)
  show ?thesis
    by (simp add: http_DataChannelItemToFlattenedPoint_def params_loop_typed [OF assms] pairs_result_def
        http_hash_head_def dom split: option.split)
qed

section \<open>Properties\<close>

text \<open>
  C10: a point given as property/value pairs with distinct names is converted to a flattener point
  that carries its value and timestamp and is identified by its schema name, the operation and the
  other pairs; converting it back gives an item with the same pairs, value and timestamp last.
\<close>

theorem http_point_roundtrip:
  assumes "typed_pairs cf kvs" and "ValueProperty cf \<noteq> TimestampProperty cf"
    and "map_of kvs (ValueProperty cf) = Some (VFloat SFloat64 v)"
    and "map_of kvs (TimestampProperty cf) = Some (VInt SInt64 t)"
  shows "\<exists>p kvs'.
    http_DataChannelItemToFlattenedPoint cf now op (JsonItemPtr \<lparr>Name = n, Parameters = pairs_params kvs\<rparr>) = Ok p \<and>
    point_value p = v \<and> timestamp (point_data p) = t \<and>
    hashParameters p = VString n # VUint SUint8 (ucast op) # pairs_params (other_pairs cf kvs) \<and>
    http_FlattenedPointToDataChannelItem cf p = Ok (JsonItem \<lparr>Name = n, Parameters = pairs_params kvs'\<rparr>) \<and>
    mset kvs' = mset kvs"
proof (intro exI conjI)
  let ?kvs' = "other_pairs cf kvs @
    [(TimestampProperty cf, VInt SInt64 t), (ValueProperty cf, VFloat SFloat64 v)]"
  show "http_DataChannelItemToFlattenedPoint cf now op (JsonItemPtr \<lparr>Name = n, Parameters = pairs_params kvs\<rparr>) =
    Ok \<lparr>point_data = \<lparr>operation = op, timestamp = t,
          dataChannelItem = JsonItem \<lparr>Name = n, Parameters = pairs_params (other_pairs cf kvs)\<rparr>\<rparr>,
        hashParameters = VString n # VUint SUint8 (ucast op) # pairs_params (other_pairs cf kvs),
        point_value = v\<rparr>" (is "_ = Ok ?p")
    using assms by (simp add: http_to_point_typed)
  show "http_FlattenedPointToDataChannelItem cf ?p = Ok (JsonItem \<lparr>Name = n, Parameters = pairs_params ?kvs'\<rparr>)"
    by (simp add: http_FlattenedPointToDataChannelItem_def)
  show "mset ?kvs' = mset kvs"
    unfolding other_pairs_def using assms by (intro mset_other_pairs) (auto simp: typed_pairs_def)
qed simp_all

definition example_config :: HTTPTransportConfig where
  "example_config =
     \<lparr>TransportBufferSize = 16, BatchSendInterval = 100, RequestTimeout = 1000, SerializerBufferSize = 64,
      ServiceEndpoint = ''api/put'', Method = ''PUT'', ExpectedResponseStatus = 204,
      TimestampProperty = ''timestamp'', ValueProperty = ''value''\<rparr>"

theorem http_point_roundtrip_witness:
  "\<exists>p kvs'.
    http_DataChannelItemToFlattenedPoint example_config 7 Sum_op
      (JsonItemPtr \<lparr>Name = ''number'', Parameters =
        [VString ''metric'', VString ''m'', VString ''value'', VFloat SFloat64 (f64_of_int 3),
         VString ''timestamp'', VInt SInt64 42]\<rparr>) = Ok p \<and>
    point_value p = f64_of_int 3 \<and> timestamp (point_data p) = 42 \<and>
    http_FlattenedPointToDataChannelItem example_config p = Ok (JsonItem \<lparr>Name = ''number'', Parameters = pairs_params kvs'\<rparr>) \<and>
    mset kvs' = mset [(''metric'', VString ''m''), (''value'', VFloat SFloat64 (f64_of_int 3)), (''timestamp'', VInt SInt64 42)]"
  using http_point_roundtrip [of example_config
      "[(''metric'', VString ''m''), (''value'', VFloat SFloat64 (f64_of_int 3)), (''timestamp'', VInt SInt64 42)]"
      "f64_of_int 3" 42 7 Sum_op "''number''"]
  by (simp add: example_config_def typed_pairs_def) blast

text \<open>
  A parameter list that ends with the name of the value property or of the timestamp property
  makes the conversion panic with an index out of range.
\<close>

theorem http_dangling_property_panics:
  assumes "typed_pairs cf kvs" and "ValueProperty cf \<noteq> TimestampProperty cf"
    and "k = ValueProperty cf \<or> k = TimestampProperty cf" and "k \<notin> fst ` set kvs"
  shows "http_DataChannelItemToFlattenedPoint cf now op
    (JsonItemPtr \<lparr>Name = n, Parameters = pairs_params kvs @ [VString k]\<rparr>) = Panic"
proof -
  let ?ps = "pairs_params kvs @ [VString k]"
  let ?st = "\<lparr>ps_valueFound = False, ps_timestampFound = False, ps_value = f64_make False 0,
      ps_timestamp = 0, ps_hashParameters = http_hash_head \<lparr>Name = n, Parameters = ?ps\<rparr> op\<rparr>"
  have "pairs_loop cf kvs ?st = Ok (pairs_result cf kvs ?st)"
    using assms(1,2) by (intro pairs_loop_result) auto
  then have "params_loop cf ?ps 0 ?st = params_loop cf ?ps (length (pairs_params kvs)) (pairs_result cf kvs ?st)"
    using params_loop_pairs [of "[]" cf kvs "[VString k]" ?st] by simp
  also have "\<dots> = Panic"
    using assms(2,3,4) by (subst params_loop.simps) (auto simp: pairs_result_def nth_append)
  finally show ?thesis
    by (simp add: http_DataChannelItemToFlattenedPoint_def)
qed

theorem http_dangling_property_panics_witness:
  "http_DataChannelItemToFlattenedPoint example_config 7 Sum_op
     (JsonItemPtr \<lparr>Name = ''number'', Parameters = [VString ''metric'', VString ''m'', VString ''value'']\<rparr>) = Panic"
  using http_dangling_property_panics [of example_config "[(''metric'', VString ''m'')]" "''value''" 7 Sum_op "''number''"]
  by (simp add: example_config_def typed_pairs_def)

text \<open>
  C15: \<open>TransferData\<close> over HTTP reports success exactly when every point of the batch is an
  \<open>ArrayItem\<close>, the serializer accepted the batch, one request with the configured method, URL and
  that payload was made, and the server answered with the expected status; the body is then closed.
\<close>

theorem http_TransferData_success_iff:
  "http_TransferData ser hc z cf url w xs = (w', None) \<longleftrightarrow>
     (\<exists>points payload req w1 resp.
        xs = map JsonItem points \<and>
        ser_SerializeArray ser z points = Inr payload \<and>
        hc_NewRequest hc (Method cf) url (bytes_of_string payload) = Inr req \<and>
        hc_Do hc w (req\<lparr>rq_Headers := [(''Content-type'', ''application/json'')]\<rparr>) = (w1, Inr resp) \<and>
        rs_StatusCode resp = ExpectedResponseStatus cf \<and> w' = hc_Close hc w1 resp)"
proof
  assume "http_TransferData ser hc z cf url w xs = (w', None)"
  then show "\<exists>points payload req w1 resp.
        xs = map JsonItem points \<and>
        ser_SerializeArray ser z points = Inr payload \<and>
        hc_NewRequest hc (Method cf) url (bytes_of_string payload) = Inr req \<and>
        hc_Do hc w (req\<lparr>rq_Headers := [(''Content-type'', ''application/json'')]\<rparr>) = (w1, Inr resp) \<and>
        rs_StatusCode resp = ExpectedResponseStatus cf \<and> w' = hc_Close hc w1 resp"
    unfolding http_TransferData_def http_exchange_def
    by (fastforce simp: cast_json_Some split: option.splits sum.splits prod.splits if_splits)
qed (auto simp: http_TransferData_def http_exchange_def)

end
