(* ===== verification/Opentsdb_Transport.thy ===== *)
theory Opentsdb_Transport
  imports Http_Transport
begin

text \<open>
  \<open>timeline/opentsdb.go\<close>: the OpenTSDB telnet transport.

  The \<open>net\<close> package is a parameter, a record with the operations that the code calls over a state
  \<open>'w\<close> of the outside world; connections are numbers. The fields of the transport that a transfer
  changes (the address and the connection) are grouped with the world in a \<open>tsdb_io\<close>, which is the
  world of the transport core. The two loops of the file may run for ever: they are
  \<open>partial_function\<close>s in the option monad and \<open>None\<close> stands for a loop that does not end.
\<close>

record OpenTSDBTransportConfig = DefaultTransportConfiguration +
  MaxReadTimeout :: int
  ReconnectionTimeout :: int

text \<open>The errors of a connection as the code tells them apart; the flag of a \<open>net.Error\<close> is \<open>Timeout()\<close>.\<close>

datatype conn_error = EOF | NetError bool | OtherError string

record 'w net_lib =
  nl_ResolveTCPAddr :: "'w \<Rightarrow> string \<Rightarrow> 'w \<times> (string + string)"
  nl_DialTCP :: "'w \<Rightarrow> string \<Rightarrow> 'w \<times> (string + nat)"
  nl_SetDeadline :: "'w \<Rightarrow> nat \<Rightarrow> 'w \<times> string option"
  nl_SetReadDeadline :: "'w \<Rightarrow> nat \<Rightarrow> int \<Rightarrow> 'w \<times> string option"
  nl_SetWriteDeadline :: "'w \<Rightarrow> nat \<Rightarrow> int \<Rightarrow> 'w \<times> string option"
  nl_Read :: "'w \<Rightarrow> nat \<Rightarrow> nat \<Rightarrow> 'w \<times> conn_error option"
  nl_Write :: "'w \<Rightarrow> nat \<Rightarrow> byte list \<Rightarrow> 'w \<times> conn_error option"
  nl_Close :: "'w \<Rightarrow> nat \<Rightarrow> 'w \<times> string option"
  nl_After :: "'w \<Rightarrow> int \<Rightarrow> 'w"

record 'w tsdb_io =
  io_address :: string
  io_connection :: "nat option"
  io_world :: 'w

record ('z, 'w) OpenTSDBTransport =
  ot_core :: "'w tsdb_io core"
  ot_configuration :: OpenTSDBTransportConfig
  ot_serializer :: 'z

definition NewOpenTSDBTransport ::
  "('z, tsdb_item) serializer \<Rightarrow> 'w \<Rightarrow> OpenTSDBTransportConfig option \<Rightarrow>
     (timeline_error, ('z, 'w) OpenTSDBTransport) res" where
  "NewOpenTSDBTransport ser w configuration =
     (case configuration of
        None \<Rightarrow> Err NullConfiguration
      | Some cf \<Rightarrow>
          (case Validate cf of
             Some err \<Rightarrow> Err err
           | None \<Rightarrow>
               if MaxReadTimeout cf \<le> 0 then Err (InvalidMaxReadTimeout (MaxReadTimeout cf))
               else if ReconnectionTimeout cf \<le> 0 then Err (InvalidReconnectionTimeout (ReconnectionTimeout cf))
               else Ok \<lparr>ot_core = new_core (nat (TransportBufferSize cf))
                                   \<lparr>io_address = [], io_connection = None, io_world = w\<rparr>,
                       ot_configuration = cf, ot_serializer = ser_New ser (SerializerBufferSize cf)\<rparr>))"

section \<open>Connecting\<close>

definition connect :: "'w net_lib \<Rightarrow> 'w tsdb_io \<Rightarrow> bool \<times> 'w tsdb_io" where
  "connect nl s =
     (case nl_DialTCP nl (io_world s) (io_address s) of
        (w, Inl _) \<Rightarrow> (False, s\<lparr>io_connection := None, io_world := w\<rparr>)
      | (w, Inr c) \<Rightarrow>
          (case nl_SetDeadline nl w c of
             (w, Some _) \<Rightarrow> (False, s\<lparr>io_connection := Some c, io_world := w\<rparr>)
           | (w, None) \<Rightarrow> (True, s\<lparr>io_connection := Some c, io_world := w\<rparr>)))"

partial_function (option) retryConnect ::
  "'w net_lib \<Rightarrow> OpenTSDBTransportConfig \<Rightarrow> 'w tsdb_io \<Rightarrow> 'w tsdb_io option" where
  "retryConnect nl cf s =
     (case connect nl s of
        (connected, s') \<Rightarrow>
          if connected then Some s'
          else retryConnect nl cf (s'\<lparr>io_world := nl_After nl (io_world s') (ReconnectionTimeout cf)\<rparr>))"

definition tsdb_ConfigureBackend ::
  "'w net_lib \<Rightarrow> ('z, 'w) OpenTSDBTransport \<Rightarrow> Backend option \<Rightarrow>
     (timeline_error, ('z, 'w) OpenTSDBTransport) res option" where
  "tsdb_ConfigureBackend nl t backend =
     (case backend of
        None \<Rightarrow> Some (Err NoBackend)
      | Some b \<Rightarrow>
          (let s = co_world (ot_core t)
           in case nl_ResolveTCPAddr nl (io_world s) (Host b @ '':'' @ itoa (Port b)) of
                (w, Inl err) \<Rightarrow> Some (Err (LibraryError err))
              | (w, Inr address) \<Rightarrow>
                  map_option (\<lambda>s'. Ok (t\<lparr>ot_core := (ot_core t)\<lparr>co_world := s'\<rparr>\<rparr>))
                    (retryConnect nl (ot_configuration t) (s\<lparr>io_address := address, io_world := w\<rparr>))))"

section \<open>Sending a batch\<close>

text \<open>\<open>Panic\<close>: a method is called on a nil connection.\<close>

definition writePayload ::
  "'w net_lib \<Rightarrow> OpenTSDBTransportConfig \<Rightarrow> 'w tsdb_io \<Rightarrow> string \<Rightarrow> (timeline_error, bool \<times> 'w tsdb_io) res" where
  "writePayload nl cf s payload =
     (case io_connection s of
        None \<Rightarrow> Panic
      | Some c \<Rightarrow>
          (case nl_SetReadDeadline nl (io_world s) c (MaxReadTimeout cf) of
             (w, Some _) \<Rightarrow> Ok (False, s\<lparr>io_world := w\<rparr>)
           | (w, None) \<Rightarrow>
               (case nl_Read nl w c 32 of
                  (w, err) \<Rightarrow>
                    if err = Some (NetError False) then Ok (False, s\<lparr>io_world := w\<rparr>)
                    else
                      (case nl_SetWriteDeadline nl w c (RequestTimeout cf) of
                         (w, Some _) \<Rightarrow> Ok (False, s\<lparr>io_world := w\<rparr>)
                       | (w, None) \<Rightarrow>
                           (case nl_Write nl w c (bytes_of_string payload) of
                              (w, Some _) \<Rightarrow> Ok (False, s\<lparr>io_world := w\<rparr>)
                            | (w, None) \<Rightarrow> Ok (True, s\<lparr>io_world := w\<rparr>))))))"

definition closeConnection :: "'w net_lib \<Rightarrow> 'w tsdb_io \<Rightarrow> (timeline_error, 'w tsdb_io) res" where
  "closeConnection nl s =
     (case io_connection s of
        None \<Rightarrow> Panic
      | Some c \<Rightarrow> Ok (s\<lparr>io_world := fst (nl_Close nl (io_world s) c), io_connection := None\<rparr>))"

text \<open>
  The loop of \<open>TransferData\<close>. The deferred \<open>recover\<close> turns a panic into a return with a nil error:
  the first component says whether the payload was written.
\<close>

partial_function (option) transfer_loop ::
  "'w net_lib \<Rightarrow> OpenTSDBTransportConfig \<Rightarrow> string \<Rightarrow> 'w tsdb_io \<Rightarrow> (bool \<times> 'w tsdb_io) option" where
  "transfer_loop nl cf payload s =
     (case writePayload nl cf s payload of
        Ok (written, s') \<Rightarrow>
          if written then Some (True, s')
          else
            (case closeConnection nl s' of
               Ok s' \<Rightarrow> Option.bind (retryConnect nl cf s') (transfer_loop nl cf payload)
             | _ \<Rightarrow> Some (False, s'))
      | _ \<Rightarrow> Some (False, s))"

fun cast_tsdb :: "channel_item list \<Rightarrow> tsdb_item list option" where
  "cast_tsdb [] = Some []"
| "cast_tsdb (TsdbItem x # xs) = map_option (Cons x) (cast_tsdb xs)"
| "cast_tsdb (_ # xs) = None"

definition tsdb_TransferData ::
  "('z, tsdb_item) serializer \<Rightarrow> 'w net_lib \<Rightarrow> 'z \<Rightarrow> OpenTSDBTransportConfig \<Rightarrow> 'w tsdb_io transfer" where
  "tsdb_TransferData ser nl z cf s dataList =
     (case cast_tsdb dataList of
        None \<Rightarrow> Some (s, Some CastingData)
      | Some points \<Rightarrow>
          (case ser_SerializeArray ser z points of
             Inl err \<Rightarrow> Some (s, Some (LibraryError err))
           | Inr payload \<Rightarrow> map_option (\<lambda>(_, s'). (s', None)) (transfer_loop nl cf payload s)))"

definition tsdb_MatchType :: "transportType \<Rightarrow> bool" where
  "tsdb_MatchType tt \<longleftrightarrow> tt = typeOpenTSDB"

section \<open>Conversion to and from flattener points\<close>

text \<open>The conversion writes the current time into the item it is given: the item is returned too.\<close>

definition tsdb_DataChannelItemToFlattenedPoint ::
  "64 word \<Rightarrow> flat_operation \<Rightarrow> channel_item \<Rightarrow> (timeline_error, FlattenerPoint \<times> channel_item) res" where
  "tsdb_DataChannelItemToFlattenedPoint now op inst =
     (case inst of
        TsdbItemPtr item \<Rightarrow>
          (let hashParameters = [VUint SUint8 (ucast op), VString (Metric item)] @ Tags item;
               item = (if sint (Timestamp item) \<le> 0 then item\<lparr>Timestamp := now\<rparr> else item)
           in Ok (\<lparr>point_data = \<lparr>operation = op, timestamp = Timestamp item, dataChannelItem = TsdbItem item\<rparr>,
                  hashParameters = hashParameters, point_value = Value item\<rparr>, TsdbItemPtr item))
      | _ \<Rightarrow> Err CastingInstance)"

definition tsdb_FlattenedPointToDataChannelItem :: "FlattenerPoint \<Rightarrow> (timeline_error, channel_item) res" where
  "tsdb_FlattenedPointToDataChannelItem point =
     (case dataChannelItem (point_data point) of
        TsdbItem item \<Rightarrow> Ok (TsdbItem (item\<lparr>Value := point_value point\<rparr>))
      | _ \<Rightarrow> Err CastingPointItem)"

definition tsdb_Start :: "('z, 'w) OpenTSDBTransport \<Rightarrow> ('z, 'w) OpenTSDBTransport" where
  "tsdb_Start t = t\<lparr>ot_core := core_Start (ot_core t)\<rparr>"

definition tsdb_Close :: "('z, 'w) OpenTSDBTransport \<Rightarrow> (timeline_error, ('z, 'w) OpenTSDBTransport) res" where
  "tsdb_Close t = res_bind (core_Close (ot_core t)) (\<lambda>c. Ok (t\<lparr>ot_core := c\<rparr>))"

definition tsdb_Serialize ::
  "('z, tsdb_item) serializer \<Rightarrow> ('z, 'w) OpenTSDBTransport \<Rightarrow> channel_item \<Rightarrow> string + string" where
  "tsdb_Serialize ser t item = ser_SerializeGeneric ser (ot_serializer t) item"

section \<open>The loops end when failures do\<close>

text \<open>
  A network fails finitely often when a rank of its states never grows and shrinks with every failed
  call (a read that ends in a timeout, in EOF or in an error that is no \<open>net.Error\<close> counts as no
  failure, as in the code).
\<close>

definition finitely_failing :: "'w net_lib \<Rightarrow> ('w \<Rightarrow> nat) \<Rightarrow> bool" where
  "finitely_failing nl r \<longleftrightarrow>
     (\<forall>w a. r (fst (nl_DialTCP nl w a)) + (case snd (nl_DialTCP nl w a) of Inl _ \<Rightarrow> 1 | Inr _ \<Rightarrow> 0) \<le> r w) \<and>
     (\<forall>w c. r (fst (nl_SetDeadline nl w c)) + (if snd (nl_SetDeadline nl w c) = None then 0 else 1) \<le> r w) \<and>
     (\<forall>w c d. r (fst (nl_SetReadDeadline nl w c d)) + (if snd (nl_SetReadDeadline nl w c d) = None then 0 else 1) \<le> r w) \<and>
     (\<forall>w c d. r (fst (nl_SetWriteDeadline nl w c d)) + (if snd (nl_SetWriteDeadline nl w c d) = None then 0 else 1) \<le> r w) \<and>
     (\<forall>w c n. r (fst (nl_Read nl w c n)) + (if snd (nl_Read nl w c n) = Some (NetError False) then 1 else 0) \<le> r w) \<and>
     (\<forall>w c b. r (fst (nl_Write nl w c b)) + (if snd (nl_Write nl w c b) = None then 0 else 1) \<le> r w) \<and>
     (\<forall>w c. r (fst (nl_Close nl w c)) \<le> r w) \<and>
     (\<forall>w d. r (nl_After nl w d) \<le> r w)"

lemma connect_rank:
  assumes "finitely_failing nl r"
  shows "r (io_world (snd (connect nl s))) + (if fst (connect nl s) then 0 else 1) \<le> r (io_world s)"
proof -
  obtain w x where d: "nl_DialTCP nl (io_world s) (io_address s) = (w, x)" by force
  have dial: "r w + (case x of Inl _ \<Rightarrow> 1 | Inr _ \<Rightarrow> 0) \<le> r (io_world s)"
    using assms unfolding finitely_failing_def by (metis d fst_conv snd_conv)
  show ?thesis
  proof (cases x)
    case (Inr c)
    obtain w' e where e: "nl_SetDeadline nl w c = (w', e)" by force
    have "r w' + (if e = None then 0 else 1) \<le> r w"
      using assms unfolding finitely_failing_def by (metis e fst_conv snd_conv)
    with dial Inr show ?thesis
      by (auto simp: connect_def d e split: option.splits)
  qed (use dial in \<open>simp add: connect_def d\<close>)
qed

lemma connect_connection: "connect nl s = (True, s') \<Longrightarrow> io_connection s' \<noteq> None"
  by (auto simp: connect_def split: prod.splits sum.splits option.splits)

lemma retryConnect_returns:
  assumes "finitely_failing nl r"
  shows "\<exists>s'. retryConnect nl cf s = Some s' \<and> io_connection s' \<noteq> None \<and> r (io_world s') \<le> r (io_world s)"
proof (induction "r (io_world s)" arbitrary: s rule: less_induct)
  case less
  obtain ok s1 where c: "connect nl s = (ok, s1)" by force
  have rank: "r (io_world s1) + (if ok then 0 else 1) \<le> r (io_world s)"
    using connect_rank [OF assms, of s] by (simp add: c)
  show ?case
  proof (cases ok)
    case True
    with c rank show ?thesis
      using connect_connection [of nl s s1] by (subst retryConnect.simps) simp
  next
    case False
    let ?s2 = "s1\<lparr>io_world := nl_After nl (io_world s1) (ReconnectionTimeout cf)\<rparr>"
    have "r (io_world ?s2) \<le> r (io_world s1)"
      using assms by (simp add: finitely_failing_def)
    with rank False less [of ?s2] show ?thesis
      by (subst retryConnect.simps) (auto simp: c)
  qed
qed

lemma writePayload_True:
  assumes "writePayload nl cf s payload = Ok (True, s')"
  shows "\<exists>c w. io_connection s = Some c \<and> io_connection s' = Some c \<and>
    nl_Write nl w c (bytes_of_string payload) = (io_world s', None)"
  using assms by (auto simp: writePayload_def split: option.splits prod.splits if_splits)

lemma writePayload_rank:
  assumes ff: "finitely_failing nl r" and "io_connection s = Some c"
  shows "\<exists>ok s'. writePayload nl cf s payload = Ok (ok, s') \<and> io_connection s' = Some c \<and>
    r (io_world s') + (if ok then 0 else 1) \<le> r (io_world s)"
proof -
  obtain w1 e1 where 1: "nl_SetReadDeadline nl (io_world s) c (MaxReadTimeout cf) = (w1, e1)" by force
  obtain w2 e2 where 2: "nl_Read nl w1 c 32 = (w2, e2)" by force
  obtain w3 e3 where 3: "nl_SetWriteDeadline nl w2 c (RequestTimeout cf) = (w3, e3)" by force
  obtain w4 e4 where 4: "nl_Write nl w3 c (bytes_of_string payload) = (w4, e4)" by force
  have "r w1 + (if e1 = None then 0 else 1) \<le> r (io_world s)"
    and "r w2 + (if e2 = Some (NetError False) then 1 else 0) \<le> r w1"
    and "r w3 + (if e3 = None then 0 else 1) \<le> r w2"
    and "r w4 + (if e4 = None then 0 else 1) \<le> r w3"
    using ff unfolding finitely_failing_def by (metis 1 2 3 4 fst_conv snd_conv)+
  with assms(2) show ?thesis
    by (auto simp: writePayload_def 1 2 3 4 split: option.splits if_splits)
qed

lemma transfer_loop_returns:
  assumes "finitely_failing nl r" and "io_connection s \<noteq> None"
  shows "\<exists>s' c w. transfer_loop nl cf payload s = Some (True, s') \<and> io_connection s' = Some c \<and>
    nl_Write nl w c (bytes_of_string payload) = (io_world s', None)"
  using assms(2)
proof (induction "r (io_world s)" arbitrary: s rule: less_induct)
  case less
  then obtain c where c: "io_connection s = Some c" by blast
  obtain ok s1 where w: "writePayload nl cf s payload = Ok (ok, s1)" "io_connection s1 = Some c"
      "r (io_world s1) + (if ok then 0 else 1) \<le> r (io_world s)"
    using writePayload_rank [OF assms(1) c] by blast
  show ?case
  proof (cases ok)
    case True
    with w(1) writePayload_True [of nl cf s payload s1] show ?thesis
      by (subst transfer_loop.simps) auto
  next
    case False
    obtain s3 where s3: "closeConnection nl s1 = Ok s3" "r (io_world s3) \<le> r (io_world s1)"
      using assms(1) by (auto simp: closeConnection_def w(2) finitely_failing_def)
    moreover obtain s2 where s2: "retryConnect nl cf s3 = Some s2" "io_connection s2 \<noteq> None"
        "r (io_world s2) \<le> r (io_world s3)"
      using retryConnect_returns [OF assms(1)] by blast
    ultimately have "r (io_world s2) < r (io_world s)"
      using w(3) False by simp
    from less.hyps [OF this s2(2)] show ?thesis
      using w(1) False s2(1) s3(1) by (subst transfer_loop.simps) simp
  qed
qed

text \<open>Whatever the network does: when the loop returns, the payload was written or the connection was nil.\<close>

definition transfer_outcome :: "'w net_lib \<Rightarrow> string \<Rightarrow> bool \<times> 'w tsdb_io \<Rightarrow> bool" where
  "transfer_outcome nl payload y \<longleftrightarrow>
     (if fst y
      then \<exists>c w. io_connection (snd y) = Some c \<and>
             nl_Write nl w c (bytes_of_string payload) = (io_world (snd y), None)
      else io_connection (snd y) = None)"

lemma transfer_loop_outcome:
  assumes "transfer_loop nl cf payload s = Some y"
  shows "transfer_outcome nl payload y"
  using assms
proof (rule transfer_loop.raw_induct [where P = "\<lambda>nl cf payload s y. transfer_outcome nl payload y", rotated])
  fix f :: "'a net_lib \<Rightarrow> OpenTSDBTransportConfig \<Rightarrow> string \<Rightarrow> 'a tsdb_io \<Rightarrow> (bool \<times> 'a tsdb_io) option"
  fix nl :: "'a net_lib" and cf payload s y
  assume IH: "\<And>nl cf payload s y. f nl cf payload s = Some y \<Longrightarrow> transfer_outcome nl payload y"
  assume eq: "(case writePayload nl cf s payload of
        Ok (written, s') \<Rightarrow>
          if written then Some (True, s')
          else
            (case closeConnection nl s' of
               Ok s' \<Rightarrow> Option.bind (retryConnect nl cf s') (f nl cf payload)
             | _ \<Rightarrow> Some (False, s'))
      | _ \<Rightarrow> Some (False, s)) = Some y"
  show "transfer_outcome nl payload y"
  proof (cases "writePayload nl cf s payload")
    case (Ok p)
    then obtain ok s' where p: "p = (ok, s')" by force
    show ?thesis
    proof (cases ok)
      case True
      with eq Ok p writePayload_True [of nl cf s payload s'] show ?thesis
        by (auto simp: transfer_outcome_def)
    next
      case False
      show ?thesis
      proof (cases "io_connection s'")
        case None
        with False eq Ok p show ?thesis
          by (auto simp: closeConnection_def transfer_outcome_def)
      next
        case (Some c)
        with False eq Ok p show ?thesis
          by (auto simp: closeConnection_def bind_eq_Some_conv intro: IH)
      qed
    qed
  next
    case (Err e)
    then show ?thesis by (auto simp: writePayload_def split: option.splits prod.splits if_splits)
  next
    case Panic
    with eq show ?thesis
      by (auto simp: transfer_outcome_def writePayload_def split: option.splits prod.splits if_splits)
  qed
qed

lemma cast_tsdb_map [simp]: "cast_tsdb (map TsdbItem ys) = Some ys"
  by (induction ys) auto

lemma cast_tsdb_Some: "cast_tsdb xs = Some ys \<longleftrightarrow> xs = map TsdbItem ys"
  by (induction xs arbitrary: ys rule: cast_tsdb.induct) auto

section \<open>Properties\<close>

text \<open>
  C4: on a network that fails finitely often, \<open>TransferData\<close> of a connected OpenTSDB transport
  returns, with no error, after the serialized batch was written without an error on the connection
  that the transport then holds: it reconnects and writes again as often as needed.
\<close>

theorem tsdb_TransferData_delivers:
  assumes "finitely_failing nl r" and "io_connection s \<noteq> None"
    and "ser_SerializeArray ser z points = Inr payload"
  shows "\<exists>s' c w. tsdb_TransferData ser nl z cf s (map TsdbItem points) = Some (s', None) \<and>
    io_connection s' = Some c \<and> nl_Write nl w c (bytes_of_string payload) = (io_world s', None)"
  using transfer_loop_returns [OF assms(1,2), of cf payload] assms(3)
  by (auto simp: tsdb_TransferData_def)

text \<open>A network on which the first \<open>n\<close> writes fail.\<close>

definition example_net :: "nat net_lib" where
  "example_net =
     \<lparr>nl_ResolveTCPAddr = (\<lambda>w a. (w, Inr a)), nl_DialTCP = (\<lambda>w a. (w, Inr 1)), nl_SetDeadline = (\<lambda>w c. (w, None)),
      nl_SetReadDeadline = (\<lambda>w c d. (w, None)), nl_SetWriteDeadline = (\<lambda>w c d. (w, None)),
      nl_Read = (\<lambda>w c n. (w, Some (NetError True))),
      nl_Write = (\<lambda>w c b. if w = 0 then (0, None) else (w - 1, Some EOF)),
      nl_Close = (\<lambda>w c. (w, None)), nl_After = (\<lambda>w d. w)\<rparr>"

definition example_tsdb_serializer :: "(unit, tsdb_item) serializer" where
  "example_tsdb_serializer =
     \<lparr>ser_New = (\<lambda>_. ()), ser_Add = (\<lambda>z _ _ _. (z, None)), ser_SerializeArray = (\<lambda>_ ps. Inr (concat (map Metric ps))),
      ser_SerializeGeneric = (\<lambda>_ _. Inr [])\<rparr>"

definition example_tsdb_config :: OpenTSDBTransportConfig where
  "example_tsdb_config =
     \<lparr>TransportBufferSize = 16, BatchSendInterval = 100, RequestTimeout = 1000, SerializerBufferSize = 64,
      MaxReadTimeout = 100, ReconnectionTimeout = 100\<rparr>"

theorem tsdb_TransferData_delivers_witness:
  "\<exists>s' c w. tsdb_TransferData example_tsdb_serializer example_net () example_tsdb_config
      \<lparr>io_address = ''a'', io_connection = Some 7, io_world = 3\<rparr>
      (map TsdbItem [\<lparr>Metric = ''m'', Tags = [], Timestamp = 1, Value = f64_of_int 1\<rparr>]) = Some (s', None) \<and>
    io_connection s' = Some c \<and> nl_Write example_net w c (bytes_of_string ''m'') = (io_world s', None)"
proof (rule tsdb_TransferData_delivers)
  show "finitely_failing example_net (\<lambda>w. w)"
    by (simp add: finitely_failing_def example_net_def)
qed (simp_all add: example_tsdb_serializer_def)

text \<open>
  Whatever the network does, when \<open>TransferData\<close> of an OpenTSDB transport reports no error then
  all items of the batch were OpenTSDB items, and either the serialized batch was written without an
  error on the connection that the transport now holds, or the transport has no connection.
\<close>

theorem tsdb_TransferData_no_error:
  assumes "tsdb_TransferData ser nl z cf s xs = Some (s', None)"
  shows "\<exists>points payload. xs = map TsdbItem points \<and> ser_SerializeArray ser z points = Inr payload \<and>
    ((\<exists>c w. io_connection s' = Some c \<and> nl_Write nl w c (bytes_of_string payload) = (io_world s', None)) \<or>
     io_connection s' = None)"
proof -
  from assms obtain points payload written where
      "cast_tsdb xs = Some points" "ser_SerializeArray ser z points = Inr payload"
      "transfer_loop nl cf payload s = Some (written, s')"
    by (auto simp: tsdb_TransferData_def split: option.splits sum.splits)
  with transfer_loop_outcome [of nl cf payload s "(written, s')"] show ?thesis
    by (auto simp: cast_tsdb_Some transfer_outcome_def split: if_splits)
qed

theorem tsdb_TransferData_no_error_witness:
  "\<exists>points payload. [] = map TsdbItem points \<and> ser_SerializeArray example_tsdb_serializer () points = Inr payload \<and>
    ((\<exists>c w. io_connection \<lparr>io_address = ''a'', io_connection = Some 7, io_world = 0\<rparr> = Some c \<and>
       nl_Write example_net w c (bytes_of_string payload) = (0, None)) \<or>
     io_connection \<lparr>io_address = ''a'', io_connection = Some 7, io_world = 0 :: nat\<rparr> = None)"
proof -
  let ?s = "\<lparr>io_address = ''a'', io_connection = Some 7, io_world = 0 :: nat\<rparr>"
  have "tsdb_TransferData example_tsdb_serializer example_net () example_tsdb_config ?s [] = Some (?s, None)"
    by (simp add: tsdb_TransferData_def example_tsdb_serializer_def transfer_loop.simps writePayload_def example_net_def)
  from tsdb_TransferData_no_error [OF this] show ?thesis by simp
qed

text \<open>
  On a transport whose backend was never configured, the panic on the nil connection is
  recovered and \<open>TransferData\<close> reports no error, although nothing was sent.
\<close>

theorem tsdb_nil_connection_no_error:
  assumes "io_connection s = None" and "ser_SerializeArray ser z points = Inr payload"
  shows "tsdb_TransferData ser nl z cf s (map TsdbItem points) = Some (s, None)"
  using assms by (simp add: tsdb_TransferData_def transfer_loop.simps writePayload_def)

theorem tsdb_nil_connection_no_error_witness:
  "tsdb_TransferData example_tsdb_serializer example_net () example_tsdb_config
     \<lparr>io_address = [], io_connection = None, io_world = 0\<rparr>
     (map TsdbItem [\<lparr>Metric = ''m'', Tags = [], Timestamp = 1, Value = f64_of_int 1\<rparr>]) =
   Some (\<lparr>io_address = [], io_connection = None, io_world = 0\<rparr>, None)"
  by (rule tsdb_nil_connection_no_error) (simp_all add: example_tsdb_serializer_def)

end
