(* ===== verification/Transport_Interface.thy ===== *)
theory Transport_Interface
  imports Opentsdb_Transport
begin

text \<open>
  The interface \<open>Transport\<close> of \<open>timeline/transport.go\<close>: a transport is one of the two implementations
  and every method of the interface dispatches on it. The libraries that the implementations call
  are collected in one record. The locale \<open>point_conversion\<close> is the contract the flattener relies
  on; both implementations satisfy it.
\<close>

record ('z, 'w) libs =
  lib_json :: "('z, json_item) serializer"
  lib_tsdb :: "('z, tsdb_item) serializer"
  lib_http :: "'w http_client"
  lib_net :: "'w net_lib"

datatype ('z, 'w) Transport =
    HTTPT "('z, 'w) HTTPTransport"
  | OpenTSDBT "('z, 'w) OpenTSDBTransport"

fun DataChannel :: "('z, 'w) Transport \<Rightarrow> channel_item chan" where
  "DataChannel (HTTPT t) = co_chan (ht_core t)"
| "DataChannel (OpenTSDBT t) = co_chan (ot_core t)"

fun with_channel :: "channel_item chan \<Rightarrow> ('z, 'w) Transport \<Rightarrow> ('z, 'w) Transport" where
  "with_channel c (HTTPT t) = HTTPT (t\<lparr>ht_core := (ht_core t)\<lparr>co_chan := c\<rparr>\<rparr>)"
| "with_channel c (OpenTSDBT t) = OpenTSDBT (t\<lparr>ot_core := (ot_core t)\<lparr>co_chan := c\<rparr>\<rparr>)"

fun ConfigureBackend ::
  "('z, 'w) libs \<Rightarrow> ('z, 'w) Transport \<Rightarrow> Backend option \<Rightarrow> (timeline_error, ('z, 'w) Transport) res option" where
  "ConfigureBackend l (HTTPT t) b = Some (res_bind (http_ConfigureBackend t b) (\<lambda>t'. Ok (HTTPT t')))"
| "ConfigureBackend l (OpenTSDBT t) b =
     map_option (\<lambda>r. res_bind r (\<lambda>t'. Ok (OpenTSDBT t'))) (tsdb_ConfigureBackend (lib_net l) t b)"

fun MatchType :: "('z, 'w) Transport \<Rightarrow> transportType \<Rightarrow> bool" where
  "MatchType (HTTPT t) tt = http_MatchType tt"
| "MatchType (OpenTSDBT t) tt = tsdb_MatchType tt"

fun DataChannelItemToFlattenedPoint ::
  "('z, 'w) Transport \<Rightarrow> 64 word \<Rightarrow> flat_operation \<Rightarrow> channel_item \<Rightarrow> (timeline_error, FlattenerPoint) res" where
  "DataChannelItemToFlattenedPoint (HTTPT t) now op item =
     http_DataChannelItemToFlattenedPoint (ht_configuration t) now op item"
| "DataChannelItemToFlattenedPoint (OpenTSDBT t) now op item =
     res_bind (tsdb_DataChannelItemToFlattenedPoint now op item) (\<lambda>(p, _). Ok p)"

fun FlattenedPointToDataChannelItem ::
  "('z, 'w) Transport \<Rightarrow> FlattenerPoint \<Rightarrow> (timeline_error, channel_item) res" where
  "FlattenedPointToDataChannelItem (HTTPT t) p = http_FlattenedPointToDataChannelItem (ht_configuration t) p"
| "FlattenedPointToDataChannelItem (OpenTSDBT t) p = tsdb_FlattenedPointToDataChannelItem p"

fun transport_Start :: "('z, 'w) Transport \<Rightarrow> ('z, 'w) Transport" where
  "transport_Start (HTTPT t) = HTTPT (http_Start t)"
| "transport_Start (OpenTSDBT t) = OpenTSDBT (tsdb_Start t)"

fun transport_Close :: "('z, 'w) Transport \<Rightarrow> (timeline_error, ('z, 'w) Transport) res" where
  "transport_Close (HTTPT t) = res_bind (http_Close t) (\<lambda>t'. Ok (HTTPT t'))"
| "transport_Close (OpenTSDBT t) = res_bind (tsdb_Close t) (\<lambda>t'. Ok (OpenTSDBT t'))"

fun Serialize :: "('z, 'w) libs \<Rightarrow> ('z, 'w) Transport \<Rightarrow> channel_item \<Rightarrow> string + string" where
  "Serialize l (HTTPT t) item = http_Serialize (lib_json l) t item"
| "Serialize l (OpenTSDBT t) item = tsdb_Serialize (lib_tsdb l) t item"

text \<open>One pass of the transfer loop of a transport, with its own \<open>TransferData\<close>.\<close>

fun transport_pass :: "('z, 'w) libs \<Rightarrow> ('z, 'w) Transport \<Rightarrow> ('z, 'w) Transport option" where
  "transport_pass l (HTTPT t) =
     map_option (\<lambda>c. HTTPT (t\<lparr>ht_core := c\<rparr>))
       (transferDataLoop
          (\<lambda>w xs. Some (http_TransferData (lib_json l) (lib_http l) (ht_serializer t) (ht_configuration t) (ht_serviceURL t) w xs))
          (ht_core t))"
| "transport_pass l (OpenTSDBT t) =
     map_option (\<lambda>c. OpenTSDBT (t\<lparr>ot_core := c\<rparr>))
       (transferDataLoop (tsdb_TransferData (lib_tsdb l) (lib_net l) (ot_serializer t) (ot_configuration t)) (ot_core t))"

text \<open>What a goroutine that sends to a channel does: it goes on, it waits, or it panics.\<close>

datatype 's outcome = Done 's | Waits 's | Panics

definition transport_send :: "channel_item \<Rightarrow> ('z, 'w) Transport \<Rightarrow> ('z, 'w) Transport outcome" where
  "transport_send x t =
     (case chan_send x (DataChannel t) of
        Sent c \<Rightarrow> Done (with_channel c t)
      | SendBlocks \<Rightarrow> Waits t
      | SendPanics \<Rightarrow> Panics)"

lemma DataChannel_with_channel [simp]: "DataChannel (with_channel c t) = c"
  by (cases t) simp_all

lemma with_channel_methods [simp]:
  "FlattenedPointToDataChannelItem (with_channel c t) = FlattenedPointToDataChannelItem t"
  "DataChannelItemToFlattenedPoint (with_channel c t) = DataChannelItemToFlattenedPoint t"
  "MatchType (with_channel c t) = MatchType t"
  "with_channel c (with_channel c' t) = with_channel c t"
  by (cases t; simp add: fun_eq_iff)+

lemma with_channel_id [simp]: "with_channel (DataChannel t) t = t"
  by (cases t) simp_all

lemma transport_send_Done:
  "transport_send x t = Done t' \<longleftrightarrow>
     \<not> ch_closed (DataChannel t) \<and> length (ch_buf (DataChannel t)) < ch_cap (DataChannel t) \<and>
     t' = with_channel ((DataChannel t)\<lparr>ch_buf := ch_buf (DataChannel t) @ [x]\<rparr>) t"
  by (auto simp: transport_send_def chan_send_def)

lemma transport_send_Panics: "transport_send x t = Panics \<longleftrightarrow> ch_closed (DataChannel t)"
  by (auto simp: transport_send_def chan_send_def)

lemma transport_Close_eq:
  "transport_Close t =
     (if ch_closed (DataChannel t) then Panic else Ok (with_channel ((DataChannel t)\<lparr>ch_closed := True\<rparr>) t))"
  by (cases t) (auto simp: http_Close_def tsdb_Close_def core_Close_def chan_close_def)

section \<open>The contract of the conversions\<close>

text \<open>
  What the flattener relies on: a converted point keeps the operation, and any point that carries the
  same data channel item can be converted back, whatever its value.
\<close>

locale point_conversion =
  fixes to_point :: "64 word \<Rightarrow> flat_operation \<Rightarrow> channel_item \<Rightarrow> (timeline_error, FlattenerPoint) res"
    and from_point :: "FlattenerPoint \<Rightarrow> (timeline_error, channel_item) res"
  assumes keeps_operation: "to_point now op item = Ok p \<Longrightarrow> operation (point_data p) = op"
    and converts_back:
      "to_point now op item = Ok p \<Longrightarrow> dataChannelItem (point_data q) = dataChannelItem (point_data p) \<Longrightarrow>
        \<exists>x. from_point q = Ok x"
begin

lemma converts_same_data:
  "to_point now op item = Ok p \<Longrightarrow> point_data q = point_data p \<Longrightarrow> \<exists>x. from_point q = Ok x"
  by (rule converts_back) simp_all

end

interpretation http_conv: point_conversion "http_DataChannelItemToFlattenedPoint cf" "http_FlattenedPointToDataChannelItem cf"
  for cf
  by unfold_locales
    (auto simp: http_DataChannelItemToFlattenedPoint_def http_FlattenedPointToDataChannelItem_def res_bind_Ok_iff
      split: channel_item.splits)

interpretation tsdb_conv: point_conversion
  "\<lambda>now op item. res_bind (tsdb_DataChannelItemToFlattenedPoint now op item) (\<lambda>(p, _). Ok p)"
  tsdb_FlattenedPointToDataChannelItem
  by unfold_locales
    (auto simp: tsdb_DataChannelItemToFlattenedPoint_def tsdb_FlattenedPointToDataChannelItem_def Let_def
      split: channel_item.splits)

interpretation transport_conv: point_conversion
  "DataChannelItemToFlattenedPoint t" "FlattenedPointToDataChannelItem t" for t
proof unfold_locales
  fix now op item p
  assume "DataChannelItemToFlattenedPoint t now op item = Ok p"
  then show "operation (point_data p) = op"
    using http_conv.keeps_operation tsdb_conv.keeps_operation by (cases t) auto
next
  fix now op item p and q :: FlattenerPoint
  assume "DataChannelItemToFlattenedPoint t now op item = Ok p"
    and "dataChannelItem (point_data q) = dataChannelItem (point_data p)"
  then show "\<exists>x. FlattenedPointToDataChannelItem t q = Ok x"
    using http_conv.converts_back tsdb_conv.converts_back by (cases t) auto
qed

end
