(* ===== verification/Sync_Map.thy ===== *)
theory Sync_Map
  imports Gobol_Prelude "HOL-Library.AList"
begin

text \<open>
  Go's \<open>sync.Map\<close> and the helper of \<open>util/collections.go\<close>.

  A map is the list of its entries in the order in which \<open>Range\<close> visits them; the order is
  arbitrary in Go, so no property may depend on it. \<open>Range\<close> works on the entries present when it
  starts: its callback may delete keys of the map it ranges over, as every caller in this library
  does.

  The locale \<open>sync_map_ops\<close> is the contract the components rely on (what a load returns after a
  store or a delete), with the lemmas they share: draining a map while ranging over it empties it,
  and the number of entries is the number of keys.
\<close>

type_synonym ('k, 'v) sync_map = "('k \<times> 'v) list"

definition sm_empty :: "('k, 'v) sync_map" where
  "sm_empty = []"

definition sm_load :: "('k, 'v) sync_map \<Rightarrow> 'k \<Rightarrow> 'v option" where
  "sm_load m k = map_of m k"

definition sm_store :: "'k \<Rightarrow> 'v \<Rightarrow> ('k, 'v) sync_map \<Rightarrow> ('k, 'v) sync_map" where
  "sm_store k v m = AList.update k v m"

definition sm_delete :: "'k \<Rightarrow> ('k, 'v) sync_map \<Rightarrow> ('k, 'v) sync_map" where
  "sm_delete k m = AList.delete k m"

text \<open>The callback returns whether the iteration goes on.\<close>

fun sm_range :: "('k \<Rightarrow> 'v \<Rightarrow> 's \<Rightarrow> 's \<times> bool) \<Rightarrow> ('k, 'v) sync_map \<Rightarrow> 's \<Rightarrow> 's" where
  "sm_range f [] s = s"
| "sm_range f ((k, v) # m) s = (case f k v s of (s', continue) \<Rightarrow> if continue then sm_range f m s' else s')"

definition sm_invar :: "('k, 'v) sync_map \<Rightarrow> bool" where
  "sm_invar m \<longleftrightarrow> distinct (map fst m)"

section \<open>util/collections.go\<close>

definition GetSyncMapSize :: "('k, 'v) sync_map \<Rightarrow> nat" where
  "GetSyncMapSize m = sm_range (\<lambda>_ _ length. (length + 1, True)) m 0"

section \<open>The contract of a concurrent map\<close>

locale sync_map_ops =
  fixes empty :: 'm
    and load :: "'m \<Rightarrow> 'k \<Rightarrow> 'v option"
    and store :: "'k \<Rightarrow> 'v \<Rightarrow> 'm \<Rightarrow> 'm"
    and delete :: "'k \<Rightarrow> 'm \<Rightarrow> 'm"
    and entries :: "'m \<Rightarrow> ('k \<times> 'v) list"
    and invar :: "'m \<Rightarrow> bool"
  assumes load_empty: "load empty = Map.empty"
    and load_store: "load (store k v m) = (load m)(k \<mapsto> v)"
    and load_delete: "load (delete k m) = (load m)(k := None)"
    and load_entries: "invar m \<Longrightarrow> map_of (entries m) = load m"
    and distinct_entries: "invar m \<Longrightarrow> distinct (map fst (entries m))"
    and invar_empty: "invar empty"
    and invar_store: "invar m \<Longrightarrow> invar (store k v m)"
    and invar_delete: "invar m \<Longrightarrow> invar (delete k m)"
begin

lemmas laws = load_empty load_store load_delete invar_empty invar_store invar_delete

lemma dom_entries: "invar m \<Longrightarrow> dom (load m) = fst ` set (entries m)"
  using load_entries [of m] dom_map_of_conv_image_fst [of "entries m"] by simp

lemma length_entries: "invar m \<Longrightarrow> length (entries m) = card (dom (load m))"
  using distinct_entries [of m] distinct_card [of "map fst (entries m)"]
  by (simp add: dom_entries)

lemma finite_dom_load: "invar m \<Longrightarrow> finite (dom (load m))"
  by (simp add: dom_entries)

lemma entry_load: "invar m \<Longrightarrow> (k, v) \<in> set (entries m) \<longleftrightarrow> load m k = Some v"
  using distinct_entries [of m] load_entries [of m] by (metis map_of_eq_Some_iff)

lemma load_delete_all: "load (fold delete ks m) = (\<lambda>k. if k \<in> set ks then None else load m k)"
  by (induction ks arbitrary: m) (auto simp: load_delete fun_eq_iff)

lemma invar_delete_all: "invar m \<Longrightarrow> invar (fold delete ks m)"
  by (induction ks arbitrary: m) (auto simp: invar_delete)

text \<open>Deleting each key while ranging over the map leaves it empty.\<close>

lemma drain: "invar m \<Longrightarrow> load (fold delete (map fst (entries m)) m) = Map.empty"
  using dom_entries [of m] by (auto simp: load_delete_all fun_eq_iff dom_def)

lemma drain_entries: "invar m \<Longrightarrow> entries (fold delete (map fst (entries m)) m) = []"
  using length_entries [of "fold delete (map fst (entries m)) m"] drain [of m]
  by (simp add: invar_delete_all)

lemma load_store_all: "load (fold (\<lambda>k. store k v) ks m) = (\<lambda>k. if k \<in> set ks then Some v else load m k)"
  by (induction ks arbitrary: m) (auto simp: load_store fun_eq_iff)

lemma invar_store_all: "invar m \<Longrightarrow> invar (fold (\<lambda>k. store k v) ks m)"
  by (induction ks arbitrary: m) (auto simp: invar_store)

lemma size_store:
  "invar m \<Longrightarrow> length (entries (store k v m)) =
     (if load m k = None then Suc (length (entries m)) else length (entries m))"
  by (simp add: length_entries invar_store load_store finite_dom_load domIff card_insert_if)

lemma size_delete:
  "invar m \<Longrightarrow> length (entries (delete k m)) =
     (if load m k = None then length (entries m) else length (entries m) - 1)"
  by (simp add: length_entries invar_delete load_delete finite_dom_load domIff card_Diff_singleton_if)

end

interpretation sm: sync_map_ops sm_empty sm_load sm_store sm_delete "\<lambda>m. m" sm_invar
  by unfold_locales
    (simp_all add: sm_empty_def sm_load_def sm_store_def sm_delete_def sm_invar_def fun_eq_iff
      update_conv' delete_conv' distinct_update distinct_delete)

lemmas sm_laws [simp] = sm.laws

lemma sm_store_new: "sm_load m k = None \<Longrightarrow> sm_store k v m = m @ [(k, v)]"
  unfolding sm_load_def sm_store_def by (induction m) (auto split: if_splits)

lemma set_update_subset: "set (AList.update k v m) \<subseteq> insert (k, v) (set m)"
  by (induction m) auto

lemma sm_delete_absent: "sm_load m k = None \<Longrightarrow> sm_delete k m = m"
  unfolding sm_load_def sm_delete_def by (simp add: map_of_eq_None_iff)

lemma sm_range_fold:
  "(\<And>k v s. snd (f k v s)) \<Longrightarrow> sm_range f m s = fold (\<lambda>(k, v). fst \<circ> f k v) m s"
  by (induction m arbitrary: s) (auto split: prod.split, metis snd_conv)

lemma GetSyncMapSize_length: "GetSyncMapSize m = length m"
proof -
  have "fold (\<lambda>_ n. n + 1) m n = n + length m" for n :: nat
    by (induction m arbitrary: n) auto
  then show ?thesis
    by (simp add: GetSyncMapSize_def sm_range_fold case_prod_unfold comp_def)
qed

lemmas GetSyncMapSize_simps = GetSyncMapSize_length sm.length_entries sm.size_store sm.size_delete

end
