(* ===== verification/Flattener.thy ===== *)
theory Flattener
  imports Transport_Interface Sync_Map
begin

text \<open>
  \<open>timeline/flattener.go\<close>: the flattener reduces the points of a series that arrive within one cycle
  to a single point.

  \<open>pointMap\<close> holds pointers to entries and \<open>Add\<close> appends to an entry through such a pointer while the
  cycle may hold the same pointer: entries live in a store (\<open>fl_entries\<close>, the address is the index)
  and the map holds addresses. \<open>fl_view\<close> reads the map through the store. One pass of the cycle is
  \<open>beginCycle\<close>; its two actions per entry, \<open>processEntry\<close> and the \<open>Delete\<close>, are functions of their
  own, so that what happens between them can be stated.
\<close>

record FlattenerConfig =
  CycleDuration :: int
  HashingAlgorithm :: string

record mapEntry =
  entry_data :: flattenerPointData
  entry_values :: "float64 list"

record ('z, 'w) Flattener =
  fl_configuration :: FlattenerConfig
  fl_pointMap :: "(string, nat) sync_map"
  fl_entries :: "mapEntry list"
  fl_terminateChan :: "unit chan"
  fl_transport :: "('z, 'w) Transport"
  fl_running :: bool

definition NewFlattener ::
  "('z, 'w) Transport option \<Rightarrow> FlattenerConfig \<Rightarrow> (timeline_error, ('z, 'w) Flattener) res" where
  "NewFlattener transport cf =
     (case transport of
        None \<Rightarrow> Err TransportRequired
      | Some t \<Rightarrow>
          Ok \<lparr>fl_configuration = cf, fl_pointMap = sm_empty, fl_entries = [], fl_terminateChan = chan_make 1,
              fl_transport = t, fl_running = False\<rparr>)"

definition flattener_Start :: "('z, 'w) Flattener \<Rightarrow> ('z, 'w) Flattener" where
  "flattener_Start f = f\<lparr>fl_running := True, fl_transport := transport_Start (fl_transport f)\<rparr>"

section \<open>Adding a point\<close>

fun lift_hash :: "byte list hres \<Rightarrow> (timeline_error, byte list) res" where
  "lift_hash (Ok b) = Ok b"
| "lift_hash (Err e) = Err (HashingError e)"
| "lift_hash Panic = Panic"

definition point_key :: "'s hash_lib \<Rightarrow> FlattenerConfig \<Rightarrow> FlattenerPoint \<Rightarrow> (timeline_error, string) res" where
  "point_key h cf point =
     res_bind (lift_hash (Generate h (HashingAlgorithm cf) (hashParameters point))) (\<lambda>hash. Ok (hex_encode hash))"

definition Add ::
  "'s hash_lib \<Rightarrow> ('z, 'w) Flattener \<Rightarrow> FlattenerPoint \<Rightarrow> (timeline_error, ('z, 'w) Flattener) res" where
  "Add h f point =
     res_bind (point_key h (fl_configuration f) point) (\<lambda>key.
       case sm_load (fl_pointMap f) key of
         Some a \<Rightarrow>
           Ok (f\<lparr>fl_entries := (fl_entries f)[a := (fl_entries f ! a)
                  \<lparr>entry_values := entry_values (fl_entries f ! a) @ [point_value point]\<rparr>]\<rparr>)
       | None \<Rightarrow>
           Ok (f\<lparr>fl_entries := fl_entries f @
                   [\<lparr>entry_data = \<lparr>operation = operation (point_data point), timestamp = timestamp (point_data point),
                       dataChannelItem = dataChannelItem (point_data point)\<rparr>,
                     entry_values = [point_value point]\<rparr>],
                fl_pointMap := sm_store key (length (fl_entries f)) (fl_pointMap f)\<rparr>))"

section \<open>Flattening\<close>

definition sum_values :: "float64 list \<Rightarrow> float64" where
  "sum_values vs = fold (\<lambda>v flatValue. f64_add flatValue v) vs (f64_make False 0)"

fun min_values :: "float64 \<Rightarrow> float64 list \<Rightarrow> float64" where
  "min_values flatValue [] = flatValue"
| "min_values flatValue (v # vs) = min_values (if f64_lt v flatValue then v else flatValue) vs"

fun max_values :: "float64 \<Rightarrow> float64 list \<Rightarrow> float64" where
  "max_values flatValue [] = flatValue"
| "max_values flatValue (v # vs) = max_values (if f64_lt flatValue v then v else flatValue) vs"

definition flat_value :: "flat_operation \<Rightarrow> float64 list \<Rightarrow> (timeline_error, float64) res" where
  "flat_value op values =
     (if op = Avg_op then Ok (f64_div (sum_values values) (f64_of_int (int (length values))))
      else if op = Sum_op then Ok (sum_values values)
      else if op = Count_op then Ok (f64_of_int (int (length values)))
      else if op = Min_op then (case values of [] \<Rightarrow> Panic | v # vs \<Rightarrow> Ok (min_values v vs))
      else if op = Max_op then (case values of [] \<Rightarrow> Panic | v # vs \<Rightarrow> Ok (max_values v vs))
      else Err (OperationNotMapped op))"

definition flatten :: "mapEntry \<Rightarrow> (timeline_error, FlattenerPoint) res" where
  "flatten entry =
     res_bind (flat_value (operation (entry_data entry)) (entry_values entry)) (\<lambda>flatValue.
       Ok \<lparr>point_data = entry_data entry, hashParameters = [], point_value = flatValue\<rparr>)"

text \<open>The item that is sent for an entry; an error is logged and nothing is sent.\<close>

definition entry_item :: "('z, 'w) Transport \<Rightarrow> mapEntry \<Rightarrow> (timeline_error, channel_item) res" where
  "entry_item t entry = res_bind (flatten entry) (FlattenedPointToDataChannelItem t)"

definition processEntry :: "('z, 'w) Flattener \<Rightarrow> nat \<Rightarrow> ('z, 'w) Flattener outcome" where
  "processEntry f a =
     (case entry_item (fl_transport f) (fl_entries f ! a) of
        Err _ \<Rightarrow> Done f
      | Panic \<Rightarrow> Panics
      | Ok item \<Rightarrow>
          (case transport_send item (fl_transport f) of
             Done t \<Rightarrow> Done (f\<lparr>fl_transport := t\<rparr>)
           | Waits t \<Rightarrow> Waits f
           | Panics \<Rightarrow> Panics))"

definition delete_key :: "string \<Rightarrow> ('z, 'w) Flattener \<Rightarrow> ('z, 'w) Flattener" where
  "delete_key k f = f\<lparr>fl_pointMap := sm_delete k (fl_pointMap f)\<rparr>"

text \<open>\<open>pointMap.Range\<close> with the callback of the cycle. A send that waits stops the pass there.\<close>

fun range_entries :: "(string, nat) sync_map \<Rightarrow> ('z, 'w) Flattener \<Rightarrow> ('z, 'w) Flattener outcome" where
  "range_entries [] f = Done f"
| "range_entries ((k, a) # m) f =
     (case processEntry f a of
        Done f' \<Rightarrow> range_entries m (delete_key k f')
      | Waits f' \<Rightarrow> Waits f'
      | Panics \<Rightarrow> Panics)"

text \<open>One pass of the cycle, after the cycle duration has elapsed.\<close>

definition beginCycle :: "('z, 'w) Flattener \<Rightarrow> ('z, 'w) Flattener outcome" where
  "beginCycle f =
     (case chan_recv (fl_terminateChan f) of
        Received _ c \<Rightarrow> Done (f\<lparr>fl_terminateChan := c, fl_running := False\<rparr>)
      | _ \<Rightarrow> range_entries (fl_pointMap f) f)"

text \<open>\<open>Close\<close>: first the transport, then the signal to the cycle (a second one waits for the first).\<close>

definition flattener_Close :: "('z, 'w) Flattener \<Rightarrow> ('z, 'w) Flattener outcome" where
  "flattener_Close f =
     (case transport_Close (fl_transport f) of
        Ok t \<Rightarrow>
          (case chan_send () (fl_terminateChan f) of
             Sent c \<Rightarrow> Done (f\<lparr>fl_transport := t, fl_terminateChan := c\<rparr>)
           | SendBlocks \<Rightarrow> Waits (f\<lparr>fl_transport := t\<rparr>)
           | SendPanics \<Rightarrow> Panics)
      | _ \<Rightarrow> Panics)"

section \<open>The map read through the store\<close>

definition fl_view :: "('z, 'w) Flattener \<Rightarrow> (string \<times> mapEntry) list" where
  "fl_view f = map (\<lambda>(k, a). (k, fl_entries f ! a)) (fl_pointMap f)"

text \<open>Keys are unique, every address is allocated, no two keys share an entry, no entry is empty.\<close>

definition fl_wf :: "('z, 'w) Flattener \<Rightarrow> bool" where
  "fl_wf f \<longleftrightarrow>
     sm_invar (fl_pointMap f) \<and> distinct (map snd (fl_pointMap f)) \<and>
     (\<forall>(k, a) \<in> set (fl_pointMap f). a < length (fl_entries f)) \<and>
     (\<forall>(k, e) \<in> set (fl_view f). entry_values e \<noteq> [])"

text \<open>What adding a point does to the view: a new last entry, or one more value in its entry.\<close>

definition add_view :: "string \<Rightarrow> FlattenerPoint \<Rightarrow> (string \<times> mapEntry) list \<Rightarrow> (string \<times> mapEntry) list" where
  "add_view k p m =
     (case map_of m k of
        None \<Rightarrow> m @ [(k, \<lparr>entry_data = point_data p, entry_values = [point_value p]\<rparr>)]
      | Some e \<Rightarrow> AList.update k (e\<lparr>entry_values := entry_values e @ [point_value p]\<rparr>) m)"

lemma map_of_view: "map_of (fl_view f) k = map_option (\<lambda>a. fl_entries f ! a) (sm_load (fl_pointMap f) k)"
  unfolding fl_view_def sm_load_def by (induction "fl_pointMap f" arbitrary: f) (auto simp: map_of_map)

lemma map_update_nth:
  assumes "distinct (map fst m)" and "distinct (map snd m)" and "map_of m k = Some a"
    and "\<forall>(k, a) \<in> set m. a < length es"
  shows "map (\<lambda>(k, b). (k, es[a := e] ! b)) m = AList.update k e (map (\<lambda>(k, a). (k, es ! a)) m)"
  using assms
proof (induction m)
  case (Cons kb m)
  obtain k' b where kb: "kb = (k', b)" by (cases kb)
  show ?case
  proof (cases "k' = k")
    case True
    then have "a = b" and "b \<notin> snd ` set m"
      using Cons.prems kb by (auto simp: image_iff)
    then have "map (\<lambda>(k, c). (k, es[b := e] ! c)) m = map (\<lambda>(k, c). (k, es ! c)) m"
      by (auto simp: image_iff nth_list_update)
    with True \<open>a = b\<close> kb Cons.prems(4) show ?thesis by simp
  next
    case False
    then have "a \<noteq> b"
      using Cons.prems kb by (auto dest!: map_of_SomeD simp: image_iff)
    with False Cons kb show ?thesis by simp
  qed
qed simp

lemma Add_unfold:
  assumes "point_key h (fl_configuration f) p = Ok k"
  shows "Add h f p = Ok (case sm_load (fl_pointMap f) k of
      Some a \<Rightarrow> f\<lparr>fl_entries := (fl_entries f)[a := (fl_entries f ! a)\<lparr>entry_values := entry_values (fl_entries f ! a) @ [point_value p]\<rparr>]\<rparr>
    | None \<Rightarrow> f\<lparr>fl_entries := fl_entries f @ [\<lparr>entry_data = point_data p, entry_values = [point_value p]\<rparr>],
                fl_pointMap := sm_store k (length (fl_entries f)) (fl_pointMap f)\<rparr>)"
  using assms by (simp add: Add_def split: option.split)

lemma fl_view_new:
  assumes "fl_wf f" and "sm_load (fl_pointMap f) k = None"
  shows "fl_view (f\<lparr>fl_entries := fl_entries f @ [e], fl_pointMap := sm_store k (length (fl_entries f)) (fl_pointMap f)\<rparr>) =
    fl_view f @ [(k, e)]"
proof -
  have "sm_store k (length (fl_entries f)) (fl_pointMap f) = fl_pointMap f @ [(k, length (fl_entries f))]"
    using assms(2) by (rule sm_store_new)
  with assms(1) show ?thesis
    by (auto simp: fl_view_def fl_wf_def nth_append)
qed

lemma fl_view_append:
  assumes "fl_wf f" and "sm_load (fl_pointMap f) k = Some a"
  shows "fl_view (f\<lparr>fl_entries := (fl_entries f)[a := e]\<rparr>) = AList.update k e (fl_view f)"
  using assms map_update_nth [of "fl_pointMap f" k a "fl_entries f" e]
  by (simp add: fl_view_def fl_wf_def sm_invar_def sm_load_def)

lemma Add_view:
  assumes "fl_wf f" and "point_key h (fl_configuration f) p = Ok k"
  obtains f' where "Add h f p = Ok f'" "fl_view f' = add_view k p (fl_view f)" "fl_wf f'"
    "fl_transport f' = fl_transport f" "fl_configuration f' = fl_configuration f"
    "fl_terminateChan f' = fl_terminateChan f"
proof (cases "sm_load (fl_pointMap f) k")
  case None
  let ?e = "\<lparr>entry_data = point_data p, entry_values = [point_value p]\<rparr>"
  let ?f = "f\<lparr>fl_entries := fl_entries f @ [?e], fl_pointMap := sm_store k (length (fl_entries f)) (fl_pointMap f)\<rparr>"
  have map: "sm_store k (length (fl_entries f)) (fl_pointMap f) = fl_pointMap f @ [(k, length (fl_entries f))]"
    using None by (rule sm_store_new)
  have v: "fl_view ?f = fl_view f @ [(k, ?e)]"
    using fl_view_new [OF assms(1) None] .
  have "fl_wf ?f"
    using assms(1) None unfolding fl_wf_def v
    by (auto simp: map sm_invar_def sm_load_def map_of_eq_None_iff less_Suc_eq)
  then show ?thesis
    using that [of ?f] v None by (simp add: Add_unfold [OF assms(2)] add_view_def map_of_view)
next
  case (Some a)
  let ?e = "(fl_entries f ! a)\<lparr>entry_values := entry_values (fl_entries f ! a) @ [point_value p]\<rparr>"
  let ?f = "f\<lparr>fl_entries := (fl_entries f)[a := ?e]\<rparr>"
  have v: "fl_view ?f = AList.update k ?e (fl_view f)"
    using fl_view_append [OF assms(1) Some] .
  have "set (AList.update k ?e (fl_view f)) \<subseteq> insert (k, ?e) (set (fl_view f))"
    by (rule set_update_subset)
  then have "fl_wf ?f"
    using assms(1) unfolding fl_wf_def v by auto
  then show ?thesis
    using that [of ?f] v Some by (simp add: Add_unfold [OF assms(2)] add_view_def map_of_view)
qed

section \<open>One pass of the cycle\<close>

lemma flat_value_not_Panic: "vs \<noteq> [] \<Longrightarrow> flat_value op vs \<noteq> Panic"
  by (cases vs) (simp_all add: flat_value_def)

lemma FlattenedPointToDataChannelItem_not_Panic: "FlattenedPointToDataChannelItem t p \<noteq> Panic"
  by (cases t)
    (simp_all add: http_FlattenedPointToDataChannelItem_def tsdb_FlattenedPointToDataChannelItem_def
      split: channel_item.split)

lemma entry_item_not_Panic: "entry_values e \<noteq> [] \<Longrightarrow> entry_item t e \<noteq> Panic"
  using flat_value_not_Panic [of "entry_values e" "operation (entry_data e)"] FlattenedPointToDataChannelItem_not_Panic
  by (cases "flat_value (operation (entry_data e)) (entry_values e)") (simp_all add: entry_item_def flatten_def)

lemma entry_item_with_channel [simp]: "entry_item (with_channel c t) e = entry_item t e"
  by (simp add: entry_item_def)

fun ok_items :: "(timeline_error, 'a) res list \<Rightarrow> 'a list" where
  "ok_items [] = []"
| "ok_items (Ok x # rs) = x # ok_items rs"
| "ok_items (_ # rs) = ok_items rs"

lemma length_ok_items: "length (ok_items rs) \<le> length rs"
  by (induction rs rule: ok_items.induct) auto

lemma ok_items_Ok: "ok_items (map Ok xs) = xs"
  by (induction xs) auto

lemma ok_items_all: "\<forall>r\<in>set rs. \<exists>x. r = Ok x \<Longrightarrow> map Ok (ok_items rs) = rs"
  by (induction rs rule: ok_items.induct) auto

text \<open>The items of a pass over the entries \<open>m\<close>, and the transport after they have been sent.\<close>

definition pass_items :: "('z, 'w) Flattener \<Rightarrow> (string, nat) sync_map \<Rightarrow> channel_item list" where
  "pass_items f m = ok_items (map (\<lambda>(k, a). entry_item (fl_transport f) (fl_entries f ! a)) m)"

definition sent_all :: "channel_item list \<Rightarrow> ('z, 'w) Transport \<Rightarrow> ('z, 'w) Transport" where
  "sent_all xs t = with_channel ((DataChannel t)\<lparr>ch_buf := ch_buf (DataChannel t) @ xs\<rparr>) t"

lemma sent_all_simps [simp]:
  "DataChannel (sent_all xs t) = (DataChannel t)\<lparr>ch_buf := ch_buf (DataChannel t) @ xs\<rparr>"
  "entry_item (sent_all xs t) = entry_item t"
  "sent_all [] t = t"
  "sent_all ys (sent_all xs t) = sent_all (xs @ ys) t"
  by (simp_all add: sent_all_def fun_eq_iff)

lemma processEntry_Done:
  assumes "entry_item (fl_transport f) (fl_entries f ! a) \<noteq> Panic"
    and "\<not> ch_closed (DataChannel (fl_transport f))"
    and "length (ch_buf (DataChannel (fl_transport f))) < ch_cap (DataChannel (fl_transport f))"
  shows "processEntry f a = Done (f\<lparr>fl_transport := sent_all (pass_items f [(k, a)]) (fl_transport f)\<rparr>)"
  using assms
  by (cases "entry_item (fl_transport f) (fl_entries f ! a)")
    (simp_all add: processEntry_def pass_items_def sent_all_def transport_send_def chan_send_def)

lemma pass_items_Cons: "pass_items f (ka # m) = pass_items f [ka] @ pass_items f m"
  by (cases "case ka of (k, a) \<Rightarrow> entry_item (fl_transport f) (fl_entries f ! a)") (simp_all add: pass_items_def)

lemma range_entries_Done:
  assumes "\<forall>(k, a) \<in> set m. entry_item (fl_transport f) (fl_entries f ! a) \<noteq> Panic"
    and "\<not> ch_closed (DataChannel (fl_transport f))"
    and "length (ch_buf (DataChannel (fl_transport f))) + length m \<le> ch_cap (DataChannel (fl_transport f))"
  shows "range_entries m f = Done (f\<lparr>fl_transport := sent_all (pass_items f m) (fl_transport f),
    fl_pointMap := fold sm_delete (map fst m) (fl_pointMap f)\<rparr>)"
  using assms
proof (induction m arbitrary: f)
  case Nil
  then show ?case by (simp add: pass_items_def)
next
  case (Cons ka m)
  obtain k a where ka: "ka = (k, a)" by (cases ka)
  let ?f = "delete_key k (f\<lparr>fl_transport := sent_all (pass_items f [(k, a)]) (fl_transport f)\<rparr>)"
  have p: "processEntry f a = Done (f\<lparr>fl_transport := sent_all (pass_items f [(k, a)]) (fl_transport f)\<rparr>)"
    using Cons.prems ka by (intro processEntry_Done) auto
  have len: "length (pass_items f [(k, a)]) \<le> 1"
    using length_ok_items [of "map (\<lambda>(k, a). entry_item (fl_transport f) (fl_entries f ! a)) [(k, a)]"]
    by (simp add: pass_items_def)
  have "range_entries m ?f = Done (?f\<lparr>fl_transport := sent_all (pass_items ?f m) (fl_transport ?f),
    fl_pointMap := fold sm_delete (map fst m) (fl_pointMap ?f)\<rparr>)"
    using Cons.prems len by (intro Cons.IH) (auto simp: ka delete_key_def)
  moreover have "pass_items ?f m = pass_items f m"
    by (simp add: pass_items_def delete_key_def)
  ultimately show ?case
    using pass_items_Cons [of f "(k, a)" m] by (simp add: ka p delete_key_def)
qed

lemma fold_delete_all: "sm_invar m \<Longrightarrow> fold sm_delete (map fst m) m = []"
  using sm.drain_entries [of m] by simp

lemma beginCycle_Done:
  assumes "fl_wf f" and "ch_buf (fl_terminateChan f) = []"
    and "\<not> ch_closed (DataChannel (fl_transport f))"
    and "length (fl_pointMap f) \<le> chan_room (DataChannel (fl_transport f))"
  shows "beginCycle f = Done (f\<lparr>fl_pointMap := [],
    fl_transport := sent_all (ok_items (map (\<lambda>(k, e). entry_item (fl_transport f) e) (fl_view f))) (fl_transport f)\<rparr>)"
proof (cases "fl_pointMap f = []")
  case True
  with assms(2) show ?thesis
    by (cases f) (simp add: beginCycle_def chan_recv_def fl_view_def)
next
  case False
  have "entry_values (fl_entries f ! a) \<noteq> []" if "(k, a) \<in> set (fl_pointMap f)" for k a
    using assms(1) that by (fastforce simp: fl_wf_def fl_view_def)
  then have "\<forall>(k, a) \<in> set (fl_pointMap f). entry_item (fl_transport f) (fl_entries f ! a) \<noteq> Panic"
    using entry_item_not_Panic by blast
  moreover have "length (ch_buf (DataChannel (fl_transport f))) + length (fl_pointMap f) \<le> ch_cap (DataChannel (fl_transport f))"
    using assms(3,4) False by (cases "fl_pointMap f") (auto simp: chan_room_def)
  moreover have "map (\<lambda>(k, a). entry_item (fl_transport f) (fl_entries f ! a)) (fl_pointMap f) =
      map (\<lambda>(k, e). entry_item (fl_transport f) e) (fl_view f)"
    by (auto simp: fl_view_def)
  ultimately show ?thesis
    using assms(1,2,3) range_entries_Done [of "fl_pointMap f" f]
    by (simp add: beginCycle_def chan_recv_def fl_wf_def fold_delete_all pass_items_def)
qed

section \<open>The values\<close>

lemma min_values_least:
  assumes "\<not> f64_is_nan m" and "\<forall>v\<in>set vs. \<not> f64_is_nan v"
  shows "min_values m vs \<in> insert m (set vs) \<and> (\<forall>v\<in>insert m (set vs). \<not> f64_lt v (min_values m vs))"
  using assms
proof (induction vs arbitrary: m)
  case (Cons v vs)
  let ?m = "if f64_lt v m then v else m"
  have IH: "min_values ?m vs \<in> insert ?m (set vs)" "\<forall>x\<in>insert ?m (set vs). \<not> f64_lt x (min_values ?m vs)"
    using Cons.IH [of ?m] Cons.prems by auto
  moreover have "\<not> f64_lt m ?m" "\<not> f64_lt v ?m"
    using f64_lt_asym by auto
  then have "\<not> f64_lt m (min_values ?m vs)" "\<not> f64_lt v (min_values ?m vs)"
    using f64_not_lt_trans [of ?m m "min_values ?m vs"] f64_not_lt_trans [of ?m v "min_values ?m vs"] IH(2) Cons.prems
    by (auto split: if_splits)
  ultimately show ?case by (auto split: if_splits)
qed simp

lemma max_values_greatest:
  assumes "\<not> f64_is_nan m" and "\<forall>v\<in>set vs. \<not> f64_is_nan v"
  shows "max_values m vs \<in> insert m (set vs) \<and> (\<forall>v\<in>insert m (set vs). \<not> f64_lt (max_values m vs) v)"
  using assms
proof (induction vs arbitrary: m)
  case (Cons v vs)
  let ?m = "if f64_lt m v then v else m"
  have IH: "max_values ?m vs \<in> insert ?m (set vs)" "\<forall>x\<in>insert ?m (set vs). \<not> f64_lt (max_values ?m vs) x"
    using Cons.IH [of ?m] Cons.prems by auto
  moreover have "\<not> f64_lt ?m m" "\<not> f64_lt ?m v"
    using f64_lt_asym by auto
  then have "\<not> f64_lt (max_values ?m vs) m" "\<not> f64_lt (max_values ?m vs) v"
    using f64_not_lt_trans [of ?m "max_values ?m vs" m] f64_not_lt_trans [of ?m "max_values ?m vs" v] IH(2) Cons.prems
    by (auto split: if_splits)
  ultimately show ?case by (auto split: if_splits)
qed simp

lemma min_values_exact:
  assumes "\<forall>j\<in>insert i (set ns). f64_exact_int j"
  shows "min_values (f64_of_int i) (map f64_of_int ns) = f64_of_int (Min (insert i (set ns)))"
  using assms
proof (induction ns arbitrary: i)
  case (Cons j ns)
  have "(if f64_lt (f64_of_int j) (f64_of_int i) then f64_of_int j else f64_of_int i) = f64_of_int (min i j)"
    using Cons.prems by (auto simp: f64_lt_of_int min_def)
  moreover have "Min (insert (min i j) (set ns)) = Min (insert i (insert j (set ns)))"
    by (cases "set ns = {}") (simp_all add: min.assoc)
  moreover have "f64_exact_int (min i j)"
    using Cons.prems by (simp add: min_def)
  ultimately show ?case
    using Cons.IH [of "min i j"] Cons.prems by simp
qed simp

lemma max_values_exact:
  assumes "\<forall>j\<in>insert i (set ns). f64_exact_int j"
  shows "max_values (f64_of_int i) (map f64_of_int ns) = f64_of_int (Max (insert i (set ns)))"
  using assms
proof (induction ns arbitrary: i)
  case (Cons j ns)
  have "(if f64_lt (f64_of_int i) (f64_of_int j) then f64_of_int j else f64_of_int i) = f64_of_int (max i j)"
    using Cons.prems by (auto simp: f64_lt_of_int max_def)
  moreover have "Max (insert (max i j) (set ns)) = Max (insert i (insert j (set ns)))"
    by (cases "set ns = {}") (simp_all add: max.assoc)
  moreover have "f64_exact_int (max i j)"
    using Cons.prems by (simp add: max_def)
  ultimately show ?case
    using Cons.IH [of "max i j"] Cons.prems by simp
qed simp

section \<open>Points grouped by series\<close>

definition first_keys :: "(string \<times> FlattenerPoint) list \<Rightarrow> string list" where
  "first_keys kps = rev (remdups (rev (map fst kps)))"

definition series :: "(string \<times> FlattenerPoint) list \<Rightarrow> string \<Rightarrow> FlattenerPoint list" where
  "series kps k = map snd (filter (\<lambda>kp. fst kp = k) kps)"

text \<open>The entry of a series: the data of its first point, the values of all of them in order.\<close>

definition series_entry :: "(string \<times> FlattenerPoint) list \<Rightarrow> string \<Rightarrow> mapEntry" where
  "series_entry kps k =
     \<lparr>entry_data = point_data (hd (series kps k)), entry_values = map point_value (series kps k)\<rparr>"

definition grouped :: "(string \<times> FlattenerPoint) list \<Rightarrow> (string \<times> mapEntry) list" where
  "grouped kps = map (\<lambda>k. (k, series_entry kps k)) (first_keys kps)"

lemma set_first_keys [simp]: "set (first_keys kps) = fst ` set kps"
  by (simp add: first_keys_def)

lemma distinct_first_keys [simp]: "distinct (first_keys kps)"
  by (simp add: first_keys_def)

lemma first_keys_snoc:
  "first_keys (kps @ [(k, p)]) = (if k \<in> fst ` set kps then first_keys kps else first_keys kps @ [k])"
  by (auto simp: first_keys_def)

lemma series_snoc: "series (kps @ [(k, p)]) k' = (if k' = k then series kps k @ [p] else series kps k')"
  by (simp add: series_def)

lemma series_empty: "series kps k = [] \<longleftrightarrow> k \<notin> fst ` set kps"
  by (auto simp: series_def filter_empty_conv)

lemma update_map_pairs:
  "k \<in> set ks \<Longrightarrow> distinct ks \<Longrightarrow> AList.update k v (map (\<lambda>k. (k, g k)) ks) = map (\<lambda>k'. (k', if k' = k then v else g k')) ks"
  by (induction ks) (auto intro!: map_cong)

lemma map_of_pairs: "map_of (map (\<lambda>k. (k, g k)) ks) k = (if k \<in> set ks then Some (g k) else None)"
  by (induction ks) auto

lemma add_view_grouped: "add_view k p (grouped kps) = grouped (kps @ [(k, p)])"
proof (cases "k \<in> fst ` set kps")
  case True
  then have "series kps k \<noteq> []" by (simp add: series_empty)
  then have "map (\<lambda>k'. (k', if k' = k
        then (series_entry kps k)\<lparr>entry_values := entry_values (series_entry kps k) @ [point_value p]\<rparr>
        else series_entry kps k')) (first_keys kps) =
      map (\<lambda>k'. (k', series_entry (kps @ [(k, p)]) k')) (first_keys kps)"
    by (intro map_cong) (simp_all add: series_entry_def series_snoc)
  with True show ?thesis
    by (simp add: add_view_def grouped_def map_of_pairs update_map_pairs first_keys_snoc)
next
  case False
  then have "map (\<lambda>k'. (k', series_entry kps k')) (first_keys kps) =
      map (\<lambda>k'. (k', series_entry (kps @ [(k, p)]) k')) (first_keys kps)"
    by (intro map_cong) (auto simp: series_entry_def series_snoc)
  moreover have "series_entry (kps @ [(k, p)]) k = \<lparr>entry_data = point_data p, entry_values = [point_value p]\<rparr>"
    using False series_empty [of kps k] by (simp add: series_entry_def series_snoc)
  ultimately show ?thesis
    using False by (simp add: add_view_def grouped_def map_of_pairs first_keys_snoc)
qed

fun add_all :: "'s hash_lib \<Rightarrow> ('z, 'w) Flattener \<Rightarrow> FlattenerPoint list \<Rightarrow> (timeline_error, ('z, 'w) Flattener) res" where
  "add_all h f [] = Ok f"
| "add_all h f (p # ps) = res_bind (Add h f p) (\<lambda>f'. add_all h f' ps)"

lemma add_all_grouped:
  assumes "fl_wf f" and "fl_view f = grouped kps0"
    and "\<forall>(k, p) \<in> set kps. point_key h (fl_configuration f) p = Ok k"
  obtains f' where "add_all h f (map snd kps) = Ok f'" "fl_wf f'" "fl_view f' = grouped (kps0 @ kps)"
    "fl_transport f' = fl_transport f" "fl_terminateChan f' = fl_terminateChan f"
  using assms
proof (induction kps arbitrary: f kps0 thesis)
  case Nil
  then show ?case by simp
next
  case (Cons kp kps)
  obtain k p where kp: "kp = (k, p)" by (cases kp)
  obtain f1 where f1: "Add h f p = Ok f1" "fl_view f1 = add_view k p (fl_view f)" "fl_wf f1"
      "fl_transport f1 = fl_transport f" "fl_configuration f1 = fl_configuration f"
      "fl_terminateChan f1 = fl_terminateChan f"
    using Add_view [OF Cons.prems(2), of h p k] Cons.prems(4) kp by auto
  have view: "fl_view f1 = grouped (kps0 @ [kp])"
    by (simp add: f1(2) Cons.prems(3) add_view_grouped kp)
  obtain f2 where "add_all h f1 (map snd kps) = Ok f2" "fl_wf f2" "fl_view f2 = grouped ((kps0 @ [kp]) @ kps)"
      "fl_transport f2 = fl_transport f1" "fl_terminateChan f2 = fl_terminateChan f1"
    using Cons.IH [OF _ f1(3) view] Cons.prems(4) f1(5) by auto
  then show ?case
    using Cons.prems(1) [of f2] f1 kp by simp
qed

section \<open>Every accepted point can be sent\<close>

context point_conversion
begin

lemma flatten_converts:
  "to_point now op item = Ok p \<Longrightarrow> entry_data e = point_data p \<Longrightarrow> flatten e = Ok q \<Longrightarrow> \<exists>x. from_point q = Ok x"
  by (erule converts_same_data) (auto simp: flatten_def res_bind_Ok_iff)

end

definition mapped_op :: "flat_operation \<Rightarrow> bool" where
  "mapped_op op \<longleftrightarrow> op \<in> {Avg_op, Sum_op, Count_op, Max_op, Min_op}"

lemma flat_value_mapped: "mapped_op op \<Longrightarrow> vs \<noteq> [] \<Longrightarrow> \<exists>v. flat_value op vs = Ok v"
  by (cases vs) (auto simp: mapped_op_def flat_value_def flat_op_defs)

lemma entry_item_produced:
  assumes "DataChannelItemToFlattenedPoint t now op item = Ok p" and "mapped_op op"
    and "entry_data e = point_data p" and "entry_values e \<noteq> []"
  shows "\<exists>x. entry_item t e = Ok x"
proof -
  have "operation (entry_data e) = op"
    using transport_conv.keeps_operation [OF assms(1)] assms(3) by simp
  then obtain v where "flat_value (operation (entry_data e)) (entry_values e) = Ok v"
    using flat_value_mapped [OF assms(2,4)] by auto
  then show ?thesis
    using transport_conv.flatten_converts [OF assms(1,3)] by (simp add: entry_item_def flatten_def)
qed

lemma NewFlattener_wf:
  assumes "NewFlattener (Some t) cf = Ok f"
  shows "fl_wf f" "fl_view f = grouped []" "fl_transport f = t" "fl_configuration f = cf" "ch_buf (fl_terminateChan f) = []"
  using assms
  by (auto simp: NewFlattener_def fl_wf_def fl_view_def sm_empty_def sm_invar_def grouped_def first_keys_def chan_make_def)

lemma fl_wf_transport [simp]: "fl_wf (f\<lparr>fl_transport := t\<rparr>) = fl_wf f" "fl_view (f\<lparr>fl_transport := t\<rparr>) = fl_view f"
  by (simp_all add: fl_wf_def fl_view_def)

lemma fl_view_delete: "fl_view (delete_key k f) = AList.delete k (fl_view f)"
  by (simp add: fl_view_def delete_key_def sm_delete_def AList.delete_eq filter_map comp_def case_prod_beta')

section \<open>A whole cycle\<close>

lemma series_items:
  assumes "NewFlattener (Some t) cf = Ok f" and "\<not> ch_closed (DataChannel t)"
    and "\<forall>(k, p) \<in> set kps. point_key h cf p = Ok k \<and>
      (\<exists>now op item. DataChannelItemToFlattenedPoint t now op item = Ok p \<and> mapped_op op)"
    and "card (fst ` set kps) \<le> chan_room (DataChannel t)"
  shows "\<exists>f1 f2 items. add_all h f (map snd kps) = Ok f1 \<and> beginCycle f1 = Done f2 \<and> fl_view f2 = [] \<and>
    fl_transport f2 = sent_all items t \<and>
    map Ok items = map (\<lambda>k. entry_item t (series_entry kps k)) (first_keys kps)"
proof -
  note new = NewFlattener_wf [OF assms(1)]
  have keys: "\<forall>(k, p) \<in> set kps. point_key h (fl_configuration f) p = Ok k"
    using assms(3) new(4) by auto
  obtain f1 where f1: "add_all h f (map snd kps) = Ok f1" "fl_wf f1" "fl_view f1 = grouped kps"
      "fl_transport f1 = t" "ch_buf (fl_terminateChan f1) = []"
    using add_all_grouped [OF new(1,2) keys] new(3,5) by (metis append_Nil)
  let ?items = "ok_items (map (\<lambda>(k, e). entry_item t e) (fl_view f1))"
  have "length (fl_pointMap f1) = length (first_keys kps)"
    using arg_cong [OF f1(3), of length] by (simp add: fl_view_def grouped_def)
  also have "\<dots> \<le> chan_room (DataChannel t)"
    using assms(4) distinct_card [OF distinct_first_keys, of kps] by simp
  finally have f2: "beginCycle f1 = Done (f1\<lparr>fl_pointMap := [], fl_transport := sent_all ?items t\<rparr>)"
    using beginCycle_Done [of f1] f1 assms(2) by simp
  have "\<exists>x. entry_item t (series_entry kps k) = Ok x" if "k \<in> fst ` set kps" for k
  proof -
    have ne: "series kps k \<noteq> []"
      using that by (simp add: series_empty)
    then have "(k, hd (series kps k)) \<in> set kps"
      using hd_in_set [of "series kps k"] by (auto simp: series_def)
    then obtain now op item where "DataChannelItemToFlattenedPoint t now op item = Ok (hd (series kps k))" "mapped_op op"
      using assms(3) by fastforce
    then show ?thesis
      by (rule entry_item_produced) (use ne in \<open>simp_all add: series_entry_def\<close>)
  qed
  then have "map Ok ?items = map (\<lambda>k. entry_item t (series_entry kps k)) (first_keys kps)"
    using ok_items_all [of "map (\<lambda>(k, e). entry_item t e) (fl_view f1)"] by (simp add: f1(3) grouped_def comp_def)
  with f1(1) f2 show ?thesis
    by (intro exI [of _ f1] exI [of _ "f1\<lparr>fl_pointMap := [], fl_transport := sent_all ?items t\<rparr>"] exI [of _ ?items])
      (simp add: fl_view_def)
qed

section \<open>A flattener to try the properties on\<close>

definition example_flattener_config :: FlattenerConfig where
  "example_flattener_config = \<lparr>CycleDuration = 1000, HashingAlgorithm = CRC32\<rparr>"

definition example_transport :: "(unit, nat) Transport" where
  "example_transport =
     OpenTSDBT \<lparr>ot_core = new_core 4 \<lparr>io_address = ''a'', io_connection = Some 7, io_world = 0\<rparr>,
       ot_configuration = example_tsdb_config, ot_serializer = ()\<rparr>"

definition example_tsdb_item :: "int \<Rightarrow> tsdb_item" where
  "example_tsdb_item v = \<lparr>Metric = ''m'', Tags = [], Timestamp = 5, Value = f64_of_int v\<rparr>"

definition example_point :: "int \<Rightarrow> FlattenerPoint" where
  "example_point v =
     \<lparr>point_data = \<lparr>operation = Sum_op, timestamp = 5, dataChannelItem = TsdbItem (example_tsdb_item v)\<rparr>,
      hashParameters = [VUint SUint8 1, VString ''m''], point_value = f64_of_int v\<rparr>"

definition example_flattener :: "(unit, nat) Flattener" where
  "example_flattener =
     \<lparr>fl_configuration = example_flattener_config, fl_pointMap = [(''cc11380a'', 0)],
      fl_entries = [\<lparr>entry_data = point_data (example_point 3), entry_values = [f64_of_int 3]\<rparr>],
      fl_terminateChan = chan_make 1, fl_transport = example_transport, fl_running = True\<rparr>"

lemma example_key: "point_key crc32_lib example_flattener_config (example_point v) = Ok ''cc11380a''"
  by (simp add: point_key_def example_flattener_config_def example_point_def Generate_def GenerateCRC32_def
      CRC32_def SHA256_def SHA1_def MD5_def generateHash_def crc32_lib_def crc32_hasher_def GenerateByteArray_concat
      uint64ToByteArray_def stringToByteArray_def put_uint64_def bytes_of_string_def byte_of_char_def
      crc32_update_def put_uint32_def hex_digit_def)

lemma example_transport_simps [simp]:
  "DataChannel example_transport = chan_make 4"
  "DataChannelItemToFlattenedPoint example_transport now Sum_op (TsdbItemPtr (example_tsdb_item v)) = Ok (example_point v)"
  "FlattenedPointToDataChannelItem example_transport = tsdb_FlattenedPointToDataChannelItem"
  by (simp_all add: example_transport_def new_core_def tsdb_DataChannelItemToFlattenedPoint_def example_point_def
      example_tsdb_item_def Sum_op_def fun_eq_iff Let_def)

lemma example_flattener_simps [simp]:
  "fl_configuration example_flattener = example_flattener_config"
  "sm_load (fl_pointMap example_flattener) ''cc11380a'' = Some 0"
  "fl_transport example_flattener = example_transport"
  "fl_wf example_flattener"
  by (simp_all add: example_flattener_def fl_wf_def fl_view_def sm_invar_def sm_load_def)

lemma example_item: "entry_item example_transport (fl_entries example_flattener ! 0) = Ok (TsdbItem (example_tsdb_item 3))"
  using f64_sum_exact [of 0 "[3]"]
  by (simp add: entry_item_def flatten_def flat_value_def example_flattener_def example_point_def flat_op_defs
      sum_values_def tsdb_FlattenedPointToDataChannelItem_def example_tsdb_item_def)

section \<open>Properties\<close>

text \<open>
  C2: points of a transport's own conversion, with mapped operations, are all accepted, and the next
  pass of the cycle hands the transport exactly one item per series, in the order in which the series
  appeared: the item of the first point of the series with the operation applied to the values of
  all its points. Nothing is left in the point map.
\<close>

theorem flattener_one_item_per_series:
  assumes "NewFlattener (Some t) cf = Ok f" and "\<not> ch_closed (DataChannel t)"
    and "\<forall>(k, p) \<in> set kps. point_key h cf p = Ok k \<and>
      (\<exists>now op item. DataChannelItemToFlattenedPoint t now op item = Ok p \<and> mapped_op op)"
    and "card (fst ` set kps) \<le> chan_room (DataChannel t)"
  shows "\<exists>f1 f2 items. add_all h f (map snd kps) = Ok f1 \<and> beginCycle f1 = Done f2 \<and> fl_view f2 = [] \<and>
    ch_buf (DataChannel (fl_transport f2)) = ch_buf (DataChannel t) @ items \<and>
    map Ok items = map (\<lambda>k. entry_item t (series_entry kps k)) (first_keys kps)"
  using series_items [OF assms] by fastforce

theorem flattener_one_item_per_series_witness:
  "\<exists>f f1 f2 items. NewFlattener (Some example_transport) example_flattener_config = Ok f \<and>
    add_all crc32_lib f [example_point 3, example_point 4] = Ok f1 \<and> beginCycle f1 = Done f2 \<and> fl_view f2 = [] \<and>
    ch_buf (DataChannel (fl_transport f2)) = ch_buf (DataChannel example_transport) @ items \<and> length items = 1"
proof -
  let ?kps = "[(''cc11380a'', example_point 3), (''cc11380a'', example_point 4)]"
  obtain f where f: "NewFlattener (Some example_transport) example_flattener_config = Ok f"
    by (simp add: NewFlattener_def)
  have conv: "\<exists>now op item. DataChannelItemToFlattenedPoint example_transport now op item = Ok (example_point v) \<and> mapped_op op" for v
    using example_transport_simps(2) [of 0 v] by (metis mapped_op_def insertCI)
  have "\<forall>(k, p) \<in> set ?kps. point_key crc32_lib example_flattener_config p = Ok k \<and>
      (\<exists>now op item. DataChannelItemToFlattenedPoint example_transport now op item = Ok p \<and> mapped_op op)"
    using conv by (simp add: example_key)
  then obtain f1 f2 items where r: "add_all crc32_lib f (map snd ?kps) = Ok f1" "beginCycle f1 = Done f2" "fl_view f2 = []"
      "ch_buf (DataChannel (fl_transport f2)) = ch_buf (DataChannel example_transport) @ items"
      "map Ok items = map (\<lambda>k. entry_item example_transport (series_entry ?kps k)) (first_keys ?kps)"
    using flattener_one_item_per_series [OF f, of ?kps crc32_lib] by (auto simp: chan_make_def chan_room_def)
  have "length items = 1"
    using arg_cong [OF r(5), of length] by (simp add: first_keys_def)
  with f r show ?thesis by auto
qed

text \<open>
  C12: adding a point whose parameters can be hashed succeeds and, seen through the store, does to the
  point map what \<open>add_view\<close> says: one more value for a known series, a new entry for a new one. The
  other series, the transport and the well-formedness of the flattener are kept.
\<close>

theorem flattener_Add_refines:
  assumes "fl_wf f" and "point_key h (fl_configuration f) p = Ok k"
  shows "\<exists>f'. Add h f p = Ok f' \<and> fl_wf f' \<and> fl_view f' = add_view k p (fl_view f) \<and> fl_transport f' = fl_transport f"
  using Add_view [OF assms] by metis

theorem flattener_Add_refines_witness:
  "\<exists>f'. Add crc32_lib example_flattener (example_point 4) = Ok f' \<and> fl_wf f' \<and>
     fl_view f' = add_view ''cc11380a'' (example_point 4) (fl_view example_flattener) \<and>
     fl_transport f' = fl_transport example_flattener"
  by (rule flattener_Add_refines) (simp_all add: example_key)

text \<open>
  C13: on integer values whose absolute values add up to at most \<open>2 ^ 53\<close> the operations are exact: sum,
  count, minimum and maximum are those of the integers, and so is the average when it is an integer.
\<close>

theorem flat_value_exact:
  assumes "ns \<noteq> []" and "sum_list (map abs ns) \<le> 2 ^ 53" and "length ns \<le> 2 ^ 53"
  shows "flat_value Sum_op (map f64_of_int ns) = Ok (f64_of_int (sum_list ns)) \<and>
    flat_value Count_op (map f64_of_int ns) = Ok (f64_of_int (int (length ns))) \<and>
    flat_value Min_op (map f64_of_int ns) = Ok (f64_of_int (Min (set ns))) \<and>
    flat_value Max_op (map f64_of_int ns) = Ok (f64_of_int (Max (set ns))) \<and>
    (int (length ns) dvd sum_list ns \<longrightarrow>
       flat_value Avg_op (map f64_of_int ns) = Ok (f64_of_int (sum_list ns div int (length ns))))"
proof -
  obtain i ms where ns: "ns = i # ms"
    using assms(1) by (cases ns) auto
  have sum: "sum_values (map f64_of_int ns) = f64_of_int (sum_list ns)"
    using f64_sum_exact [of 0 ns] assms(2) by (simp add: sum_values_def)
  have ex: "\<forall>j\<in>insert i (set ms). f64_exact_int j"
    using exact_ints [OF assms(2)] ns by auto
  have "f64_exact_int (sum_list ns)"
    using exact_abs_sum [of ns] assms(2) by (simp add: f64_exact_int_def)
  moreover have "f64_exact_int (int (length ns))"
    using assms(3) by (simp add: f64_exact_int_def)
  ultimately have avg: "int (length ns) dvd sum_list ns \<longrightarrow>
      f64_div (f64_of_int (sum_list ns)) (f64_of_int (int (length ns))) = f64_of_int (sum_list ns div int (length ns))"
    using assms(1) by (auto intro: f64_div_of_int)
  show ?thesis
    using sum avg min_values_exact [OF ex] max_values_exact [OF ex] by (simp add: flat_value_def flat_op_defs ns)
qed

theorem flat_value_exact_witness:
  "flat_value Sum_op (map f64_of_int [2, -7, 11]) = Ok (f64_of_int 6) \<and>
   flat_value Avg_op (map f64_of_int [2, -7, 11]) = Ok (f64_of_int 2)"
  using flat_value_exact [of "[2, -7, 11]"] by simp

text \<open>
  On values that are not NaN the minimum and the maximum are one of the values, and no value is
  below the minimum or above the maximum.
\<close>

theorem flat_value_min_max:
  assumes "vs \<noteq> []" and "\<forall>v\<in>set vs. \<not> f64_is_nan v"
  shows "\<exists>a\<in>set vs. \<exists>b\<in>set vs. flat_value Min_op vs = Ok a \<and> flat_value Max_op vs = Ok b \<and>
    (\<forall>v\<in>set vs. \<not> f64_lt v a \<and> \<not> f64_lt b v)"
proof -
  obtain m ws where vs: "vs = m # ws"
    using assms(1) by (cases vs) auto
  with min_values_least [of m ws] max_values_greatest [of m ws] assms(2) show ?thesis
    by (intro bexI [of _ "min_values m ws"] bexI [of _ "max_values m ws"]) (auto simp: flat_value_def flat_op_defs)
qed

theorem flat_value_min_max_witness:
  "let vs = [f64_of_int 2, f64_make True f64_inf_mag] in
   \<exists>a\<in>set vs. \<exists>b\<in>set vs. flat_value Min_op vs = Ok a \<and> flat_value Max_op vs = Ok b \<and>
    (\<forall>v\<in>set vs. \<not> f64_lt v a \<and> \<not> f64_lt b v)"
  unfolding Let_def
proof (rule flat_value_min_max)
  show "\<forall>v\<in>set [f64_of_int 2, f64_make True f64_inf_mag]. \<not> f64_is_nan v"
    using f64_of_int_not_nan [of 2] by (simp add: f64_exact_int_def f64_is_nan_def f64_inf_mag_def)
qed simp

text \<open>
  A point that is added to a series after the cycle has processed its entry and before it deletes
  the key is lost: \<open>Add\<close> succeeds, and after the \<open>Delete\<close> the point map and the transport are what they
  would be had the point never been added.
\<close>

theorem flattener_lost_update:
  assumes "fl_wf f" and "sm_load (fl_pointMap f) k = Some a" and "processEntry f a = Done f1"
    and "point_key h (fl_configuration f) p = Ok k"
  shows "\<exists>f2. Add h f1 p = Ok f2 \<and> fl_view (delete_key k f2) = fl_view (delete_key k f1) \<and>
    fl_transport (delete_key k f2) = fl_transport f1"
proof -
  obtain t where t: "f1 = f\<lparr>fl_transport := t\<rparr>"
    using assms(3) unfolding processEntry_def
    by (cases "entry_item (fl_transport f) (fl_entries f ! a)")
      (auto split: outcome.splits intro: that [of "fl_transport f"])
  obtain f2 where f2: "Add h f1 p = Ok f2" "fl_view f2 = add_view k p (fl_view f1)" "fl_transport f2 = fl_transport f1"
    using Add_view [of f1 h p k] assms(1,4) t by auto
  have "map_of (fl_view f1) k = Some (fl_entries f1 ! a)"
    using assms(2) t by (simp add: map_of_view)
  then have "AList.delete k (fl_view f2) = AList.delete k (fl_view f1)"
    by (simp add: f2(2) add_view_def delete_update_same)
  with f2(1,3) show ?thesis
    by (simp add: fl_view_delete) (simp add: delete_key_def)
qed

theorem flattener_lost_update_witness:
  "\<exists>f1 f2. processEntry example_flattener 0 = Done f1 \<and> Add crc32_lib f1 (example_point 4) = Ok f2 \<and>
     fl_view (delete_key ''cc11380a'' f2) = fl_view (delete_key ''cc11380a'' f1)"
proof -
  obtain f1 where "processEntry example_flattener 0 = Done f1"
    by (simp add: processEntry_def example_item transport_send_def chan_send_def chan_make_def)
  with flattener_lost_update [OF _ _ this, of "''cc11380a''" crc32_lib "example_point 4"] show ?thesis
    by (auto simp: example_key)
qed

text \<open>
  After \<open>Close\<close> the next pass that begins only ends the cycle, so the points still in the point map
  are never sent; and a pass that was under way panics at its next item, since the transport's channel
  is closed before the cycle is told to stop.
\<close>

theorem flattener_close:
  assumes "flattener_Close f = Done f'"
  shows "(\<exists>f''. beginCycle f' = Done f'' \<and> \<not> fl_running f'' \<and> fl_view f'' = fl_view f \<and>
      ch_buf (DataChannel (fl_transport f'')) = ch_buf (DataChannel (fl_transport f))) \<and>
    (entry_item (fl_transport f) (fl_entries f ! a) = Ok x \<longrightarrow> processEntry f' a = Panics)"
proof -
  let ?c = "DataChannel (fl_transport f)"
  obtain c where c: "chan_send () (fl_terminateChan f) = Sent c" and
      f': "f' = f\<lparr>fl_transport := with_channel (?c\<lparr>ch_closed := True\<rparr>) (fl_transport f), fl_terminateChan := c\<rparr>"
    using assms by (auto simp: flattener_Close_def transport_Close_eq split: send_res.splits if_splits)
  obtain c' where c': "chan_recv c = Received () c'"
    using c by (cases "ch_buf (fl_terminateChan f)") (auto simp: chan_send_Sent_iff chan_recv_def)
  have "beginCycle f' = Done (f'\<lparr>fl_terminateChan := c', fl_running := False\<rparr>)"
    by (simp add: beginCycle_def f' c')
  moreover have "processEntry f' a = Panics" if "entry_item (fl_transport f) (fl_entries f ! a) = Ok x"
    using that by (simp add: processEntry_def f' transport_send_def chan_send_def)
  ultimately show ?thesis
    by (auto simp: f' fl_view_def)
qed

theorem flattener_close_witness:
  "\<exists>f' f''. flattener_Close example_flattener = Done f' \<and> beginCycle f' = Done f'' \<and> \<not> fl_running f'' \<and>
     processEntry f' 0 = Panics"
proof -
  obtain f' where "flattener_Close example_flattener = Done f'"
    by (simp add: flattener_Close_def transport_Close_eq example_flattener_def chan_send_def chan_make_def)
  with flattener_close [OF this, of 0 "TsdbItem (example_tsdb_item 3)"] show ?thesis
    by (auto simp: example_item)
qed

end
