(* ===== verification/Timeline_Manager.thy ===== *)
theory Timeline_Manager
  imports Flattener
begin

text \<open>
  \<open>timeline/manager.go\<close>: the manager that clients of the package use.

  A manager with a flattener holds the flattener and, again, the flattener's transport: both fields
  point to the same object. \<open>manager_transport\<close> reads it and \<open>with_transport\<close> updates it in one place.
  A result of type \<open>option\<close> is \<open>None\<close> when the call does not return.
\<close>

record ('z, 'w) Manager =
  mg_transport :: "('z, 'w) Transport"
  mg_flattener :: "('z, 'w) Flattener option"

definition manager_transport :: "('z, 'w) Manager \<Rightarrow> ('z, 'w) Transport" where
  "manager_transport m = (case mg_flattener m of None \<Rightarrow> mg_transport m | Some f \<Rightarrow> fl_transport f)"

definition with_transport :: "('z, 'w) Transport \<Rightarrow> ('z, 'w) Manager \<Rightarrow> ('z, 'w) Manager" where
  "with_transport t m =
     m\<lparr>mg_transport := t, mg_flattener := map_option (\<lambda>f. f\<lparr>fl_transport := t\<rparr>) (mg_flattener m)\<rparr>"

definition NewManager ::
  "('z, 'w) libs \<Rightarrow> ('z, 'w) Transport option \<Rightarrow> Backend option \<Rightarrow> (timeline_error, ('z, 'w) Manager) res option" where
  "NewManager l transport backend =
     (case transport of
        None \<Rightarrow> Some (Err TransportRequired)
      | Some t \<Rightarrow>
          if backend = None then Some (Err NoBackend)
          else map_option (\<lambda>r. res_bind r (\<lambda>t'. Ok \<lparr>mg_transport = t', mg_flattener = None\<rparr>))
                 (ConfigureBackend l t backend))"

definition NewManagerF ::
  "('z, 'w) libs \<Rightarrow> ('z, 'w) Flattener option \<Rightarrow> Backend option \<Rightarrow> (timeline_error, ('z, 'w) Manager) res option" where
  "NewManagerF l flattener backend =
     (case flattener of
        None \<Rightarrow> Some (Err FlattenerRequired)
      | Some f \<Rightarrow>
          if backend = None then Some (Err NoBackend)
          else map_option
                 (\<lambda>r. res_bind r (\<lambda>t'. Ok \<lparr>mg_transport = t', mg_flattener = Some (f\<lparr>fl_transport := t'\<rparr>)\<rparr>))
                 (ConfigureBackend l (fl_transport f) backend))"

section \<open>Sending\<close>

definition send_item :: "('z, 'w) Manager \<Rightarrow> channel_item \<Rightarrow> (timeline_error, ('z, 'w) Manager) res option" where
  "send_item m x =
     (case transport_send x (manager_transport m) of
        Done t \<Rightarrow> Some (Ok (with_transport t m))
      | Waits _ \<Rightarrow> None
      | Panics \<Rightarrow> Some Panic)"

definition SendHTTP ::
  "('z, 'w) Manager \<Rightarrow> string \<Rightarrow> goval list \<Rightarrow> (timeline_error, ('z, 'w) Manager) res option" where
  "SendHTTP m schemaName parameters =
     (if \<not> MatchType (manager_transport m) typeHTTP then Some (Err NotHTTP)
      else send_item m (JsonItem \<lparr>Name = schemaName, Parameters = parameters\<rparr>))"

definition SendOpenTSDB ::
  "('z, 'w) Manager \<Rightarrow> 64 word \<Rightarrow> float64 \<Rightarrow> 64 word \<Rightarrow> string \<Rightarrow> goval list \<Rightarrow>
     (timeline_error, ('z, 'w) Manager) res option" where
  "SendOpenTSDB m now v ts metric tags =
     (if \<not> MatchType (manager_transport m) typeOpenTSDB then Some (Err NotOpenTSDB)
      else
        send_item m (TsdbItem \<lparr>Metric = metric, Tags = tags, Timestamp = (if ts = 0 then now else ts), Value = v\<rparr>))"

definition SerializeHTTP :: "('z, 'w) libs \<Rightarrow> ('z, 'w) Manager \<Rightarrow> string \<Rightarrow> goval list \<Rightarrow> string + string" where
  "SerializeHTTP l m schemaName parameters =
     Serialize l (manager_transport m) (JsonItem \<lparr>Name = schemaName, Parameters = parameters\<rparr>)"

definition SerializeOpenTSDB ::
  "('z, 'w) libs \<Rightarrow> ('z, 'w) Manager \<Rightarrow> float64 \<Rightarrow> 64 word \<Rightarrow> string \<Rightarrow> goval list \<Rightarrow> string + string" where
  "SerializeOpenTSDB l m v ts metric tags =
     Serialize l (manager_transport m) (TsdbItem \<lparr>Metric = metric, Tags = tags, Timestamp = ts, Value = v\<rparr>)"

section \<open>Flattening\<close>

text \<open>\<open>m.flattener.Add\<close>: a nil flattener panics.\<close>

definition flattener_add ::
  "'s hash_lib \<Rightarrow> ('z, 'w) Manager \<Rightarrow> FlattenerPoint \<Rightarrow> (timeline_error, ('z, 'w) Manager) res" where
  "flattener_add h m point =
     (case mg_flattener m of
        None \<Rightarrow> Panic
      | Some f \<Rightarrow> res_bind (Add h f point) (\<lambda>f'. Ok (m\<lparr>mg_flattener := Some f'\<rparr>)))"

definition FlattenHTTP ::
  "'s hash_lib \<Rightarrow> ('z, 'w) Manager \<Rightarrow> 64 word \<Rightarrow> flat_operation \<Rightarrow> string \<Rightarrow> goval list \<Rightarrow>
     (timeline_error, ('z, 'w) Manager) res" where
  "FlattenHTTP h m now op name parameters =
     res_bind (DataChannelItemToFlattenedPoint (manager_transport m) now op (JsonItemPtr \<lparr>Name = name, Parameters = parameters\<rparr>))
       (flattener_add h m)"

definition FlattenOpenTSDB ::
  "'s hash_lib \<Rightarrow> ('z, 'w) Manager \<Rightarrow> 64 word \<Rightarrow> flat_operation \<Rightarrow> float64 \<Rightarrow> 64 word \<Rightarrow> string \<Rightarrow> goval list \<Rightarrow>
     (timeline_error, ('z, 'w) Manager) res" where
  "FlattenOpenTSDB h m now op v ts metric tags =
     res_bind (DataChannelItemToFlattenedPoint (manager_transport m) now op
         (TsdbItemPtr \<lparr>Metric = metric, Tags = tags, Timestamp = (if ts = 0 then now else ts), Value = v\<rparr>))
       (flattener_add h m)"

section \<open>Start and shutdown\<close>

definition manager_Start :: "('z, 'w) Manager \<Rightarrow> ('z, 'w) Manager" where
  "manager_Start m =
     (case mg_flattener m of
        Some f \<Rightarrow> (let f' = flattener_Start f in m\<lparr>mg_flattener := Some f', mg_transport := fl_transport f'\<rparr>)
      | None \<Rightarrow> m\<lparr>mg_transport := transport_Start (mg_transport m)\<rparr>)"

definition Shutdown :: "('z, 'w) Manager \<Rightarrow> ('z, 'w) Manager outcome" where
  "Shutdown m =
     (case mg_flattener m of
        Some f \<Rightarrow>
          (case flattener_Close f of
             Done f' \<Rightarrow> Done (m\<lparr>mg_flattener := Some f', mg_transport := fl_transport f'\<rparr>)
           | Waits f' \<Rightarrow> Waits (m\<lparr>mg_flattener := Some f', mg_transport := fl_transport f'\<rparr>)
           | Panics \<Rightarrow> Panics)
      | None \<Rightarrow>
          (case transport_Close (mg_transport m) of
             Ok t \<Rightarrow> Done (m\<lparr>mg_transport := t\<rparr>)
           | _ \<Rightarrow> Panics))"

definition GetTransport :: "('z, 'w) Manager \<Rightarrow> ('z, 'w) Transport" where
  "GetTransport m = manager_transport m"

section \<open>Sending to the transport\<close>

lemma MatchType_both: "MatchType t typeHTTP \<and> MatchType t typeOpenTSDB"
  by (cases t) (simp_all add: http_MatchType_def tsdb_MatchType_def typeHTTP_def typeOpenTSDB_def)

lemma cast_tsdb_JsonItem: "cast_tsdb (xs @ [JsonItem x]) = None"
  by (induction xs rule: cast_tsdb.induct) simp_all

lemma manager_transport_with [simp]: "manager_transport (with_transport t m) = t"
  by (simp add: manager_transport_def with_transport_def split: option.split)

lemma send_item_room:
  assumes "0 < chan_room (DataChannel (manager_transport m))"
  shows "send_item m x = Some (Ok (with_transport (sent_all [x] (manager_transport m)) m))"
proof -
  have "\<not> ch_closed (DataChannel (manager_transport m))"
      "length (ch_buf (DataChannel (manager_transport m))) < ch_cap (DataChannel (manager_transport m))"
    using assms by (auto simp: chan_room_def split: if_splits)
  then show ?thesis
    by (simp add: send_item_def transport_send_def chan_send_def sent_all_def)
qed

definition example_libs :: "(unit, nat) libs" where
  "example_libs =
     \<lparr>lib_json = \<lparr>ser_New = (\<lambda>_. ()), ser_Add = (\<lambda>z _ _ _. (z, None)), ser_SerializeArray = (\<lambda>_ _. Inr ''[]''),
         ser_SerializeGeneric = (\<lambda>_ _. Inr ''{}'')\<rparr>,
      lib_tsdb = example_tsdb_serializer,
      lib_http = \<lparr>hc_NewRequest = (\<lambda>m u b. Inr \<lparr>rq_Method = m, rq_URL = u, rq_Body = b, rq_Headers = []\<rparr>),
         hc_Do = (\<lambda>w r. (w, Inr \<lparr>rs_StatusCode = 204, rs_Body = 0\<rparr>)), hc_ReadAll = (\<lambda>w r. (w, Inr [])), hc_Close = (\<lambda>w r. w)\<rparr>,
      lib_net = example_net\<rparr>"

section \<open>From the client to the wire\<close>

definition tsdb_point :: "flat_operation \<Rightarrow> string \<Rightarrow> goval list \<Rightarrow> 64 word \<Rightarrow> float64 \<Rightarrow> FlattenerPoint" where
  "tsdb_point op metric tags ts v =
     \<lparr>point_data = \<lparr>operation = op, timestamp = ts,
        dataChannelItem = TsdbItem \<lparr>Metric = metric, Tags = tags, Timestamp = ts, Value = v\<rparr>\<rparr>,
      hashParameters = VUint SUint8 (ucast op) # VString metric # tags, point_value = v\<rparr>"

lemma tsdb_point_converted:
  assumes "0 < sint ts"
  shows "DataChannelItemToFlattenedPoint (OpenTSDBT t) now op
    (TsdbItemPtr \<lparr>Metric = metric, Tags = tags, Timestamp = ts, Value = v\<rparr>) = Ok (tsdb_point op metric tags ts v)"
  using assms by (simp add: tsdb_DataChannelItemToFlattenedPoint_def tsdb_point_def Let_def)

fun flatten_values ::
  "'s hash_lib \<Rightarrow> 64 word \<Rightarrow> flat_operation \<Rightarrow> 64 word \<Rightarrow> string \<Rightarrow> goval list \<Rightarrow> float64 list \<Rightarrow>
     ('z, 'w) Manager \<Rightarrow> (timeline_error, ('z, 'w) Manager) res" where
  "flatten_values h now op ts metric tags [] m = Ok m"
| "flatten_values h now op ts metric tags (v # vs) m =
     res_bind (FlattenOpenTSDB h m now op v ts metric tags) (flatten_values h now op ts metric tags vs)"

lemma Add_transport: "Add h f p = Ok f' \<Longrightarrow> fl_transport f' = fl_transport f"
  by (auto simp: Add_def res_bind_Ok_iff split: option.splits)

lemma flatten_values_add_all:
  assumes "mg_flattener m = Some f" and "fl_transport f = OpenTSDBT t" and "0 < sint ts"
    and "add_all h f (map (tsdb_point op metric tags ts) vs) = Ok f'"
  shows "flatten_values h now op ts metric tags vs m = Ok (m\<lparr>mg_flattener := Some f'\<rparr>)"
  using assms
proof (induction vs arbitrary: m f)
  case Nil
  then show ?case by simp
next
  case (Cons v vs)
  then obtain f1 where f1: "Add h f (tsdb_point op metric tags ts v) = Ok f1"
      "add_all h f1 (map (tsdb_point op metric tags ts) vs) = Ok f'"
    by (auto simp: res_bind_Ok_iff)
  have "ts \<noteq> 0" using Cons.prems(3) by auto
  then have "FlattenOpenTSDB h m now op v ts metric tags = Ok (m\<lparr>mg_flattener := Some f1\<rparr>)"
    using Cons.prems(1,2,3) f1(1)
    by (simp add: FlattenOpenTSDB_def manager_transport_def tsdb_point_converted flattener_add_def
        del: DataChannelItemToFlattenedPoint.simps)
  then show ?case
    using Cons.IH [of "m\<lparr>mg_flattener := Some f1\<rparr>" f1] f1(2) Add_transport [OF f1(1)] Cons.prems by simp
qed

lemma const_keys: "xs \<noteq> [] \<Longrightarrow> fst ` set (map (\<lambda>x. (k, g x)) xs) = {k}"
  by (cases xs) auto

lemma first_keys_const: "xs \<noteq> [] \<Longrightarrow> first_keys (map (\<lambda>x. (k, g x)) xs) = [k]"
proof (induction xs rule: rev_induct)
  case (snoc x xs)
  show ?case
  proof (cases "xs = []")
    case True
    then show ?thesis by (simp add: first_keys_def)
  next
    case False
    with snoc.IH const_keys [OF False, of k g] show ?thesis
      by (simp add: first_keys_snoc del: set_map)
  qed
qed simp

lemma series_const: "series (map (\<lambda>x. (k, g x)) xs) k = map g xs"
  by (simp add: series_def filter_map comp_def)

section \<open>Properties\<close>

text \<open>
  C25: the transport types of the two implementations are the same number, so a manager over an
  OpenTSDB transport accepts an HTTP message; the next pass of the loop then drops the whole batch,
  the OpenTSDB points before it included, and nothing is written.
\<close>

theorem manager_wrong_kind_drops_batch:
  assumes "manager_transport m = OpenTSDBT t" and "0 < chan_room (co_chan (ot_core t))"
  shows "\<exists>m' t'. SendHTTP m name ps = Some (Ok m') \<and>
    transport_pass l (manager_transport m') = Some (OpenTSDBT t') \<and>
    ch_buf (co_chan (ot_core t')) = [] \<and> co_world (ot_core t') = co_world (ot_core t) \<and>
    co_batches (ot_core t') = co_batches (ot_core t) @
      [ch_buf (co_chan (ot_core t)) @ [JsonItem \<lparr>Name = name, Parameters = ps\<rparr>]]"
proof -
  let ?x = "JsonItem \<lparr>Name = name, Parameters = ps\<rparr>"
  have send: "SendHTTP m name ps = Some (Ok (with_transport (sent_all [?x] (OpenTSDBT t)) m))"
    using assms MatchType_both [of "manager_transport m"] send_item_room [of m ?x] by (simp add: SendHTTP_def)
  have "\<not> ch_closed (co_chan (ot_core t))"
    using assms(2) by (auto simp: chan_room_def split: if_splits)
  with send show ?thesis
    by (simp add: sent_all_def transferDataLoop_eq tsdb_TransferData_def cast_tsdb_JsonItem Let_def)
qed

theorem manager_wrong_kind_drops_batch_witness:
  "\<exists>m' t'. SendHTTP \<lparr>mg_transport = example_transport, mg_flattener = None\<rparr> ''s'' [] = Some (Ok m') \<and>
     transport_pass example_libs (manager_transport m') = Some (OpenTSDBT t') \<and> ch_buf (co_chan (ot_core t')) = []"
proof -
  let ?m = "\<lparr>mg_transport = example_transport, mg_flattener = None\<rparr>"
  obtain t where t: "manager_transport ?m = OpenTSDBT t" "0 < chan_room (co_chan (ot_core t))"
    by (simp add: manager_transport_def example_transport_def new_core_def chan_make_def chan_room_def)
  from manager_wrong_kind_drops_batch [OF t] show ?thesis by blast
qed

text \<open>
  C1: end to end over OpenTSDB. Integer values of one series that a client hands to the manager with
  the operation \<open>Sum\<close> within a cycle reach the network as one point with their exact sum: after the
  next pass of the cycle and of the transfer loop, the serialized point has been written on the
  connection without an error, as long as the network fails only finitely often.
\<close>

theorem manager_sum_delivered:
  assumes "NewFlattener (Some (OpenTSDBT t)) cf = Ok f" and "mg_flattener m = Some f"
    and "ch_buf (co_chan (ot_core t)) = []" and "0 < chan_room (co_chan (ot_core t))"
    and "io_connection (co_world (ot_core t)) \<noteq> None" and "finitely_failing (lib_net l) r"
    and "lift_hash (Generate h (HashingAlgorithm cf) (VUint SUint8 (ucast Sum_op) # VString metric # tags)) = Ok hash"
    and "ns \<noteq> []" and "sum_list (map abs ns) \<le> 2 ^ 53" and "0 < sint ts"
    and "ser_SerializeArray (lib_tsdb l) (ot_serializer t)
      [\<lparr>Metric = metric, Tags = tags, Timestamp = ts, Value = f64_of_int (sum_list ns)\<rparr>] = Inr payload"
  shows "\<exists>m1 f1 f2 t' c w. flatten_values h now Sum_op ts metric tags (map f64_of_int ns) m = Ok m1 \<and>
    mg_flattener m1 = Some f1 \<and> beginCycle f1 = Done f2 \<and>
    transport_pass l (fl_transport f2) = Some (OpenTSDBT t') \<and>
    io_connection (co_world (ot_core t')) = Some c \<and>
    nl_Write (lib_net l) w c (bytes_of_string payload) = (io_world (co_world (ot_core t')), None)"
proof -
  let ?point = "tsdb_point Sum_op metric tags ts" and ?k = "hex_encode hash"
  let ?item = "\<lparr>Metric = metric, Tags = tags, Timestamp = ts, Value = f64_of_int (sum_list ns)\<rparr>"
  let ?kps = "map (\<lambda>n. (?k, ?point (f64_of_int n))) ns"
  have keys: "point_key h cf (?point v) = Ok ?k" for v
    using assms(7) by (simp add: point_key_def tsdb_point_def)
  have conv: "\<exists>now op item. DataChannelItemToFlattenedPoint (OpenTSDBT t) now op item = Ok (?point v) \<and> mapped_op op" for v
    using tsdb_point_converted [OF assms(10)] by (metis mapped_op_def insertCI)
  have opened: "\<not> ch_closed (co_chan (ot_core t))"
    using assms(4) by (auto simp: chan_room_def split: if_splits)
  have points: "\<forall>(k, p) \<in> set ?kps. point_key h cf p = Ok k \<and>
      (\<exists>now op item. DataChannelItemToFlattenedPoint (OpenTSDBT t) now op item = Ok p \<and> mapped_op op)"
    using conv keys by auto
  have "card (fst ` set ?kps) \<le> chan_room (DataChannel (OpenTSDBT t))"
    using const_keys [OF assms(8), of ?k "\<lambda>n. ?point (f64_of_int n)"] assms(4) by simp
  with opened points obtain f1 f2 items where r: "add_all h f (map snd ?kps) = Ok f1" "beginCycle f1 = Done f2"
      "fl_transport f2 = sent_all items (OpenTSDBT t)"
      "map Ok items = map (\<lambda>k. entry_item (OpenTSDBT t) (series_entry ?kps k)) (first_keys ?kps)"
    using series_items [OF assms(1) _ points] by auto
  have "series_entry ?kps ?k =
      \<lparr>entry_data = point_data (?point (f64_of_int (hd ns))), entry_values = map f64_of_int ns\<rparr>"
    by (simp add: series_entry_def series_const hd_map assms(8)) (simp add: tsdb_point_def)
  moreover have "flat_value Sum_op (map f64_of_int ns) = Ok (f64_of_int (sum_list ns))"
    using f64_sum_exact [of 0 ns] assms(9) by (simp add: flat_value_def flat_op_defs sum_values_def)
  ultimately have "entry_item (OpenTSDBT t) (series_entry ?kps ?k) = Ok (TsdbItem ?item)"
    by (simp add: entry_item_def flatten_def tsdb_point_def tsdb_FlattenedPointToDataChannelItem_def)
  then have items: "items = [TsdbItem ?item]"
    using r(4) by (auto simp: first_keys_const assms(8))
  have m1: "flatten_values h now Sum_op ts metric tags (map f64_of_int ns) m = Ok (m\<lparr>mg_flattener := Some f1\<rparr>)"
    using assms(2,10) NewFlattener_wf(3) [OF assms(1)] r(1) by (intro flatten_values_add_all) (simp_all add: comp_def)
  obtain s' c w where "transfer_loop (lib_net l) (ot_configuration t) payload (co_world (ot_core t)) = Some (True, s')"
      "io_connection s' = Some c" "nl_Write (lib_net l) w c (bytes_of_string payload) = (io_world s', None)"
    using transfer_loop_returns [OF assms(6,5)] by blast
  then show ?thesis
    using m1 r(2) assms(3,11) opened
    by (simp add: r(3) items sent_all_def transferDataLoop_eq tsdb_TransferData_def Let_def) blast
qed

theorem manager_sum_delivered_witness:
  "\<exists>t f m m1 f1 f2 t' c w. NewFlattener (Some (OpenTSDBT t)) example_flattener_config = Ok f \<and> mg_flattener m = Some f \<and>
    flatten_values crc32_lib 9 Sum_op 5 ''m'' [] (map f64_of_int [3, 4]) m = Ok m1 \<and>
    mg_flattener m1 = Some f1 \<and> beginCycle f1 = Done f2 \<and>
    transport_pass example_libs (fl_transport f2) = Some (OpenTSDBT t') \<and>
    io_connection (co_world (ot_core t')) = Some c \<and>
    nl_Write (lib_net example_libs) w c (bytes_of_string ''m'') = (io_world (co_world (ot_core t')), None)"
proof -
  obtain t where t: "example_transport = OpenTSDBT t" "ch_buf (co_chan (ot_core t)) = []"
      "0 < chan_room (co_chan (ot_core t))" "io_connection (co_world (ot_core t)) \<noteq> None"
    by (simp add: example_transport_def new_core_def chan_make_def chan_room_def)
  obtain f where f: "NewFlattener (Some (OpenTSDBT t)) example_flattener_config = Ok f"
    by (simp add: NewFlattener_def)
  have ff: "finitely_failing (lib_net example_libs) (\<lambda>w. w)"
    by (simp add: finitely_failing_def example_net_def example_libs_def)
  obtain hash where hash: "lift_hash (Generate crc32_lib (HashingAlgorithm example_flattener_config)
      (VUint SUint8 (ucast Sum_op) # VString ''m'' # [])) = Ok hash"
    using example_key [of 0] by (auto simp: point_key_def res_bind_Ok_iff example_point_def Sum_op_def)
  have ser: "ser_SerializeArray (lib_tsdb example_libs) (ot_serializer t)
      [\<lparr>Metric = ''m'', Tags = [], Timestamp = 5, Value = f64_of_int (sum_list [3, 4])\<rparr>] = Inr ''m''"
    by (simp add: example_libs_def example_tsdb_serializer_def)
  let ?m = "\<lparr>mg_transport = OpenTSDBT t, mg_flattener = Some f\<rparr>"
  have m: "mg_flattener ?m = Some f" by simp
  have ts: "0 < sint (5 :: 64 word)" and ns: "[3, 4 :: int] \<noteq> []" "sum_list (map abs [3, 4 :: int]) \<le> 2 ^ 53"
    by simp_all
  from manager_sum_delivered [OF f m t(2,3,4) ff hash ns ts ser, of 9] f m show ?thesis
    by blast
qed

end
