(* ===== verification/Scheduler.thy ===== *)
theory Scheduler
  imports Sync_Map
begin

text \<open>
  \<open>scheduler/task.go\<close> and \<open>scheduler/scheduler.go\<close>: tasks that run a job repeatedly and the manager
  that registers them.

  Tasks are shared by pointer between the client, the manager and the goroutines that \<open>Start\<close>
  launches: they live in a store and a pointer is an index. \<open>sc_loops\<close> lists the live goroutines by
  the task they serve, \<open>sc_log\<close> the executed jobs. The goroutine of a task is advanced by \<open>wake\<close>,
  which is what it does when its timer fires.

  The operations are first given as functions, for a client that is not disturbed. For clients that run
  at the same time, \<open>call_step\<close> cuts every operation into its accesses to the map, to a task and to the
  goroutines; \<open>run_call\<close> shows that the pieces of an undisturbed call add up to the function, and
  \<open>live_step\<close> interleaves the pieces of any number of calls with the goroutines.
\<close>

record 'j Task =
  ID :: string
  Duration :: int
  Job :: 'j
  running :: bool

record 'j sched =
  sc_tasks :: "'j Task list"
  sc_taskMap :: "(string, nat) sync_map"
  sc_loops :: "nat list"
  sc_log :: "'j list"

datatype sched_error =
    AlreadyExists string
  | AlreadyRunning string
  | NotRunning string
  | DoesNotExist string

section \<open>task.go\<close>

definition NewTask :: "string \<Rightarrow> int \<Rightarrow> 'j \<Rightarrow> 'j sched \<Rightarrow> nat \<times> 'j sched" where
  "NewTask i d j s =
     (length (sc_tasks s), s\<lparr>sc_tasks := sc_tasks s @ [\<lparr>ID = i, Duration = d, Job = j, running = False\<rparr>]\<rparr>)"

definition set_running :: "nat \<Rightarrow> bool \<Rightarrow> 'j sched \<Rightarrow> 'j sched" where
  "set_running a b s = s\<lparr>sc_tasks := (sc_tasks s)[a := (sc_tasks s ! a)\<lparr>running := b\<rparr>]\<rparr>"

definition task_Start :: "nat \<Rightarrow> 'j sched \<Rightarrow> 'j sched" where
  "task_Start a s =
     (if running (sc_tasks s ! a) then s
      else set_running a True (s\<lparr>sc_loops := sc_loops s @ [a]\<rparr>))"

definition task_Stop :: "nat \<Rightarrow> 'j sched \<Rightarrow> 'j sched" where
  "task_Stop a s = set_running a False s"

text \<open>The timer of the \<open>n\<close>-th goroutine fires: it ends if its task is not running, else executes the job.\<close>

definition wake :: "nat \<Rightarrow> 'j sched \<Rightarrow> 'j sched" where
  "wake n s =
     (let t = sc_tasks s ! (sc_loops s ! n)
      in if \<not> running t then s\<lparr>sc_loops := take n (sc_loops s) @ drop (Suc n) (sc_loops s)\<rparr>
         else s\<lparr>sc_log := sc_log s @ [Job t]\<rparr>)"

section \<open>scheduler.go\<close>

definition sched_New :: "'j sched" where
  "sched_New = \<lparr>sc_tasks = [], sc_taskMap = sm_empty, sc_loops = [], sc_log = []\<rparr>"

definition AddTask :: "nat \<Rightarrow> bool \<Rightarrow> 'j sched \<Rightarrow> sched_error option \<times> 'j sched" where
  "AddTask task autoStart s =
     (let i = ID (sc_tasks s ! task)
      in case sm_load (sc_taskMap s) i of
           Some _ \<Rightarrow> (Some (AlreadyExists i), s)
         | None \<Rightarrow>
             (let s = s\<lparr>sc_taskMap := sm_store i task (sc_taskMap s)\<rparr>
              in if autoStart then
                   (if running (sc_tasks s ! task) then (Some (AlreadyRunning i), s)
                    else (None, task_Start task s))
                 else (None, s)))"

definition Exists :: "string \<Rightarrow> 'j sched \<Rightarrow> bool" where
  "Exists i s = (sm_load (sc_taskMap s) i \<noteq> None)"

definition IsRunning :: "string \<Rightarrow> 'j sched \<Rightarrow> bool" where
  "IsRunning i s = (case sm_load (sc_taskMap s) i of Some a \<Rightarrow> running (sc_tasks s ! a) | None \<Rightarrow> False)"

definition RemoveTask :: "string \<Rightarrow> 'j sched \<Rightarrow> bool \<times> 'j sched" where
  "RemoveTask i s =
     (case sm_load (sc_taskMap s) i of
        Some a \<Rightarrow> (let s = task_Stop a s in (True, s\<lparr>sc_taskMap := sm_delete i (sc_taskMap s)\<rparr>))
      | None \<Rightarrow> (False, s))"

definition RemoveAllTasks :: "'j sched \<Rightarrow> 'j sched" where
  "RemoveAllTasks s =
     sm_range (\<lambda>k a s. (let s = task_Stop a s in s\<lparr>sc_taskMap := sm_delete k (sc_taskMap s)\<rparr>, True)) (sc_taskMap s) s"

definition StopTask :: "string \<Rightarrow> 'j sched \<Rightarrow> sched_error option \<times> 'j sched" where
  "StopTask i s =
     (case sm_load (sc_taskMap s) i of
        Some a \<Rightarrow> if running (sc_tasks s ! a) then (None, task_Stop a s) else (Some (NotRunning i), s)
      | None \<Rightarrow> (Some (DoesNotExist i), s))"

definition StartTask :: "string \<Rightarrow> 'j sched \<Rightarrow> sched_error option \<times> 'j sched" where
  "StartTask i s =
     (case sm_load (sc_taskMap s) i of
        Some a \<Rightarrow> if \<not> running (sc_tasks s ! a) then (None, task_Start a s) else (Some (AlreadyRunning i), s)
      | None \<Rightarrow> (Some (DoesNotExist i), s))"

definition GetNumTasks :: "'j sched \<Rightarrow> nat" where
  "GetNumTasks s = sm_range (\<lambda>_ _ length. (length + 1, True)) (sc_taskMap s) 0"

definition GetTasksIDs :: "'j sched \<Rightarrow> string list" where
  "GetTasksIDs s = sm_range (\<lambda>k _ tasks. (tasks @ [k], True)) (sc_taskMap s) []"

definition GetTasks :: "'j sched \<Rightarrow> nat list" where
  "GetTasks s = sm_range (\<lambda>_ v tasks. (tasks @ [v], True)) (sc_taskMap s) []"

definition GetTask :: "string \<Rightarrow> 'j sched \<Rightarrow> nat option" where
  "GetTask i s = sm_load (sc_taskMap s) i"

text \<open>
  Well-formed: every id is registered once, under the id of its task, every pointer is allocated, and
  a running task has a goroutine.
\<close>

definition sched_wf :: "'j sched \<Rightarrow> bool" where
  "sched_wf s \<longleftrightarrow>
     sm_invar (sc_taskMap s) \<and>
     (\<forall>i a. sm_load (sc_taskMap s) i = Some a \<longrightarrow> a < length (sc_tasks s) \<and> ID (sc_tasks s ! a) = i) \<and>
     set (sc_loops s) \<subseteq> {..<length (sc_tasks s)} \<and>
     (\<forall>a < length (sc_tasks s). running (sc_tasks s ! a) \<longrightarrow> a \<in> set (sc_loops s))"

lemma set_running_simps [simp]:
  "sc_taskMap (set_running a b s) = sc_taskMap s"
  "sc_loops (set_running a b s) = sc_loops s"
  "sc_log (set_running a b s) = sc_log s"
  "length (sc_tasks (set_running a b s)) = length (sc_tasks s)"
  "sc_tasks (s\<lparr>sc_taskMap := m\<rparr>) = sc_tasks s"
  "set_running a b (s\<lparr>sc_taskMap := m\<rparr>) = (set_running a b s)\<lparr>sc_taskMap := m\<rparr>"
  by (simp_all add: set_running_def)

lemma nth_set_running:
  "a < length (sc_tasks s) \<Longrightarrow> sc_tasks (set_running a b s) ! c =
     (if c = a then (sc_tasks s ! a)\<lparr>running := b\<rparr> else sc_tasks s ! c)"
  by (simp add: set_running_def)

section \<open>The invariant\<close>

lemma sched_wf_load: "sched_wf s \<Longrightarrow> sm_load (sc_taskMap s) i = Some a \<Longrightarrow> a < length (sc_tasks s) \<and> ID (sc_tasks s ! a) = i"
  by (simp add: sched_wf_def)

lemma sched_wf_New: "sched_wf sched_New"
  by (simp add: sched_wf_def sched_New_def)

lemma sched_wf_NewTask: "sched_wf s \<Longrightarrow> sched_wf (snd (NewTask i d j s))"
  by (auto simp: sched_wf_def NewTask_def nth_append less_Suc_eq)

lemma sched_wf_Start: "sched_wf s \<Longrightarrow> a < length (sc_tasks s) \<Longrightarrow> sched_wf (task_Start a s)"
  by (auto simp: sched_wf_def task_Start_def set_running_def nth_list_update split: if_splits)

lemma sched_wf_Stop: "sched_wf s \<Longrightarrow> a < length (sc_tasks s) \<Longrightarrow> sched_wf (task_Stop a s)"
  by (auto simp: sched_wf_def task_Stop_def nth_set_running split: if_splits)

lemma sched_wf_delete: "sched_wf s \<Longrightarrow> sched_wf (s\<lparr>sc_taskMap := sm_delete i (sc_taskMap s)\<rparr>)"
  by (auto simp: sched_wf_def split: if_splits)

lemma sched_wf_store:
  "sched_wf s \<Longrightarrow> a < length (sc_tasks s) \<Longrightarrow> sched_wf (s\<lparr>sc_taskMap := sm_store (ID (sc_tasks s ! a)) a (sc_taskMap s)\<rparr>)"
  by (auto simp: sched_wf_def split: if_splits)

lemma mem_take_drop: "n < length xs \<Longrightarrow> x \<in> set xs \<Longrightarrow> x \<noteq> xs ! n \<Longrightarrow> x \<in> set (take n xs @ drop (Suc n) xs)"
  by (subst (asm) id_take_nth_drop [of n xs]) auto

lemma set_take_drop: "set (take n xs @ drop m xs) \<subseteq> set xs"
  by (auto dest: in_set_takeD in_set_dropD)

lemma sched_wf_loops:
  "sched_wf s \<Longrightarrow> set l \<subseteq> {..<length (sc_tasks s)} \<Longrightarrow>
     \<forall>a < length (sc_tasks s). running (sc_tasks s ! a) \<longrightarrow> a \<in> set l \<Longrightarrow> sched_wf (s\<lparr>sc_loops := l\<rparr>)"
  by (simp add: sched_wf_def)

lemma sched_wf_wake:
  assumes "sched_wf s" and "n < length (sc_loops s)"
  shows "sched_wf (wake n s)"
proof (cases "running (sc_tasks s ! (sc_loops s ! n))")
  case True
  with assms show ?thesis by (simp add: wake_def sched_wf_def)
next
  case False
  let ?l = "take n (sc_loops s) @ drop (Suc n) (sc_loops s)"
  have "set ?l \<subseteq> {..<length (sc_tasks s)}"
    using assms(1) set_take_drop [of n "sc_loops s" "Suc n"] unfolding sched_wf_def by (meson subset_trans)
  moreover have "a \<in> set ?l" if "a < length (sc_tasks s)" "running (sc_tasks s ! a)" for a
    using assms that False by (intro mem_take_drop) (auto simp: sched_wf_def)
  ultimately have "sched_wf (s\<lparr>sc_loops := ?l\<rparr>)"
    using assms(1) by (intro sched_wf_loops) blast+
  with False show ?thesis
    by (simp add: wake_def)
qed

lemma sched_wf_AddTask:
  assumes "sched_wf s" and "a < length (sc_tasks s)"
  shows "sched_wf (snd (AddTask a b s))"
proof (cases "sm_load (sc_taskMap s) (ID (sc_tasks s ! a))")
  case None
  let ?s = "s\<lparr>sc_taskMap := sm_store (ID (sc_tasks s ! a)) a (sc_taskMap s)\<rparr>"
  have "sched_wf ?s" "sched_wf (task_Start a ?s)"
    using assms by (simp_all add: sched_wf_store sched_wf_Start)
  with None show ?thesis
    by (simp add: AddTask_def Let_def)
qed (use assms in \<open>simp add: AddTask_def\<close>)

text \<open>\<open>RemoveAllTasks\<close> as a fold of its two actions over the entries.\<close>

definition stop_delete :: "string \<times> nat \<Rightarrow> 'j sched \<Rightarrow> 'j sched" where
  "stop_delete e s = (case e of (k, a) \<Rightarrow> (task_Stop a s)\<lparr>sc_taskMap := sm_delete k (sc_taskMap s)\<rparr>)"

lemma RemoveAllTasks_fold: "RemoveAllTasks s = fold stop_delete (sc_taskMap s) s"
  unfolding RemoveAllTasks_def
  by (subst sm_range_fold) (simp, rule fold_cong, auto simp: fun_eq_iff stop_delete_def task_Stop_def Let_def)

lemma stop_delete_simps [simp]:
  "length (sc_tasks (stop_delete (k, a) s)) = length (sc_tasks s)"
  "sc_taskMap (stop_delete (k, a) s) = sm_delete k (sc_taskMap s)"
  "sc_loops (stop_delete (k, a) s) = sc_loops s"
  "sc_log (stop_delete (k, a) s) = sc_log s"
  by (simp_all add: stop_delete_def task_Stop_def)

lemma stop_delete_fold [simp]:
  "length (sc_tasks (fold stop_delete es s)) = length (sc_tasks s)"
  "sc_taskMap (fold stop_delete es s) = fold sm_delete (map fst es) (sc_taskMap s)"
  "sc_loops (fold stop_delete es s) = sc_loops s"
  "sc_log (fold stop_delete es s) = sc_log s"
  by (induction es arbitrary: s) auto

lemma stop_delete_fold_nth:
  assumes "\<forall>(k, a) \<in> set es. a < length (sc_tasks s)"
  shows "sc_tasks (fold stop_delete es s) ! b =
    (if b \<in> snd ` set es then (sc_tasks s ! b)\<lparr>running := False\<rparr> else sc_tasks s ! b)"
  using assms
proof (induction es arbitrary: s)
  case (Cons e es)
  obtain k a where e: "e = (k, a)" by (cases e)
  have nth: "sc_tasks (stop_delete (k, a) s) ! c = (if c = a then (sc_tasks s ! a)\<lparr>running := False\<rparr> else sc_tasks s ! c)" for c
    using Cons.prems by (auto simp: stop_delete_def task_Stop_def e nth_set_running)
  show ?case
    using Cons.IH [of "stop_delete (k, a) s"] Cons.prems by (cases "b = a") (simp_all add: e nth)
qed simp

lemma sched_wf_stop_delete: "sched_wf s \<Longrightarrow> a < length (sc_tasks s) \<Longrightarrow> sched_wf (stop_delete (k, a) s)"
  using sched_wf_delete [OF sched_wf_Stop, of s a k] by (simp add: stop_delete_def task_Stop_def)

lemma sched_wf_stop_delete_fold:
  "sched_wf s \<Longrightarrow> \<forall>(k, a) \<in> set es. a < length (sc_tasks s) \<Longrightarrow> sched_wf (fold stop_delete es s)"
proof (induction es arbitrary: s)
  case (Cons e es)
  then show ?case by (cases e) (auto intro!: Cons.IH sched_wf_stop_delete)
qed simp

lemma RemoveTask_eq:
  "RemoveTask i s = (case sm_load (sc_taskMap s) i of Some a \<Rightarrow> (True, stop_delete (i, a) s) | None \<Rightarrow> (False, s))"
  by (simp add: RemoveTask_def stop_delete_def task_Stop_def Let_def split: option.split)

lemma sched_wf_entries: "sched_wf s \<Longrightarrow> \<forall>(k, a) \<in> set (sc_taskMap s). a < length (sc_tasks s)"
  using sm.entry_load [of "sc_taskMap s"] by (auto simp: sched_wf_def)

lemma sched_wf_RemoveTask: "sched_wf s \<Longrightarrow> sched_wf (snd (RemoveTask i s))"
  by (auto simp: RemoveTask_eq sched_wf_load split: option.split intro!: sched_wf_stop_delete)

lemma sched_wf_RemoveAllTasks: "sched_wf s \<Longrightarrow> sched_wf (RemoveAllTasks s)"
  by (simp add: RemoveAllTasks_fold sched_wf_stop_delete_fold sched_wf_entries)

lemma sched_wf_StopTask: "sched_wf s \<Longrightarrow> sched_wf (snd (StopTask i s))"
  by (auto simp: StopTask_def sched_wf_load sched_wf_Stop split: option.split)

lemma sched_wf_StartTask: "sched_wf s \<Longrightarrow> sched_wf (snd (StartTask i s))"
  by (auto simp: StartTask_def sched_wf_load sched_wf_Start split: option.split)

section \<open>The manager as a registry\<close>

text \<open>What a client sees: which ids are registered, and which of them run.\<close>

definition sc_view :: "'j sched \<Rightarrow> string \<Rightarrow> bool option" where
  "sc_view s i = map_option (\<lambda>a. running (sc_tasks s ! a)) (sm_load (sc_taskMap s) i)"

locale task_registry =
  fixes view :: "'s \<Rightarrow> string \<Rightarrow> bool option"
    and invar :: "'s \<Rightarrow> bool"
    and start :: "string \<Rightarrow> 's \<Rightarrow> sched_error option \<times> 's"
    and stop :: "string \<Rightarrow> 's \<Rightarrow> sched_error option \<times> 's"
    and remove :: "string \<Rightarrow> 's \<Rightarrow> bool \<times> 's"
  assumes invar_start: "invar s \<Longrightarrow> invar (snd (start i s))"
    and invar_stop: "invar s \<Longrightarrow> invar (snd (stop i s))"
    and invar_remove: "invar s \<Longrightarrow> invar (snd (remove i s))"
    and start_ok: "fst (start i s) = None \<longleftrightarrow> view s i = Some False"
    and stop_ok: "fst (stop i s) = None \<longleftrightarrow> view s i = Some True"
    and remove_ok: "fst (remove i s) \<longleftrightarrow> view s i \<noteq> None"
    and view_start: "invar s \<Longrightarrow> view (snd (start i s)) = (if view s i = Some False then (view s)(i \<mapsto> True) else view s)"
    and view_stop: "invar s \<Longrightarrow> view (snd (stop i s)) = (if view s i = Some True then (view s)(i \<mapsto> False) else view s)"
    and view_remove: "invar s \<Longrightarrow> view (snd (remove i s)) = (view s)(i := None)"
begin

text \<open>A task can always be stopped after a successful start, and that undoes the start.\<close>

lemma stop_after_start:
  assumes "invar s" and "fst (start i s) = None"
  shows "fst (stop i (snd (start i s))) = None" and "view (snd (stop i (snd (start i s)))) = view s"
  using assms by (auto simp: start_ok stop_ok view_start view_stop invar_start fun_eq_iff)

lemma start_after_stop:
  assumes "invar s" and "fst (stop i s) = None"
  shows "fst (start i (snd (stop i s))) = None" and "view (snd (start i (snd (stop i s)))) = view s"
  using assms by (auto simp: start_ok stop_ok view_start view_stop invar_stop fun_eq_iff)

text \<open>Nothing can be done with a removed task.\<close>

lemma after_remove:
  assumes "invar s"
  shows "fst (start i (snd (remove i s))) \<noteq> None" and "fst (stop i (snd (remove i s))) \<noteq> None"
    and "\<not> fst (remove i (snd (remove i s)))"
  using assms by (simp_all add: start_ok stop_ok remove_ok view_remove del: not_None_eq)

end

lemma sched_wf_other:
  "sched_wf s \<Longrightarrow> sm_load (sc_taskMap s) i = Some a \<Longrightarrow> sm_load (sc_taskMap s) j = Some a \<Longrightarrow> i = j"
  using sched_wf_load by metis

lemma sc_view_set_running:
  assumes "sched_wf s" and "sm_load (sc_taskMap s) i = Some a"
  shows "sc_view (set_running a b s) = (sc_view s)(i \<mapsto> b)"
proof
  fix j
  show "sc_view (set_running a b s) j = ((sc_view s)(i \<mapsto> b)) j"
    using assms sched_wf_load [OF assms] sched_wf_other [OF assms, of j]
    by (cases "sm_load (sc_taskMap s) j") (auto simp: sc_view_def nth_set_running)
qed

lemma sc_view_loops [simp]: "sc_view (s\<lparr>sc_loops := l\<rparr>) = sc_view s"
  by (simp add: sc_view_def fun_eq_iff)

lemma sc_view_start:
  assumes "sched_wf s"
  shows "sc_view (snd (StartTask i s)) = (if sc_view s i = Some False then (sc_view s)(i \<mapsto> True) else sc_view s)"
proof (cases "sm_load (sc_taskMap s) i")
  case (Some a)
  have "sched_wf (s\<lparr>sc_loops := sc_loops s @ [a]\<rparr>)"
    using assms sched_wf_load [OF assms Some] by (auto simp: sched_wf_def)
  then have "sc_view (set_running a True (s\<lparr>sc_loops := sc_loops s @ [a]\<rparr>)) = (sc_view s)(i \<mapsto> True)"
    using Some by (subst sc_view_set_running) simp_all
  with Some show ?thesis
    by (simp add: StartTask_def task_Start_def) (simp add: sc_view_def Some)
qed (simp add: StartTask_def sc_view_def)

lemma sc_view_stop:
  assumes "sched_wf s"
  shows "sc_view (snd (StopTask i s)) = (if sc_view s i = Some True then (sc_view s)(i \<mapsto> False) else sc_view s)"
  using sc_view_set_running [OF assms, of i]
  by (auto simp: StopTask_def task_Stop_def split: option.split) (auto simp: sc_view_def)

lemma sc_view_remove:
  assumes "sched_wf s"
  shows "sc_view (snd (RemoveTask i s)) = (sc_view s)(i := None)"
proof (cases "sm_load (sc_taskMap s) i")
  case None
  then show ?thesis by (auto simp: RemoveTask_eq sc_view_def fun_eq_iff)
next
  case (Some a)
  have "sc_view (stop_delete (i, a) s) j = ((sc_view s)(i := None)) j" for j
    using fun_cong [OF sc_view_set_running [OF assms Some, of False], of j]
    by (cases "j = i") (simp_all add: sc_view_def stop_delete_def task_Stop_def)
  with Some show ?thesis by (simp add: RemoveTask_eq fun_eq_iff)
qed

interpretation sched: task_registry sc_view sched_wf StartTask StopTask RemoveTask
proof
qed (auto simp: sched_wf_StartTask sched_wf_StopTask sched_wf_RemoveTask,
     auto simp: sc_view_start sc_view_stop sc_view_remove,
     auto simp: StartTask_def StopTask_def RemoveTask_eq sc_view_def split: option.splits if_splits)

lemma range_keys: "sm_range (\<lambda>k _ tasks. (tasks @ [k], True)) m ks = ks @ map fst m"
  by (induction m arbitrary: ks) auto

lemma range_values: "sm_range (\<lambda>_ v tasks. (tasks @ [v], True)) m vs = vs @ map snd m"
  by (induction m arbitrary: vs) auto

lemma dom_sc_view: "dom (sc_view s) = dom (sm_load (sc_taskMap s))"
  by (auto simp: sc_view_def)

section \<open>Properties\<close>

text \<open>
  C8: the manager implements a registry of ids that run or do not run: each operation succeeds exactly
  in the states it documents and changes the entry of its own id only; the getters agree with the
  registry; \<open>RemoveAllTasks\<close> empties it.
\<close>

theorem scheduler_registry:
  assumes "sched_wf s"
  shows "Exists i s = (sc_view s i \<noteq> None) \<and> IsRunning i s = (sc_view s i = Some True) \<and>
    GetNumTasks s = card (dom (sc_view s)) \<and> set (GetTasksIDs s) = dom (sc_view s) \<and>
    (fst (StartTask i s) = None) = (sc_view s i = Some False) \<and>
    sc_view (snd (StartTask i s)) = (if sc_view s i = Some False then (sc_view s)(i \<mapsto> True) else sc_view s) \<and>
    (fst (StopTask i s) = None) = (sc_view s i = Some True) \<and>
    sc_view (snd (StopTask i s)) = (if sc_view s i = Some True then (sc_view s)(i \<mapsto> False) else sc_view s) \<and>
    fst (RemoveTask i s) = (sc_view s i \<noteq> None) \<and> sc_view (snd (RemoveTask i s)) = (sc_view s)(i := None) \<and>
    sc_view (RemoveAllTasks s) = Map.empty"
proof -
  have inv: "sm_invar (sc_taskMap s)" using assms by (simp add: sched_wf_def)
  have num: "GetNumTasks s = card (dom (sc_view s))"
    using GetSyncMapSize_length [of "sc_taskMap s"] sm.length_entries [OF inv]
    by (simp add: GetNumTasks_def GetSyncMapSize_def dom_sc_view)
  have ids: "set (GetTasksIDs s) = dom (sc_view s)"
    by (simp add: GetTasksIDs_def range_keys dom_sc_view sm.dom_entries [OF inv])
  have ex: "Exists i s = (sc_view s i \<noteq> None)" "IsRunning i s = (sc_view s i = Some True)"
    by (simp_all add: Exists_def IsRunning_def sc_view_def split: option.split)
  have all: "sc_view (RemoveAllTasks s) = Map.empty"
    using sm.drain [OF inv] by (simp add: RemoveAllTasks_fold sc_view_def fun_eq_iff)
  show ?thesis
    using num ids ex all sched.view_start [OF assms] sched.view_stop [OF assms] sched.view_remove [OF assms]
      sched.start_ok sched.stop_ok sched.remove_ok by blast
qed

definition example_sched :: "string sched" where
  "example_sched =
     \<lparr>sc_tasks = [\<lparr>ID = ''t'', Duration = 5, Job = ''job'', running = True\<rparr>], sc_taskMap = [(''t'', 0)],
      sc_loops = [0], sc_log = []\<rparr>"

lemma example_sched_wf: "sched_wf example_sched"
  by (simp add: sched_wf_def example_sched_def sm_invar_def sm_load_def)

theorem scheduler_registry_witness:
  "sc_view (snd (StopTask ''t'' example_sched)) = (sc_view example_sched)(''t'' \<mapsto> False) \<and>
   GetNumTasks example_sched = card (dom (sc_view example_sched))"
proof -
  have "sc_view example_sched ''t'' = Some True"
    by (simp add: sc_view_def example_sched_def sm_load_def)
  with scheduler_registry [OF example_sched_wf, of "''t''"] show ?thesis by simp
qed

text \<open>
  C26: after a task is removed, or all tasks are, each goroutine of a removed task ends when its timer
  fires, without executing the job.
\<close>

theorem scheduler_removed_task_ends:
  assumes "sched_wf s" and "sm_load (sc_taskMap s) i = Some a"
    and "s' = snd (RemoveTask i s) \<or> s' = RemoveAllTasks s"
    and "n < length (sc_loops s')" and "sc_loops s' ! n = a"
  shows "sc_log (wake n s') = sc_log s \<and> length (sc_loops (wake n s')) + 1 = length (sc_loops s)"
proof -
  have a: "a < length (sc_tasks s)" using sched_wf_load [OF assms(1,2)] by simp
  have "(i, a) \<in> set (sc_taskMap s)"
    using assms(1,2) sm.entry_load [of "sc_taskMap s"] by (simp add: sched_wf_def)
  then have "a \<in> snd ` set (sc_taskMap s)" by force
  then have "\<not> running (sc_tasks s' ! a)"
    using assms(2,3) a stop_delete_fold_nth [OF sched_wf_entries [OF assms(1)], of a]
    by (auto simp: RemoveTask_eq RemoveAllTasks_fold stop_delete_def task_Stop_def nth_set_running)
  moreover have "sc_log s' = sc_log s" "sc_loops s' = sc_loops s"
    using assms(2,3) by (auto simp: RemoveTask_eq RemoveAllTasks_fold)
  ultimately show ?thesis
    using assms(4,5) by (auto simp: wake_def)
qed

theorem scheduler_removed_task_ends_witness:
  "sc_log (wake 0 (RemoveAllTasks example_sched)) = sc_log example_sched \<and>
   length (sc_loops (wake 0 (RemoveAllTasks example_sched))) + 1 = length (sc_loops example_sched)"
  by (rule scheduler_removed_task_ends [OF example_sched_wf, of "''t''" 0])
    (simp_all add: RemoveAllTasks_fold, simp_all add: example_sched_def sm_load_def)

text \<open>
  Stopping a task and starting it again before its timer fires leaves the old goroutine alive and
  adds another one: the task then has one goroutine more than before, and each of them executes the
  job when its timer fires.
\<close>

theorem scheduler_restart_adds_goroutine:
  assumes "sched_wf s" and "sm_load (sc_taskMap s) i = Some a" and "running (sc_tasks s ! a)"
  shows "\<exists>s1 s2. StopTask i s = (None, s1) \<and> StartTask i s1 = (None, s2) \<and>
    count_list (sc_loops s2) a = count_list (sc_loops s) a + 1 \<and>
    (\<forall>n < length (sc_loops s2). sc_loops s2 ! n = a \<longrightarrow>
       sc_log (wake n s2) = sc_log s2 @ [Job (sc_tasks s ! a)] \<and> sc_loops (wake n s2) = sc_loops s2)"
proof -
  have a: "a < length (sc_tasks s)" using sched_wf_load [OF assms(1,2)] by simp
  let ?s1 = "set_running a False s"
  let ?s2 = "set_running a True (?s1\<lparr>sc_loops := sc_loops ?s1 @ [a]\<rparr>)"
  have "StopTask i s = (None, ?s1)"
    using assms by (simp add: StopTask_def task_Stop_def)
  moreover have "StartTask i ?s1 = (None, ?s2)"
    using assms a by (simp add: StartTask_def task_Start_def nth_set_running)
  moreover have "running (sc_tasks ?s2 ! a)" "Job (sc_tasks ?s2 ! a) = Job (sc_tasks s ! a)"
    using a by (simp_all add: set_running_def)
  ultimately show ?thesis
    by (intro exI [of _ ?s1] exI [of _ ?s2]) (simp add: wake_def)
qed

theorem scheduler_restart_adds_goroutine_witness:
  "\<exists>s1 s2. StopTask ''t'' example_sched = (None, s1) \<and> StartTask ''t'' s1 = (None, s2) \<and>
     count_list (sc_loops s2) 0 = count_list (sc_loops example_sched) 0 + 1"
  using scheduler_restart_adds_goroutine [OF example_sched_wf, of "''t''" 0]
  by (auto simp: example_sched_def sm_load_def)

text \<open>
  Adding a task that is already running with automatic start reports an error, and yet the task
  has been registered.
\<close>

theorem scheduler_AddTask_running:
  assumes "sm_load (sc_taskMap s) (ID (sc_tasks s ! a)) = None" and "running (sc_tasks s ! a)"
  shows "\<exists>s'. AddTask a True s = (Some (AlreadyRunning (ID (sc_tasks s ! a))), s') \<and>
    GetTask (ID (sc_tasks s ! a)) s' = Some a"
  using assms by (simp add: AddTask_def GetTask_def Let_def)

theorem scheduler_AddTask_running_witness:
  "\<exists>s'. AddTask 0 True (example_sched\<lparr>sc_taskMap := sm_empty\<rparr>) = (Some (AlreadyRunning ''t''), s') \<and>
    GetTask ''t'' s' = Some 0"
  using scheduler_AddTask_running [of "example_sched\<lparr>sc_taskMap := sm_empty\<rparr>" 0] by (simp add: example_sched_def)

section \<open>Calls in progress\<close>

text \<open>
  Where a call of an operation stands: each constructor is the next access of the call to the map
  (\<open>Load\<close>, \<open>Store\<close>, \<open>Delete\<close>, \<open>Range\<close>), to the field \<open>running\<close> of a task, or the \<open>go\<close> statement of \<open>Start\<close>.
  \<open>Task.Start\<close> begins at \<open>AtStartCheck\<close> and \<open>Task.Stop\<close> is \<open>AtStopSet\<close>. \<open>Range\<close> goes through the keys that
  are there when it begins and loads the value of each when it comes to it.
\<close>

datatype sched_call =
    AtAddLoad nat bool
  | AtAddStore nat bool
  | AtAddCheck nat
  | AtStartCheck nat
  | AtStartGo nat
  | AtStartSet nat
  | AtRemoveLoad string
  | AtRemoveStop string nat
  | AtRemoveDelete string
  | AtRange
  | AtRangeLoad "string list"
  | AtRangeStop string nat "string list"
  | AtRangeDelete string "string list"
  | AtStopLoad string
  | AtStopCheck string nat
  | AtStopSet nat
  | AtStartLoad string
  | AtStartTaskCheck string nat

datatype sched_result = Returned "sched_error option" | Removed bool

fun call_step :: "sched_call \<Rightarrow> 'j sched \<Rightarrow> (sched_call + sched_result) \<times> 'j sched" where
  "call_step (AtAddLoad a autoStart) s =
     (case sm_load (sc_taskMap s) (ID (sc_tasks s ! a)) of
        Some _ \<Rightarrow> (Inr (Returned (Some (AlreadyExists (ID (sc_tasks s ! a))))), s)
      | None \<Rightarrow> (Inl (AtAddStore a autoStart), s))"
| "call_step (AtAddStore a autoStart) s =
     (if autoStart then Inl (AtAddCheck a) else Inr (Returned None),
      s\<lparr>sc_taskMap := sm_store (ID (sc_tasks s ! a)) a (sc_taskMap s)\<rparr>)"
| "call_step (AtAddCheck a) s =
     (if running (sc_tasks s ! a) then Inr (Returned (Some (AlreadyRunning (ID (sc_tasks s ! a)))))
      else Inl (AtStartCheck a), s)"
| "call_step (AtStartCheck a) s =
     (if running (sc_tasks s ! a) then Inr (Returned None) else Inl (AtStartGo a), s)"
| "call_step (AtStartGo a) s = (Inl (AtStartSet a), s\<lparr>sc_loops := sc_loops s @ [a]\<rparr>)"
| "call_step (AtStartSet a) s = (Inr (Returned None), set_running a True s)"
| "call_step (AtRemoveLoad i) s =
     (case sm_load (sc_taskMap s) i of
        Some a \<Rightarrow> (Inl (AtRemoveStop i a), s) | None \<Rightarrow> (Inr (Removed False), s))"
| "call_step (AtRemoveStop i a) s = (Inl (AtRemoveDelete i), set_running a False s)"
| "call_step (AtRemoveDelete i) s = (Inr (Removed True), s\<lparr>sc_taskMap := sm_delete i (sc_taskMap s)\<rparr>)"
| "call_step AtRange s = (Inl (AtRangeLoad (map fst (sc_taskMap s))), s)"
| "call_step (AtRangeLoad []) s = (Inr (Returned None), s)"
| "call_step (AtRangeLoad (k # ks)) s =
     (case sm_load (sc_taskMap s) k of
        Some a \<Rightarrow> (Inl (AtRangeStop k a ks), s) | None \<Rightarrow> (Inl (AtRangeLoad ks), s))"
| "call_step (AtRangeStop k a ks) s = (Inl (AtRangeDelete k ks), set_running a False s)"
| "call_step (AtRangeDelete k ks) s =
     (Inl (AtRangeLoad ks), s\<lparr>sc_taskMap := sm_delete k (sc_taskMap s)\<rparr>)"
| "call_step (AtStopLoad i) s =
     (case sm_load (sc_taskMap s) i of
        Some a \<Rightarrow> (Inl (AtStopCheck i a), s) | None \<Rightarrow> (Inr (Returned (Some (DoesNotExist i))), s))"
| "call_step (AtStopCheck i a) s =
     (if running (sc_tasks s ! a) then Inl (AtStopSet a) else Inr (Returned (Some (NotRunning i))), s)"
| "call_step (AtStopSet a) s = (Inr (Returned None), set_running a False s)"
| "call_step (AtStartLoad i) s =
     (case sm_load (sc_taskMap s) i of
        Some a \<Rightarrow> (Inl (AtStartTaskCheck i a), s) | None \<Rightarrow> (Inr (Returned (Some (DoesNotExist i))), s))"
| "call_step (AtStartTaskCheck i a) s =
     (if \<not> running (sc_tasks s ! a) then Inl (AtStartCheck a) else Inr (Returned (Some (AlreadyRunning i))), s)"

text \<open>A bound on the accesses that a call still makes.\<close>

fun call_rank :: "sched_call \<Rightarrow> 'j sched \<Rightarrow> nat" where
  "call_rank (AtAddLoad _ _) s = 5"
| "call_rank (AtAddStore _ _) s = 4"
| "call_rank (AtAddCheck _) s = 3"
| "call_rank (AtStartCheck _) s = 2"
| "call_rank (AtStartGo _) s = 1"
| "call_rank (AtStartSet _) s = 0"
| "call_rank (AtRemoveLoad _) s = 2"
| "call_rank (AtRemoveStop _ _) s = 1"
| "call_rank (AtRemoveDelete _) s = 0"
| "call_rank AtRange s = Suc (3 * length (sc_taskMap s))"
| "call_rank (AtRangeLoad ks) s = 3 * length ks"
| "call_rank (AtRangeStop _ _ ks) s = 3 * length ks + 2"
| "call_rank (AtRangeDelete _ ks) s = 3 * length ks + 1"
| "call_rank (AtStopLoad _) s = 2"
| "call_rank (AtStopCheck _ _) s = 1"
| "call_rank (AtStopSet _) s = 0"
| "call_rank (AtStartLoad _) s = 4"
| "call_rank (AtStartTaskCheck _ _) s = 3"

lemma call_step_rank: "call_step c s = (Inl c', s') \<Longrightarrow> call_rank c' s' < call_rank c s"
  by (cases "(c, s)" rule: call_step.cases) (auto split: option.splits if_splits)

text \<open>A call that nothing disturbs.\<close>

function run_call :: "sched_call \<Rightarrow> 'j sched \<Rightarrow> sched_result \<times> 'j sched" where
  "run_call c s = (case call_step c s of (Inl c', s') \<Rightarrow> run_call c' s' | (Inr r, s') \<Rightarrow> (r, s'))"
  by pat_completeness auto
termination
  by (relation "measure (\<lambda>(c, s). call_rank c s)") (auto intro!: call_step_rank)

declare run_call.simps [simp del]

lemmas run_call_unfold = run_call.simps [of "AtAddLoad a b" for a b] run_call.simps [of "AtAddStore a b" for a b]
  run_call.simps [of "AtAddCheck a" for a] run_call.simps [of "AtStartCheck a" for a]
  run_call.simps [of "AtStartGo a" for a] run_call.simps [of "AtStartSet a" for a]
  run_call.simps [of "AtRemoveLoad i" for i] run_call.simps [of "AtRemoveStop i a" for i a]
  run_call.simps [of "AtRemoveDelete i" for i] run_call.simps [of AtRange]
  run_call.simps [of "AtRangeLoad []"] run_call.simps [of "AtRangeLoad (k # ks)" for k ks]
  run_call.simps [of "AtRangeStop k a ks" for k a ks] run_call.simps [of "AtRangeDelete k ks" for k ks]
  run_call.simps [of "AtStopLoad i" for i] run_call.simps [of "AtStopCheck i a" for i a]
  run_call.simps [of "AtStopSet a" for a] run_call.simps [of "AtStartLoad i" for i]
  run_call.simps [of "AtStartTaskCheck i a" for i a]

text \<open>The accesses of an undisturbed call make up the operation.\<close>

lemma run_call_Start: "run_call (AtStartCheck a) s = (Returned None, task_Start a s)"
  by (simp add: run_call_unfold task_Start_def)

lemma run_call_AddTask: "run_call (AtAddLoad a b) s = map_prod Returned id (AddTask a b s)"
  by (simp add: run_call_unfold AddTask_def task_Start_def Let_def split: option.split)

lemma run_call_RemoveTask: "run_call (AtRemoveLoad i) s = map_prod Removed id (RemoveTask i s)"
  by (simp add: run_call_unfold RemoveTask_def task_Stop_def Let_def split: option.split)

lemma run_call_StopTask: "run_call (AtStopLoad i) s = map_prod Returned id (StopTask i s)"
  by (simp add: run_call_unfold StopTask_def task_Stop_def split: option.split)

lemma run_call_StartTask: "run_call (AtStartLoad i) s = map_prod Returned id (StartTask i s)"
  by (simp add: run_call_unfold StartTask_def task_Start_def split: option.split)

lemma run_call_range:
  "distinct (map fst es) \<Longrightarrow> \<forall>(k, a) \<in> set es. sm_load (sc_taskMap s) k = Some a \<Longrightarrow>
     run_call (AtRangeLoad (map fst es)) s = (Returned None, fold stop_delete es s)"
proof (induction es arbitrary: s)
  case (Cons e es)
  obtain k a where e: "e = (k, a)" by (cases e)
  have "run_call (AtRangeLoad (map fst es)) (stop_delete (k, a) s) =
      (Returned None, fold stop_delete es (stop_delete (k, a) s))"
    using Cons.prems e by (intro Cons.IH) force+
  with Cons.prems e show ?case
    by (simp add: run_call_unfold stop_delete_def [of "(k, a)"] task_Stop_def)
qed (simp add: run_call_unfold)

lemma run_call_RemoveAllTasks:
  assumes "sm_invar (sc_taskMap s)"
  shows "run_call AtRange s = (Returned None, RemoveAllTasks s)"
proof -
  have "run_call (AtRangeLoad (map fst (sc_taskMap s))) s = (Returned None, fold stop_delete (sc_taskMap s) s)"
    by (rule run_call_range) (use assms sm.entry_load [OF assms] in \<open>auto simp: sm_invar_def\<close>)
  then show ?thesis
    by (simp add: run_call.simps [of AtRange] RemoveAllTasks_fold)
qed

section \<open>Everything that can happen\<close>

text \<open>
  The scheduler with the calls in progress. A call may begin at any time, any call may make its next
  access, and the timer of any goroutine may fire. \<open>slow a\<close> says that the timer of task \<open>a\<close> runs longer
  than a call of \<open>Start\<close> takes from its \<open>go\<close> statement to its last assignment; the timer of another task may
  fire in between.
\<close>

record 'j live =
  lv_sched :: "'j sched"
  lv_calls :: "sched_call list"

definition live_New :: "'j live" where
  "live_New = \<lparr>lv_sched = sched_New, lv_calls = []\<rparr>"

fun entry_call :: "sched_call \<Rightarrow> nat \<Rightarrow> bool" where
  "entry_call (AtAddLoad a _) n = (a < n)"
| "entry_call (AtStartCheck a) n = (a < n)"
| "entry_call (AtStopSet a) n = (a < n)"
| "entry_call (AtRemoveLoad _) n = True"
| "entry_call AtRange n = True"
| "entry_call (AtStopLoad _) n = True"
| "entry_call (AtStartLoad _) n = True"
| "entry_call _ n = False"

definition drop_nth :: "nat \<Rightarrow> 'a list \<Rightarrow> 'a list" where
  "drop_nth n xs = take n xs @ drop (Suc n) xs"

inductive live_step :: "(nat \<Rightarrow> bool) \<Rightarrow> 'j live \<Rightarrow> 'j live \<Rightarrow> bool" for slow where
  new: "live_step slow v (v\<lparr>lv_sched := snd (NewTask i d j (lv_sched v))\<rparr>)"
| call: "entry_call c (length (sc_tasks (lv_sched v))) \<Longrightarrow> live_step slow v (v\<lparr>lv_calls := lv_calls v @ [c]\<rparr>)"
| access: "n < length (lv_calls v) \<Longrightarrow> call_step (lv_calls v ! n) (lv_sched v) = (Inl c, s) \<Longrightarrow>
    live_step slow v (v\<lparr>lv_sched := s, lv_calls := (lv_calls v)[n := c]\<rparr>)"
| return: "n < length (lv_calls v) \<Longrightarrow> call_step (lv_calls v ! n) (lv_sched v) = (Inr r, s) \<Longrightarrow>
    live_step slow v (v\<lparr>lv_sched := s, lv_calls := drop_nth n (lv_calls v)\<rparr>)"
| wake: "n < length (sc_loops (lv_sched v)) \<Longrightarrow>
    (slow (sc_loops (lv_sched v) ! n) \<longrightarrow> AtStartSet (sc_loops (lv_sched v) ! n) \<notin> set (lv_calls v)) \<Longrightarrow>
    live_step slow v (v\<lparr>lv_sched := wake n (lv_sched v)\<rparr>)"

text \<open>The tasks that a call holds a pointer to.\<close>

fun call_task :: "sched_call \<Rightarrow> nat option" where
  "call_task (AtAddLoad a _) = Some a"
| "call_task (AtAddStore a _) = Some a"
| "call_task (AtAddCheck a) = Some a"
| "call_task (AtStartCheck a) = Some a"
| "call_task (AtStartGo a) = Some a"
| "call_task (AtStartSet a) = Some a"
| "call_task (AtRemoveStop _ a) = Some a"
| "call_task (AtRangeStop _ a _) = Some a"
| "call_task (AtStopCheck _ a) = Some a"
| "call_task (AtStopSet a) = Some a"
| "call_task (AtStartTaskCheck _ a) = Some a"
| "call_task _ = None"

definition sched_typed :: "'j sched \<Rightarrow> bool" where
  "sched_typed s \<longleftrightarrow>
     sm_invar (sc_taskMap s) \<and>
     (\<forall>i a. sm_load (sc_taskMap s) i = Some a \<longrightarrow> a < length (sc_tasks s) \<and> ID (sc_tasks s ! a) = i) \<and>
     set (sc_loops s) \<subseteq> {..<length (sc_tasks s)}"

definition calls_typed :: "'j live \<Rightarrow> bool" where
  "calls_typed v \<longleftrightarrow> (\<forall>c\<in>set (lv_calls v). \<forall>a. call_task c = Some a \<longrightarrow> a < length (sc_tasks (lv_sched v)))"

text \<open>A slow task that runs, or is about to, has a goroutine.\<close>

definition served :: "(nat \<Rightarrow> bool) \<Rightarrow> 'j live \<Rightarrow> bool" where
  "served slow v \<longleftrightarrow>
     (\<forall>a < length (sc_tasks (lv_sched v)). slow a \<longrightarrow>
        running (sc_tasks (lv_sched v) ! a) \<or> AtStartSet a \<in> set (lv_calls v) \<longrightarrow> a \<in> set (sc_loops (lv_sched v)))"

lemma call_step_length: "length (sc_tasks (snd (call_step c s))) = length (sc_tasks s)"
  by (cases "(c, s)" rule: call_step.cases) (auto split: option.split)

lemma call_step_typed:
  assumes "sched_typed s" and "\<And>a. call_task c = Some a \<Longrightarrow> a < length (sc_tasks s)"
  shows "sched_typed (snd (call_step c s))"
  using assms
  by (cases "(c, s)" rule: call_step.cases)
    (auto simp: sched_typed_def nth_set_running split: option.split if_splits)

lemma call_step_task:
  assumes "sched_typed s" and "\<And>a. call_task c = Some a \<Longrightarrow> a < length (sc_tasks s)"
    and "call_step c s = (Inl c', s')" and "call_task c' = Some a"
  shows "a < length (sc_tasks s)"
  using assms
  by (cases "(c, s)" rule: call_step.cases) (auto simp: sched_typed_def split: option.splits if_splits)

lemma in_drop_nth: "x \<in> set (drop_nth n xs) \<Longrightarrow> x \<in> set xs"
  using set_take_drop [of n xs "Suc n"] by (auto simp: drop_nth_def)

lemma call_step_loops: "call_step c s = (r, s') \<Longrightarrow> x \<in> set (sc_loops s) \<Longrightarrow> x \<in> set (sc_loops s')"
  by (cases "(c, s)" rule: call_step.cases) (auto split: option.splits)

lemma call_step_launched: "call_step c s = (Inl (AtStartSet a), s') \<Longrightarrow> a \<in> set (sc_loops s')"
  by (cases "(c, s)" rule: call_step.cases) (auto split: option.splits if_splits)

lemma running_set_running: "running (sc_tasks (set_running b x s) ! a) \<Longrightarrow> running (sc_tasks s ! a) \<or> b = a \<and> x"
  using nth_set_running [of b s x a] by (cases "b < length (sc_tasks s)") (auto simp: set_running_def list_update_beyond not_less split: if_splits)

lemma call_step_running:
  "call_step c s = (r, s') \<Longrightarrow> running (sc_tasks s' ! a) \<Longrightarrow> running (sc_tasks s ! a) \<or> c = AtStartSet a"
  by (cases "(c, s)" rule: call_step.cases)
    (auto split: option.splits dest: running_set_running)

definition live_inv :: "(nat \<Rightarrow> bool) \<Rightarrow> 'j live \<Rightarrow> bool" where
  "live_inv slow v \<longleftrightarrow> sched_typed (lv_sched v) \<and> calls_typed v \<and> served slow v"

lemma live_inv_New: "live_inv slow live_New"
  by (simp add: live_inv_def live_New_def sched_New_def sched_typed_def calls_typed_def served_def)

lemma live_inv_task:
  "live_inv slow v \<Longrightarrow> c \<in> set (lv_calls v) \<Longrightarrow> call_task c = Some a \<Longrightarrow> a < length (sc_tasks (lv_sched v))"
  by (auto simp: live_inv_def calls_typed_def)

lemma live_inv_new_task:
  assumes "live_inv slow v"
  shows "live_inv slow (v\<lparr>lv_sched := snd (NewTask i d j (lv_sched v))\<rparr>)"
proof -
  have "AtStartSet (length (sc_tasks (lv_sched v))) \<notin> set (lv_calls v)"
    using live_inv_task [OF assms, of "AtStartSet (length (sc_tasks (lv_sched v)))"] by auto
  moreover have "sched_typed (snd (NewTask i d j (lv_sched v)))"
    using assms by (force simp: live_inv_def sched_typed_def NewTask_def nth_append)
  ultimately show ?thesis
    using assms by (auto simp: live_inv_def calls_typed_def served_def NewTask_def nth_append less_Suc_eq)
qed

lemma entry_call_task: "entry_call c n \<Longrightarrow> call_task c = Some a \<Longrightarrow> a < n"
  by (cases c) auto

lemma live_inv_call:
  assumes "live_inv slow v" and "entry_call c (length (sc_tasks (lv_sched v)))"
  shows "live_inv slow (v\<lparr>lv_calls := lv_calls v @ [c]\<rparr>)"
proof -
  have "c \<noteq> AtStartSet a" for a
    using assms(2) by auto
  then show ?thesis
    using assms(1) entry_call_task [OF assms(2)] by (auto simp: live_inv_def calls_typed_def served_def)
qed

text \<open>An access of a call in progress, whose place is taken by \<open>cs\<close>: the next access, or nothing.\<close>

lemma live_inv_access:
  assumes inv: "live_inv slow v" and c: "c \<in> set (lv_calls v)" and step: "call_step c (lv_sched v) = (r, s)"
    and calls: "set cs \<subseteq> set (lv_calls v) \<union> {c'. r = Inl c'}"
  shows "live_inv slow (v\<lparr>lv_sched := s, lv_calls := cs\<rparr>)"
proof -
  have typed: "sched_typed (lv_sched v)" and task: "\<And>a. call_task c = Some a \<Longrightarrow> a < length (sc_tasks (lv_sched v))"
    using inv live_inv_task [OF inv c] by (auto simp: live_inv_def)
  have len: "length (sc_tasks s) = length (sc_tasks (lv_sched v))"
    using call_step_length [of c "lv_sched v"] step by simp
  have "sched_typed s"
    using call_step_typed [OF typed, of c] task step by auto
  moreover have "a < length (sc_tasks s)" if "c' \<in> set cs" "call_task c' = Some a" for c' a
    using that calls len live_inv_task [OF inv, of c' a] call_step_task [where c = c and c' = c' and s' = s, OF typed task _ that(2)] step by auto
  moreover have "served slow (v\<lparr>lv_sched := s, lv_calls := cs\<rparr>)"
    unfolding served_def
  proof (intro allI impI)
    fix a
    assume a: "a < length (sc_tasks (lv_sched (v\<lparr>lv_sched := s, lv_calls := cs\<rparr>)))" "slow a"
      and "running (sc_tasks (lv_sched (v\<lparr>lv_sched := s, lv_calls := cs\<rparr>)) ! a) \<or>
        AtStartSet a \<in> set (lv_calls (v\<lparr>lv_sched := s, lv_calls := cs\<rparr>))"
    then have "running (sc_tasks (lv_sched v) ! a) \<or> AtStartSet a \<in> set (lv_calls v) \<or> r = Inl (AtStartSet a)"
      using call_step_running [OF step, of a] c calls len by auto
    then show "a \<in> set (sc_loops (lv_sched (v\<lparr>lv_sched := s, lv_calls := cs\<rparr>)))"
      using a len inv call_step_loops [OF step, of a] call_step_launched [of c "lv_sched v" a s] step
      by (auto simp: live_inv_def served_def)
  qed
  ultimately show ?thesis
    by (auto simp: live_inv_def calls_typed_def)
qed

lemma live_inv_wake:
  assumes inv: "live_inv slow v" and n: "n < length (sc_loops (lv_sched v))"
    and guard: "slow (sc_loops (lv_sched v) ! n) \<longrightarrow> AtStartSet (sc_loops (lv_sched v) ! n) \<notin> set (lv_calls v)"
  shows "live_inv slow (v\<lparr>lv_sched := wake n (lv_sched v)\<rparr>)"
proof (cases "running (sc_tasks (lv_sched v) ! (sc_loops (lv_sched v) ! n))")
  case True
  with inv show ?thesis
    by (auto simp: live_inv_def sched_typed_def calls_typed_def served_def wake_def)
next
  case False
  have "a \<in> set (take n (sc_loops (lv_sched v)) @ drop (Suc n) (sc_loops (lv_sched v)))"
    if "a < length (sc_tasks (lv_sched v))" "slow a"
      "running (sc_tasks (lv_sched v) ! a) \<or> AtStartSet a \<in> set (lv_calls v)" for a
    using that inv guard False by (intro mem_take_drop [OF n]) (auto simp: live_inv_def served_def)
  then show ?thesis
    using inv False set_take_drop [of n "sc_loops (lv_sched v)" "Suc n"]
    by (auto simp: live_inv_def sched_typed_def calls_typed_def served_def wake_def simp del: set_append)
qed

lemma live_inv_step: "live_step slow v v' \<Longrightarrow> live_inv slow v \<Longrightarrow> live_inv slow v'"
proof (induction rule: live_step.induct)
  case (access n v c s)
  then show ?case
    by (intro live_inv_access [OF access.prems nth_mem]) (auto dest: set_update_subset_insert [THEN subsetD])
next
  case (return n v r s)
  then show ?case
    by (intro live_inv_access [OF return.prems nth_mem]) (auto dest: in_drop_nth)
qed (simp_all add: live_inv_new_task live_inv_call live_inv_wake)

lemma live_inv_steps: "(live_step slow)\<^sup>*\<^sup>* v v' \<Longrightarrow> live_inv slow v \<Longrightarrow> live_inv slow v'"
  by (induction rule: rtranclp_induct) (auto intro: live_inv_step)

section \<open>Properties of interleaved calls\<close>

text \<open>
  C7: whatever clients and goroutines do at the same time, from a new scheduler on: every id is registered
  at most once and under the id of its own task, goroutines serve tasks that exist, and every running task
  has a goroutine, provided that its timer runs longer than a call of \<open>Start\<close> takes from launching the
  goroutine to setting \<open>running\<close>.
\<close>

theorem scheduler_reachable_wf:
  assumes "(live_step slow)\<^sup>*\<^sup>* live_New v"
  shows "distinct (GetTasksIDs (lv_sched v)) \<and>
    (\<forall>i a. GetTask i (lv_sched v) = Some a \<longrightarrow> a < length (sc_tasks (lv_sched v)) \<and> ID (sc_tasks (lv_sched v) ! a) = i) \<and>
    set (sc_loops (lv_sched v)) \<subseteq> {..<length (sc_tasks (lv_sched v))} \<and>
    (\<forall>a < length (sc_tasks (lv_sched v)). slow a \<longrightarrow> running (sc_tasks (lv_sched v) ! a) \<longrightarrow> a \<in> set (sc_loops (lv_sched v)))"
  using live_inv_steps [OF assms live_inv_New]
  by (simp add: live_inv_def sched_typed_def served_def GetTasksIDs_def GetTask_def range_keys sm_invar_def)

text \<open>The steps of a call that begins when no other call is in progress.\<close>

lemma live_call_steps:
  assumes "lv_calls v = [c]" and "lv_sched v = s"
  shows "(live_step slow)\<^sup>*\<^sup>* v (v\<lparr>lv_sched := snd (run_call c s), lv_calls := []\<rparr>)"
  using assms
proof (induction c s arbitrary: v rule: run_call.induct)
  case (1 c s0)
  obtain r s where rs: "call_step c s0 = (r, s)" by (cases "call_step c s0")
  show ?case
  proof (cases r)
    case (Inl c')
    let ?v = "v\<lparr>lv_sched := s, lv_calls := [c']\<rparr>"
    have "live_step slow v ?v"
      using live_step.access [of 0 v c' s slow] rs Inl "1.prems" by simp
    moreover have "(live_step slow)\<^sup>*\<^sup>* ?v (?v\<lparr>lv_sched := snd (run_call c' s), lv_calls := []\<rparr>)"
      using "1.IH" [OF rs [symmetric] Inl, of ?v] by simp
    ultimately show ?thesis
      using rs Inl by (simp add: run_call.simps [of c] converse_rtranclp_into_rtranclp)
  next
    case (Inr x)
    then have "live_step slow v (v\<lparr>lv_sched := s, lv_calls := []\<rparr>)"
      using live_step.return [of 0 v x s slow] rs "1.prems" by (simp add: drop_nth_def)
    then show ?thesis
      using rs Inr by (auto simp: run_call.simps [of c])
  qed
qed

lemma live_operation:
  assumes "lv_calls v = []" and "entry_call c (length (sc_tasks (lv_sched v)))"
  shows "(live_step slow)\<^sup>*\<^sup>* v (v\<lparr>lv_sched := snd (run_call c (lv_sched v))\<rparr>)"
proof -
  let ?v = "v\<lparr>lv_calls := [c]\<rparr>"
  have "live_step slow v ?v"
    using live_step.call [OF assms(2), of slow] assms(1) by simp
  moreover have "(live_step slow)\<^sup>*\<^sup>* ?v (?v\<lparr>lv_sched := snd (run_call c (lv_sched ?v)), lv_calls := []\<rparr>)"
    by (rule live_call_steps) simp_all
  moreover have "?v\<lparr>lv_sched := snd (run_call c (lv_sched ?v)), lv_calls := []\<rparr> = v\<lparr>lv_sched := snd (run_call c (lv_sched v))\<rparr>"
    using assms(1) by (cases v) simp
  ultimately show ?thesis
    by (metis converse_rtranclp_into_rtranclp)
qed

theorem scheduler_reachable_wf_witness:
  "\<exists>v :: unit live. (live_step (\<lambda>_. True))\<^sup>*\<^sup>* live_New v \<and> GetTask ''t'' (lv_sched v) = Some 0 \<and>
     running (sc_tasks (lv_sched v) ! 0) \<and> 0 \<in> set (sc_loops (lv_sched v))"
proof -
  let ?v1 = "live_New\<lparr>lv_sched := snd (NewTask ''t'' 5 () (lv_sched live_New))\<rparr>"
  let ?v = "?v1\<lparr>lv_sched := snd (run_call (AtAddLoad 0 True) (lv_sched ?v1))\<rparr>"
  have "live_step (\<lambda>_. True) live_New ?v1"
    by (rule live_step.new)
  moreover have "(live_step (\<lambda>_. True))\<^sup>*\<^sup>* ?v1 ?v"
    by (rule live_operation) (simp_all add: live_New_def NewTask_def)
  ultimately have run: "(live_step (\<lambda>_. True))\<^sup>*\<^sup>* live_New ?v"
    by (rule converse_rtranclp_into_rtranclp)
  have "running (sc_tasks (lv_sched ?v) ! 0)" "0 < length (sc_tasks (lv_sched ?v))"
    "GetTask ''t'' (lv_sched ?v) = Some 0"
    by (simp_all add: run_call_AddTask NewTask_def sched_New_def AddTask_def task_Start_def set_running_def live_New_def
        GetTask_def)
  with scheduler_reachable_wf [OF run] have "0 \<in> set (sc_loops (lv_sched ?v))" by simp
  then show ?thesis
    using run \<open>running (sc_tasks (lv_sched ?v) ! 0)\<close> \<open>GetTask ''t'' (lv_sched ?v) = Some 0\<close> by (intro exI [of _ ?v] conjI)
qed

text \<open>
  C40: \<open>Start\<close> launches the goroutine before it sets \<open>running\<close>. When the timer is short enough to fire in between,
  the goroutine sees a task that does not run and ends: the task is then registered as running and has no
  goroutine, no job is ever executed, and starting it again is refused.
\<close>

theorem scheduler_start_race:
  "\<exists>v. (live_step (\<lambda>_. False))\<^sup>*\<^sup>* live_New v \<and> lv_calls v = [] \<and>
     sc_tasks (lv_sched v) = [\<lparr>ID = i, Duration = d, Job = j, running = True\<rparr>] \<and> IsRunning i (lv_sched v) \<and>
     sc_loops (lv_sched v) = [] \<and> fst (StartTask i (lv_sched v)) = Some (AlreadyRunning i)"
proof -
  let ?t = "\<lambda>b. \<lparr>ID = i, Duration = d, Job = j, running = b\<rparr>"
  let ?v = "\<lambda>b m l cs. \<lparr>lv_sched = \<lparr>sc_tasks = [?t b], sc_taskMap = m, sc_loops = l, sc_log = []\<rparr>, lv_calls = cs\<rparr>"
  let ?step = "live_step (\<lambda>_. False)"
  have "?step live_New (?v False [] [] [])"
    using live_step.new [of "\<lambda>_. False" live_New i d j] by (simp add: live_New_def sched_New_def NewTask_def sm_empty_def)
  then have "?step\<^sup>*\<^sup>* live_New (?v False [] [] [])" by (rule r_into_rtranclp)
  also have "?step (?v False [] [] []) (?v False [] [] [AtAddLoad 0 True])"
    using live_step.call [of "AtAddLoad 0 True" "?v False [] [] []"] by simp
  also have "?step (?v False [] [] [AtAddLoad 0 True]) (?v False [] [] [AtAddStore 0 True])"
    using live_step.access [of 0 "?v False [] [] [AtAddLoad 0 True]"] by (simp add: sm_load_def)
  also have "?step (?v False [] [] [AtAddStore 0 True]) (?v False [(i, 0)] [] [AtAddCheck 0])"
    using live_step.access [of 0 "?v False [] [] [AtAddStore 0 True]"] by (simp add: sm_store_def)
  also have "?step (?v False [(i, 0)] [] [AtAddCheck 0]) (?v False [(i, 0)] [] [AtStartCheck 0])"
    using live_step.access [of 0 "?v False [(i, 0)] [] [AtAddCheck 0]"] by simp
  also have "?step (?v False [(i, 0)] [] [AtStartCheck 0]) (?v False [(i, 0)] [] [AtStartGo 0])"
    using live_step.access [of 0 "?v False [(i, 0)] [] [AtStartCheck 0]"] by simp
  also have "?step (?v False [(i, 0)] [] [AtStartGo 0]) (?v False [(i, 0)] [0] [AtStartSet 0])"
    using live_step.access [of 0 "?v False [(i, 0)] [] [AtStartGo 0]"] by simp
  also have "?step (?v False [(i, 0)] [0] [AtStartSet 0]) (?v False [(i, 0)] [] [AtStartSet 0])"
    using live_step.wake [of 0 "?v False [(i, 0)] [0] [AtStartSet 0]" "\<lambda>_. False"] by (simp add: wake_def)
  also have "?step (?v False [(i, 0)] [] [AtStartSet 0]) (?v True [(i, 0)] [] [])"
    using live_step.return [of 0 "?v False [(i, 0)] [] [AtStartSet 0]"] by (simp add: set_running_def drop_nth_def)
  finally have "?step\<^sup>*\<^sup>* live_New (?v True [(i, 0)] [] [])" .
  then show ?thesis
    by - (rule exI [of _ "?v True [(i, 0)] [] []"], simp add: IsRunning_def StartTask_def sm_load_def)
qed

end
