(* ===== verification/Go_Duration.thy ===== *)
theory Go_Duration
  imports Float64
begin

text \<open>
  \<open>time.ParseDuration\<close> of Go's standard library, which \<open>election\<close>, \<open>snitch\<close> and \<open>cassandra\<close> apply to
  their configuration. A duration is a number of nanoseconds; \<open>None\<close> stands for the error. Fractions
  are scaled in floating point, as the library does.
\<close>

definition f64_mul :: "float64 \<Rightarrow> float64 \<Rightarrow> float64" where
  "f64_mul a b =
     (let s = (f64_neg a \<noteq> f64_neg b)
      in if f64_is_nan a \<or> f64_is_nan b then f64_nan
         else if f64_is_inf a then (if f64_units b = 0 then f64_nan else f64_make s f64_inf_mag)
         else if f64_is_inf b then (if f64_units a = 0 then f64_nan else f64_make s f64_inf_mag)
         else f64_make s
           (f64_round_mag (f64_mag_units (f64_mag a) * f64_mag_units (f64_mag b)) f64_one_units))"

text \<open>The conversion \<open>int64(f)\<close> of a finite float in range: the fraction is dropped.\<close>

definition f64_trunc :: "float64 \<Rightarrow> int" where
  "f64_trunc f =
     (let n = int (f64_mag_units (f64_mag f) div f64_one_units) in if f64_neg f then - n else n)"

definition max_int64 :: int where
  "max_int64 = 2 ^ 63 - 1"

definition is_digit :: "char \<Rightarrow> bool" where
  "is_digit c \<longleftrightarrow> 48 \<le> (of_char c :: nat) \<and> (of_char c :: nat) \<le> 57"

definition digit_value :: "char \<Rightarrow> int" where
  "digit_value c = of_char c - 48"

fun leadingInt :: "int \<Rightarrow> string \<Rightarrow> (int \<times> string) option" where
  "leadingInt x [] = Some (x, [])"
| "leadingInt x (c # s) =
     (if \<not> is_digit c then Some (x, c # s)
      else if x > max_int64 div 10 then None
      else if x * 10 + digit_value c > max_int64 then None
      else leadingInt (x * 10 + digit_value c) s)"

fun leadingFraction :: "int \<Rightarrow> float64 \<Rightarrow> bool \<Rightarrow> string \<Rightarrow> int \<times> float64 \<times> string" where
  "leadingFraction x scale overflow [] = (x, scale, [])"
| "leadingFraction x scale overflow (c # s) =
     (if \<not> is_digit c then (x, scale, c # s)
      else if overflow then leadingFraction x scale overflow s
      else if x > max_int64 div 10 \<or> x * 10 + digit_value c > max_int64 then leadingFraction x scale True s
      else leadingFraction (x * 10 + digit_value c) (f64_mul scale (f64_of_int 10)) False s)"

definition unitMap :: "string \<Rightarrow> int option" where
  "unitMap u =
     (if u = ''ns'' then Some 1
      else if u = ''us'' then Some 1000
      else if u = [CHR 0xC2, CHR 0xB5, CHR ''s''] then Some 1000
      else if u = [CHR 0xCE, CHR 0xBC, CHR ''s''] then Some 1000
      else if u = ''ms'' then Some 1000000
      else if u = ''s'' then Some 1000000000
      else if u = ''m'' then Some (60 * 1000000000)
      else if u = ''h'' then Some (3600 * 1000000000)
      else None)"

definition unit_char :: "char \<Rightarrow> bool" where
  "unit_char c \<longleftrightarrow> c \<noteq> CHR ''.'' \<and> \<not> is_digit c"

text \<open>The optional fraction: its digits, their scale, the rest of the text, whether a digit was read.\<close>

definition parse_fraction :: "string \<Rightarrow> int \<times> float64 \<times> string \<times> bool" where
  "parse_fraction s =
     (if s \<noteq> [] \<and> hd s = CHR ''.'' then
        (case leadingFraction 0 (f64_of_int 1) False (tl s) of
           (f, scale, s') \<Rightarrow> (f, scale, s', length (tl s) \<noteq> length s'))
      else (0, f64_of_int 1, s, False))"

text \<open>The value of a number with its unit.\<close>

definition scale_term :: "int \<Rightarrow> int \<Rightarrow> float64 \<Rightarrow> int \<Rightarrow> int option" where
  "scale_term v f scale unit =
     (if v > max_int64 div unit then None
      else
        let v = v * unit +
          (if f > 0 then f64_trunc (f64_mul (f64_of_int f) (f64_div (f64_of_int unit) scale)) else 0)
        in if v > max_int64 then None else Some v)"

text \<open>One number with its unit: the nanoseconds and the rest of the text.\<close>

definition parse_term :: "string \<Rightarrow> (int \<times> string) option" where
  "parse_term s =
     (if s = [] \<or> \<not> (hd s = CHR ''.'' \<or> is_digit (hd s)) then None
      else
        Option.bind (leadingInt 0 s) (\<lambda>(v, s1).
          case parse_fraction s1 of
            (f, scale, s2, post) \<Rightarrow>
              let u = takeWhile unit_char s2
              in if length s = length s1 \<and> \<not> post then None
                 else if u = [] then None
                 else Option.bind (unitMap u) (\<lambda>unit.
                   map_option (\<lambda>v. (v, drop (length u) s2)) (scale_term v f scale unit))))"

text \<open>The loop over the terms; each of them consumes a character at least, so the length is fuel enough.\<close>

fun parse_terms :: "nat \<Rightarrow> int \<Rightarrow> string \<Rightarrow> int option" where
  "parse_terms 0 d s = (if s = [] then Some d else None)"
| "parse_terms (Suc n) d s =
     (if s = [] then Some d
      else Option.bind (parse_term s) (\<lambda>(v, s').
        if d + v > max_int64 then None else parse_terms n (d + v) s'))"

definition ParseDuration :: "string \<Rightarrow> int option" where
  "ParseDuration orig =
     (let neg = (orig \<noteq> [] \<and> hd orig = CHR ''-'');
          s = (if orig \<noteq> [] \<and> (hd orig = CHR ''-'' \<or> hd orig = CHR ''+'') then tl orig else orig)
      in if s = ''0'' then Some 0
         else if s = [] then None
         else map_option (\<lambda>d. if neg then - d else d) (parse_terms (length s) 0 s))"

lemma ParseDuration_examples:
  "ParseDuration ''10s'' = Some 10000000000"
  "ParseDuration ''-1h2m3ms'' = Some (- 3720003000000)"
  "ParseDuration ''1.5'' = None"
  "ParseDuration ''5x'' = None"
  "ParseDuration '''' = None"
  by (simp_all add: ParseDuration_def parse_term_def parse_fraction_def scale_term_def is_digit_def digit_value_def max_int64_def unitMap_def unit_char_def)

section \<open>The fuel is enough\<close>

lemma leadingInt_length: "leadingInt x s = Some (v, s') \<Longrightarrow> length s' \<le> length s"
  by (induction x s rule: leadingInt.induct) (auto split: if_splits)

lemma leadingFraction_length: "leadingFraction x sc b s = (f, sc', s') \<Longrightarrow> length s' \<le> length s"
  by (induction x sc b s rule: leadingFraction.induct) (auto split: if_splits)

lemma length_takeWhile_le: "length (takeWhile P xs) \<le> length xs"
  by (induction xs) auto

lemma parse_fraction_length: "parse_fraction s = (f, scale, s', post) \<Longrightarrow> length s' \<le> length s"
  by (cases s) (auto simp: parse_fraction_def split: if_splits prod.splits dest: leadingFraction_length)

lemma parse_term_length:
  assumes "parse_term s = Some (v, s')"
  shows "length s' < length s"
proof -
  obtain v0 s1 where s1: "leadingInt 0 s = Some (v0, s1)"
    using assms by (auto simp: parse_term_def bind_eq_Some_conv split: if_splits)
  obtain f scale s2 post where s2: "parse_fraction s1 = (f, scale, s2, post)"
    by (cases "parse_fraction s1")
  have s: "takeWhile unit_char s2 \<noteq> []" "s' = drop (length (takeWhile unit_char s2)) s2"
    using assms by (auto simp: parse_term_def s1 s2 bind_eq_Some_conv Let_def split: if_splits)
  then obtain k where "length (takeWhile unit_char s2) = Suc k"
    by (cases "takeWhile unit_char s2") auto
  with s show ?thesis
    using leadingInt_length [OF s1] parse_fraction_length [OF s2] length_takeWhile_le [of unit_char s2]
    by simp
qed

lemma parse_terms_fuel: "length s \<le> n \<Longrightarrow> parse_terms n d s = parse_terms (length s) d s"
proof (induction n arbitrary: d s rule: less_induct)
  case (less n)
  show ?case
  proof (cases s)
    case (Cons c s0)
    then obtain m where m: "n = Suc m" using less.prems by (cases n) auto
    have "parse_terms m (d + v) s' = parse_terms (length s0) (d + v) s'" if "parse_term s = Some (v, s')" for v s'
      using less.IH [of m s' "d + v"] less.IH [of "length s0" s' "d + v"] parse_term_length [OF that] less.prems
      by (simp add: m Cons)
    then show ?thesis
      by (cases "parse_term s") (auto simp: m Cons)
  qed (cases n; simp)
qed

end
