(* ===== verification/Election.thy ===== *)
theory Election
  imports Sync_Map Go_Channel Go_Duration
begin

text \<open>
  \<open>election/election.go\<close> and \<open>election/structs.go\<close>: the election of a master over ZooKeeper.

  The ZooKeeper client and the host name are parameters: a record of the operations that the code
  calls over a state \<open>'w\<close> of the outside world; connections are numbers. The locale \<open>zookeeper\<close> says
  what the code relies on (a node can be created once, a deleted node is gone), and a small tree of
  nodes shows that it can hold.

  A handler may return, fail with an error, panic, or wait for ever on the feedback channel, which
  holds five signals. The goroutines are listed by kind in \<open>em_loops\<close>; one round of each is a
  function of its own.

  A handler as a function is a run that nothing disturbs. For several nodes \<open>electForMaster\<close> is cut
  at its calls to ZooKeeper (\<open>elect_step\<close>; \<open>electForMaster_calls\<close> puts it together again), and the step
  relation \<open>cluster_step\<close> interleaves the calls of all elections with other changes of ZooKeeper.
\<close>

definition Master :: int where "Master = 1"
definition Slave :: int where "Slave = 2"
definition ClusterChanged :: int where "ClusterChanged = 3"
definition Disconnected :: int where "Disconnected = 4"

definition defaultChannelSize :: nat where "defaultChannelSize = 5"

record Config =
  ZKURL :: "string list"
  ZKElectionNodeURI :: string
  ZKSlaveNodesURI :: string
  cfg_ReconnectionTimeout :: string
  cfg_SessionTimeout :: string
  cfg_ClusterChangeCheckTime :: string
  cfg_ClusterChangeWaitTime :: string

record Cluster =
  cl_IsMaster :: bool
  cl_Master :: string
  cl_Slaves :: "string list"
  cl_Nodes :: "string list"
  cl_NumNodes :: nat

datatype zk_state =
    StateConnected | StateConnectedReadOnly | StateSaslAuthenticated | StateHasSession
  | StateAuthFailed | StateDisconnected | StateExpired | StateOther

datatype zk_event = EventSession zk_state | EventNodeCreated | EventNodeDeleted | EventOther

record 'w zk_lib =
  zk_Connect :: "'w \<Rightarrow> string list \<Rightarrow> int \<Rightarrow> 'w \<times> (string + nat)"
  zk_Get :: "'w \<Rightarrow> nat \<Rightarrow> string \<Rightarrow> 'w \<times> (string + string)"
  zk_Create :: "'w \<Rightarrow> nat \<Rightarrow> string \<Rightarrow> string \<Rightarrow> int \<Rightarrow> 'w \<times> (string + string)"
  zk_Delete :: "'w \<Rightarrow> nat \<Rightarrow> string \<Rightarrow> int \<Rightarrow> 'w \<times> string option"
  zk_Children :: "'w \<Rightarrow> nat \<Rightarrow> string \<Rightarrow> 'w \<times> (string + string list)"
  zk_ExistsW :: "'w \<Rightarrow> nat \<Rightarrow> string \<Rightarrow> 'w \<times> (string + bool)"
  zk_State :: "'w \<Rightarrow> nat \<Rightarrow> zk_state"
  zk_Close :: "'w \<Rightarrow> nat \<Rightarrow> 'w"
  os_Hostname :: "'w \<Rightarrow> string + string"
  time_After :: "'w \<Rightarrow> int \<Rightarrow> 'w"

definition FlagEphemeral :: int where "FlagEphemeral = 1"

datatype eloop = ConnectionLoop | ElectionLoop | NodeLoop

record 'w elec =
  em_zkConnection :: "nat option"
  em_config :: Config
  em_isMaster :: bool
  em_feedbackChannel :: "int chan"
  em_clusterNodes :: "(string, bool) sync_map"
  em_terminate :: bool
  em_sessionTimeout :: int
  em_reconnectionTimeout :: int
  em_clusterChangeCheckTime :: int
  em_clusterChangeWaitTime :: int
  em_loops :: "eloop list"
  em_world :: 'w

section \<open>Handlers\<close>

datatype 'a eres = Ret 'a | Fail string | Crash | Wait

type_synonym ('w, 'a) act = "'w elec \<Rightarrow> 'a eres \<times> 'w elec"

definition ret :: "'a \<Rightarrow> ('w, 'a) act" where
  "ret x m = (Ret x, m)"

definition fail :: "string \<Rightarrow> ('w, 'a) act" where
  "fail e m = (Fail e, m)"

definition andThen :: "('w, 'a) act \<Rightarrow> ('a \<Rightarrow> ('w, 'b) act) \<Rightarrow> ('w, 'b) act" where
  "andThen f g m =
     (case f m of
        (Ret x, m') \<Rightarrow> g x m'
      | (Fail e, m') \<Rightarrow> (Fail e, m')
      | (Crash, m') \<Rightarrow> (Crash, m')
      | (Wait, m') \<Rightarrow> (Wait, m'))"

text \<open>A send on the feedback channel.\<close>

definition signal :: "int \<Rightarrow> ('w, unit) act" where
  "signal x m =
     (case chan_send x (em_feedbackChannel m) of
        Sent c \<Rightarrow> (Ret (), m\<lparr>em_feedbackChannel := c\<rparr>)
      | SendBlocks \<Rightarrow> (Wait, m)
      | SendPanics \<Rightarrow> (Crash, m))"

text \<open>A call on the connection: a nil connection panics, an error is passed on.\<close>

definition zk_call :: "('w \<Rightarrow> nat \<Rightarrow> 'w \<times> (string + 'a)) \<Rightarrow> ('w, string + 'a) act" where
  "zk_call f m =
     (case em_zkConnection m of
        None \<Rightarrow> (Crash, m)
      | Some c \<Rightarrow> (case f (em_world m) c of (w, r) \<Rightarrow> (Ret r, m\<lparr>em_world := w\<rparr>)))"

section \<open>Construction\<close>

definition election_New :: "Config \<Rightarrow> 'w \<Rightarrow> string + 'w elec" where
  "election_New config w =
     (case ParseDuration (cfg_SessionTimeout config) of
        None \<Rightarrow> Inl (''invalid session timeout duration: '' @ cfg_SessionTimeout config)
      | Some st \<Rightarrow>
          (case ParseDuration (cfg_ReconnectionTimeout config) of
             None \<Rightarrow> Inl (''invalid reconnection timeout duration: '' @ cfg_ReconnectionTimeout config)
           | Some rt \<Rightarrow>
               (case ParseDuration (cfg_ClusterChangeCheckTime config) of
                  None \<Rightarrow> Inl (''invalid cluster change check time duration: '' @ cfg_ClusterChangeCheckTime config)
                | Some ct \<Rightarrow>
                    (case ParseDuration (cfg_ClusterChangeWaitTime config) of
                       None \<Rightarrow> Inl (''invalid cluster change wait time duration: '' @ cfg_ClusterChangeWaitTime config)
                     | Some wt \<Rightarrow>
                         Inr \<lparr>em_zkConnection = None, em_config = config, em_isMaster = False,
                              em_feedbackChannel = chan_make defaultChannelSize, em_clusterNodes = sm_empty,
                              em_terminate = False, em_sessionTimeout = st, em_reconnectionTimeout = rt,
                              em_clusterChangeCheckTime = ct, em_clusterChangeWaitTime = wt,
                              em_loops = [], em_world = w\<rparr>))))"

section \<open>Reading the nodes\<close>

definition getNodeData :: "'w zk_lib \<Rightarrow> string \<Rightarrow> ('w, string option) act" where
  "getNodeData zk node =
     andThen (zk_call (\<lambda>w c. zk_Get zk w c node)) (\<lambda>r.
       case r of
         Inl err \<Rightarrow> if err = ''zk: node does not exist'' then ret None else fail err
       | Inr d \<Rightarrow> ret (Some d))"

definition getZKMasterNode :: "'w zk_lib \<Rightarrow> ('w, string option) act" where
  "getZKMasterNode zk m =
     (if em_zkConnection m = None then (Ret None, m)
      else getNodeData zk (ZKElectionNodeURI (em_config m)) m)"

definition GetHostname :: "'w zk_lib \<Rightarrow> ('w, string) act" where
  "GetHostname zk m = (case os_Hostname zk (em_world m) of Inl err \<Rightarrow> (Fail err, m) | Inr n \<Rightarrow> (Ret n, m))"

definition IsMaster :: "'w elec \<Rightarrow> bool" where
  "IsMaster m = em_isMaster m"

text \<open>\<open>None\<close> is the nil pointer that the code returns, with a nil error, when there is no connection.\<close>

definition GetClusterInfo :: "'w zk_lib \<Rightarrow> ('w, Cluster option) act" where
  "GetClusterInfo zk m =
     (if em_zkConnection m = None then (Ret None, m)
      else
        andThen (getZKMasterNode zk) (\<lambda>masterNode.
        andThen (getNodeData zk (ZKSlaveNodesURI (em_config m))) (\<lambda>slaveDir.
        andThen
          (case slaveDir of
             None \<Rightarrow> ret []
           | Some _ \<Rightarrow>
               andThen (zk_call (\<lambda>w c. zk_Children zk w c (ZKSlaveNodesURI (em_config m)))) (\<lambda>r.
                 case r of Inl err \<Rightarrow> fail err | Inr children \<Rightarrow> ret children))
          (\<lambda>children m.
             let nodes = (case masterNode of None \<Rightarrow> [] | Some n \<Rightarrow> [n]) @ children
             in (Ret (Some \<lparr>cl_IsMaster = em_isMaster m, cl_Master = (case masterNode of None \<Rightarrow> [] | Some n \<Rightarrow> n),
                            cl_Slaves = children, cl_Nodes = nodes, cl_NumNodes = length nodes\<rparr>), m)))) m)"

section \<open>Election\<close>

definition createSlaveDir :: "'w zk_lib \<Rightarrow> ('w, unit) act" where
  "createSlaveDir zk m =
     andThen (getNodeData zk (ZKSlaveNodesURI (em_config m))) (\<lambda>d.
       case d of
         Some _ \<Rightarrow> ret ()
       | None \<Rightarrow>
           andThen (zk_call (\<lambda>w c. zk_Create zk w c (ZKSlaveNodesURI (em_config m)) [] 0)) (\<lambda>r.
             case r of Inl err \<Rightarrow> fail err | Inr path \<Rightarrow> ret ())) m"

definition slave_node :: "Config \<Rightarrow> string \<Rightarrow> string" where
  "slave_node cf nodeName = ZKSlaveNodesURI cf @ ''/'' @ nodeName"

definition registerAsSlave :: "'w zk_lib \<Rightarrow> string \<Rightarrow> ('w, unit) act" where
  "registerAsSlave zk nodeName m =
     andThen (createSlaveDir zk) (\<lambda>_.
     andThen (getNodeData zk (slave_node (em_config m) nodeName)) (\<lambda>d.
     andThen
       (case d of
          Some _ \<Rightarrow> ret ()
        | None \<Rightarrow>
            andThen (zk_call (\<lambda>w c. zk_Create zk w c (slave_node (em_config m) nodeName) nodeName FlagEphemeral)) (\<lambda>r.
              case r of Inl err \<Rightarrow> fail err | Inr path \<Rightarrow> ret ()))
       (\<lambda>_ m. signal Slave (m\<lparr>em_isMaster := False\<rparr>)))) m"

text \<open>What follows the creation of the master node: a slave node of this host is deleted; errors are logged.\<close>

definition dropSlaveNode :: "'w zk_lib \<Rightarrow> string \<Rightarrow> ('w, unit) act" where
  "dropSlaveNode zk name m =
     (case getNodeData zk (slave_node (em_config m) name) m of
        (Ret (Some _), m') \<Rightarrow>
          andThen (zk_call (\<lambda>w c. case zk_Delete zk w c (slave_node (em_config m) name) 0 of (w, e) \<Rightarrow> (w, Inr e))) (\<lambda>_. ret ()) m'
      | (Ret None, m') \<Rightarrow> (Ret (), m')
      | (Fail _, m') \<Rightarrow> (Ret (), m')
      | (Crash, m') \<Rightarrow> (Crash, m')
      | (Wait, m') \<Rightarrow> (Wait, m'))"

text \<open>From the creation of the election node to the end of the handler.\<close>

definition claimMaster :: "'w zk_lib \<Rightarrow> string \<Rightarrow> ('w, unit) act" where
  "claimMaster zk name m =
     andThen (zk_call (\<lambda>w c. zk_Create zk w c (ZKElectionNodeURI (em_config m)) name FlagEphemeral)) (\<lambda>r.
       case r of
         Inl err \<Rightarrow> if err = ''zk: node already exists'' then registerAsSlave zk name else fail err
       | Inr path \<Rightarrow>
           (\<lambda>m. andThen (signal Master) (\<lambda>_. dropSlaveNode zk name) (m\<lparr>em_isMaster := True\<rparr>))) m"

definition electForMaster :: "'w zk_lib \<Rightarrow> ('w, unit) act" where
  "electForMaster zk =
     andThen (GetHostname zk) (\<lambda>name.
     andThen (getZKMasterNode zk) (\<lambda>zkMasterNode.
       case zkMasterNode of
         Some n \<Rightarrow>
           if name = n then (\<lambda>m. claimMaster zk name (m\<lparr>em_isMaster := True\<rparr>))
           else registerAsSlave zk name
       | None \<Rightarrow> claimMaster zk name))"

section \<open>The calls of an election\<close>

text \<open>
  \<open>electForMaster\<close> cut at its calls to ZooKeeper and at its sends on the channel, for the nodes of a cluster
  that do this at the same time. Each constructor is the next such call; the assignments to \<open>isMaster\<close> that
  follow a call belong to its step. \<open>Ret None\<close>: the handler has returned.
\<close>

datatype elect_pc =
    AtGetMaster
  | AtCreateMaster
  | AtGetSlaveDir
  | AtCreateSlaveDir
  | AtGetSlaveNode
  | AtCreateSlaveNode
  | AtSignalSlave
  | AtSignalMaster
  | AtGetOwnSlaveNode
  | AtDeleteSlaveNode

fun elect_step :: "'w zk_lib \<Rightarrow> string \<Rightarrow> elect_pc \<Rightarrow> ('w, elect_pc option) act" where
  "elect_step zk name AtGetMaster =
     andThen (getZKMasterNode zk) (\<lambda>zkMasterNode m.
       case zkMasterNode of
         Some n \<Rightarrow> if name = n then (Ret (Some AtCreateMaster), m\<lparr>em_isMaster := True\<rparr>) else (Ret (Some AtGetSlaveDir), m)
       | None \<Rightarrow> (Ret (Some AtCreateMaster), m))"
| "elect_step zk name AtCreateMaster = (\<lambda>m.
     andThen (zk_call (\<lambda>w c. zk_Create zk w c (ZKElectionNodeURI (em_config m)) name FlagEphemeral)) (\<lambda>r m.
       case r of
         Inl err \<Rightarrow> if err = ''zk: node already exists'' then (Ret (Some AtGetSlaveDir), m) else (Fail err, m)
       | Inr path \<Rightarrow> (Ret (Some AtSignalMaster), m\<lparr>em_isMaster := True\<rparr>)) m)"
| "elect_step zk name AtGetSlaveDir = (\<lambda>m.
     andThen (getNodeData zk (ZKSlaveNodesURI (em_config m))) (\<lambda>d.
       ret (Some (if d = None then AtCreateSlaveDir else AtGetSlaveNode))) m)"
| "elect_step zk name AtCreateSlaveDir = (\<lambda>m.
     andThen (zk_call (\<lambda>w c. zk_Create zk w c (ZKSlaveNodesURI (em_config m)) [] 0)) (\<lambda>r.
       case r of Inl err \<Rightarrow> fail err | Inr path \<Rightarrow> ret (Some AtGetSlaveNode)) m)"
| "elect_step zk name AtGetSlaveNode = (\<lambda>m.
     andThen (getNodeData zk (slave_node (em_config m) name)) (\<lambda>d m.
       case d of
         Some _ \<Rightarrow> (Ret (Some AtSignalSlave), m\<lparr>em_isMaster := False\<rparr>)
       | None \<Rightarrow> (Ret (Some AtCreateSlaveNode), m)) m)"
| "elect_step zk name AtCreateSlaveNode = (\<lambda>m.
     andThen (zk_call (\<lambda>w c. zk_Create zk w c (slave_node (em_config m) name) name FlagEphemeral)) (\<lambda>r m.
       case r of Inl err \<Rightarrow> (Fail err, m) | Inr path \<Rightarrow> (Ret (Some AtSignalSlave), m\<lparr>em_isMaster := False\<rparr>)) m)"
| "elect_step zk name AtSignalSlave = andThen (signal Slave) (\<lambda>_. ret None)"
| "elect_step zk name AtSignalMaster = andThen (signal Master) (\<lambda>_. ret (Some AtGetOwnSlaveNode))"
| "elect_step zk name AtGetOwnSlaveNode = (\<lambda>m.
     case getNodeData zk (slave_node (em_config m) name) m of
       (Ret (Some _), m') \<Rightarrow> (Ret (Some AtDeleteSlaveNode), m')
     | (Ret None, m') \<Rightarrow> (Ret None, m')
     | (Fail _, m') \<Rightarrow> (Ret None, m')
     | (Crash, m') \<Rightarrow> (Crash, m')
     | (Wait, m') \<Rightarrow> (Wait, m'))"
| "elect_step zk name AtDeleteSlaveNode = (\<lambda>m.
     andThen (zk_call (\<lambda>w c. case zk_Delete zk w c (slave_node (em_config m) name) 0 of (w, e) \<Rightarrow> (w, Inr e))) (\<lambda>_. ret None) m)"

text \<open>A bound on the calls that are still to come.\<close>

fun elect_rank :: "elect_pc \<Rightarrow> nat" where
  "elect_rank AtGetMaster = 7"
| "elect_rank AtCreateMaster = 6"
| "elect_rank AtGetSlaveDir = 5"
| "elect_rank AtCreateSlaveDir = 4"
| "elect_rank AtGetSlaveNode = 3"
| "elect_rank AtCreateSlaveNode = 2"
| "elect_rank AtSignalSlave = 1"
| "elect_rank AtSignalMaster = 3"
| "elect_rank AtGetOwnSlaveNode = 2"
| "elect_rank AtDeleteSlaveNode = 1"

lemma andThen_RetE [elim!]:
  assumes "andThen f g m = (Ret x, m')"
  obtains y m1 where "f m = (Ret y, m1)" and "g y m1 = (Ret x, m')"
  using assms by (auto simp: andThen_def split: prod.splits eres.splits)

lemma elect_step_rank: "elect_step zk name pc m = (Ret (Some pc'), m') \<Longrightarrow> elect_rank pc' < elect_rank pc"
  by (cases pc) (auto simp: ret_def fail_def
      split: option.split_asm sum.split_asm if_split_asm eres.split_asm prod.split_asm)

text \<open>An election that nothing disturbs.\<close>

function elect_run :: "'w zk_lib \<Rightarrow> string \<Rightarrow> elect_pc \<Rightarrow> 'w elec \<Rightarrow> unit eres \<times> 'w elec" where
  "elect_run zk name pc m =
     (case elect_step zk name pc m of
        (Ret (Some pc'), m') \<Rightarrow> elect_run zk name pc' m'
      | (Ret None, m') \<Rightarrow> (Ret (), m')
      | (Fail e, m') \<Rightarrow> (Fail e, m')
      | (Crash, m') \<Rightarrow> (Crash, m')
      | (Wait, m') \<Rightarrow> (Wait, m'))"
  by pat_completeness auto
termination
  by (relation "measure (\<lambda>(zk, name, pc, m). elect_rank pc)") (auto dest: elect_step_rank [OF sym])

declare elect_run.simps [simp del]

lemma elect_run_andThen:
  "elect_run zk name pc m =
     andThen (elect_step zk name pc) (\<lambda>n. case n of Some pc' \<Rightarrow> elect_run zk name pc' | None \<Rightarrow> ret ()) m"
  by (subst elect_run.simps) (auto simp: andThen_def ret_def split: prod.splits eres.splits option.splits)

lemma andThen_assoc: "andThen (andThen f g) h = andThen f (\<lambda>x. andThen (g x) h)"
  by (simp add: fun_eq_iff andThen_def split: prod.splits eres.splits)

lemma andThen_ret [simp]: "andThen (ret x) g = g x"
  by (simp add: fun_eq_iff andThen_def ret_def)

lemma andThen_fail [simp]: "andThen (fail e) g = fail e"
  by (simp add: fun_eq_iff andThen_def fail_def)

lemma andThen_case_option:
  "andThen (case x of None \<Rightarrow> f | Some y \<Rightarrow> g y) h = (case x of None \<Rightarrow> andThen f h | Some y \<Rightarrow> andThen (g y) h)"
  by (simp split: option.split)

lemma andThen_cong: "(\<And>x m'. f m = (Ret x, m') \<Longrightarrow> g x m' = h x m') \<Longrightarrow> andThen f g m = andThen f h m"
  by (auto simp: andThen_def split: prod.splits eres.splits)

text \<open>The calls of an undisturbed election make up \<open>electForMaster\<close>.\<close>

lemma zk_call_config: "zk_call f m = (r, m') \<Longrightarrow> em_config m' = em_config m"
  by (auto simp: zk_call_def split: option.split_asm prod.split_asm)

lemma getNodeData_config: "getNodeData zk p m = (Ret x, m') \<Longrightarrow> em_config m' = em_config m"
  unfolding getNodeData_def
  by (elim andThen_RetE) (auto simp: ret_def fail_def dest: zk_call_config split: sum.split_asm if_split_asm)

lemma elect_run_calls:
  "elect_run zk name AtDeleteSlaveNode m =
     andThen (zk_call (\<lambda>w c. case zk_Delete zk w c (slave_node (em_config m) name) 0 of (w, e) \<Rightarrow> (w, Inr e))) (\<lambda>_. ret ()) m"
  "elect_run zk name AtCreateSlaveNode m =
     andThen (zk_call (\<lambda>w c. zk_Create zk w c (slave_node (em_config m) name) name FlagEphemeral)) (\<lambda>r m.
       case r of Inl err \<Rightarrow> (Fail err, m) | Inr _ \<Rightarrow> elect_run zk name AtSignalSlave (m\<lparr>em_isMaster := False\<rparr>)) m"
  "elect_run zk name AtGetSlaveNode m =
     andThen (getNodeData zk (slave_node (em_config m) name)) (\<lambda>d m.
       case d of Some _ \<Rightarrow> elect_run zk name AtSignalSlave (m\<lparr>em_isMaster := False\<rparr>)
       | None \<Rightarrow> elect_run zk name AtCreateSlaveNode m) m"
  "elect_run zk name AtCreateSlaveDir m =
     andThen (zk_call (\<lambda>w c. zk_Create zk w c (ZKSlaveNodesURI (em_config m)) [] 0)) (\<lambda>r m.
       case r of Inl err \<Rightarrow> (Fail err, m) | Inr _ \<Rightarrow> elect_run zk name AtGetSlaveNode m) m"
  "elect_run zk name AtGetSlaveDir m =
     andThen (getNodeData zk (ZKSlaveNodesURI (em_config m))) (\<lambda>d m.
       case d of None \<Rightarrow> elect_run zk name AtCreateSlaveDir m | Some _ \<Rightarrow> elect_run zk name AtGetSlaveNode m) m"
  "elect_run zk name AtCreateMaster m =
     andThen (zk_call (\<lambda>w c. zk_Create zk w c (ZKElectionNodeURI (em_config m)) name FlagEphemeral)) (\<lambda>r m.
       case r of
         Inl err \<Rightarrow> if err = ''zk: node already exists'' then elect_run zk name AtGetSlaveDir m else (Fail err, m)
       | Inr _ \<Rightarrow> elect_run zk name AtSignalMaster (m\<lparr>em_isMaster := True\<rparr>)) m"
  "elect_run zk name AtGetMaster m =
     andThen (getZKMasterNode zk) (\<lambda>n m.
       case n of
         Some n \<Rightarrow> if name = n then elect_run zk name AtCreateMaster (m\<lparr>em_isMaster := True\<rparr>)
           else elect_run zk name AtGetSlaveDir m
       | None \<Rightarrow> elect_run zk name AtCreateMaster m) m"
  by (subst elect_run.simps, simp add: andThen_def ret_def fail_def split: prod.split eres.split option.split sum.split)+

lemma elect_run_dropSlaveNode: "elect_run zk name AtGetOwnSlaveNode m = dropSlaveNode zk name m"
  by (subst elect_run.simps)
    (auto simp: dropSlaveNode_def elect_run_calls dest: getNodeData_config split: eres.split prod.split option.split)

lemma elect_run_signal:
  "elect_run zk name AtSignalSlave m = signal Slave m"
  "elect_run zk name AtSignalMaster m = andThen (signal Master) (\<lambda>_. dropSlaveNode zk name) m"
  by (subst elect_run.simps, simp add: andThen_def elect_run_dropSlaveNode ret_def split: prod.split eres.split)+

lemma createSlaveDir_config: "createSlaveDir zk m = (Ret x, m') \<Longrightarrow> em_config m' = em_config m"
  unfolding createSlaveDir_def
  by (elim andThen_RetE)
    (auto simp: ret_def fail_def dest!: zk_call_config getNodeData_config split: sum.split_asm option.split_asm)

lemma elect_run_AtCreateSlaveNode:
  "elect_run zk name AtCreateSlaveNode m =
     andThen (andThen (zk_call (\<lambda>w c. zk_Create zk w c (slave_node (em_config m) name) name FlagEphemeral)) (\<lambda>r.
       case r of Inl err \<Rightarrow> fail err | Inr path \<Rightarrow> ret ())) (\<lambda>_ m. signal Slave (m\<lparr>em_isMaster := False\<rparr>)) m"
  unfolding elect_run_calls(2) andThen_assoc
  by (rule andThen_cong) (simp add: elect_run_signal andThen_def fail_def ret_def split: sum.split)

lemma elect_run_AtGetSlaveNode:
  "elect_run zk name AtGetSlaveNode m =
     andThen (getNodeData zk (slave_node (em_config m) name)) (\<lambda>d.
     andThen
       (case d of
          Some _ \<Rightarrow> ret ()
        | None \<Rightarrow>
            andThen (zk_call (\<lambda>w c. zk_Create zk w c (slave_node (em_config m) name) name FlagEphemeral)) (\<lambda>r.
              case r of Inl err \<Rightarrow> fail err | Inr path \<Rightarrow> ret ()))
       (\<lambda>_ m. signal Slave (m\<lparr>em_isMaster := False\<rparr>))) m"
  unfolding elect_run_calls(3)
  by (rule andThen_cong)
    (auto simp: elect_run_AtCreateSlaveNode elect_run_signal dest: getNodeData_config split: option.split)

lemma elect_run_registerAsSlave: "elect_run zk name AtGetSlaveDir m = registerAsSlave zk name m"
proof -
  have "andThen (createSlaveDir zk) (\<lambda>_. elect_run zk name AtGetSlaveNode) m =
      andThen (getNodeData zk (ZKSlaveNodesURI (em_config m))) (\<lambda>d.
        andThen (case d of
            Some _ \<Rightarrow> ret ()
          | None \<Rightarrow>
              andThen (zk_call (\<lambda>w c. zk_Create zk w c (ZKSlaveNodesURI (em_config m)) [] 0)) (\<lambda>r.
                case r of Inl err \<Rightarrow> fail err | Inr path \<Rightarrow> ret ()))
          (\<lambda>_. elect_run zk name AtGetSlaveNode)) m"
    unfolding andThen_assoc [symmetric] by (simp add: andThen_def [of "createSlaveDir zk"] createSlaveDir_def
        andThen_def [of "andThen (getNodeData zk (ZKSlaveNodesURI (em_config m))) g" for g])
  moreover have "\<dots> = elect_run zk name AtGetSlaveDir m"
    unfolding elect_run_calls(5)
    by (rule andThen_cong)
      (auto simp: elect_run_calls(4) andThen_def ret_def fail_def dest: getNodeData_config
        split: prod.split eres.split option.split sum.split)
  ultimately have "elect_run zk name AtGetSlaveDir m =
      andThen (createSlaveDir zk) (\<lambda>_. elect_run zk name AtGetSlaveNode) m" by simp
  also have "\<dots> = registerAsSlave zk name m"
    unfolding registerAsSlave_def
    by (rule andThen_cong, frule createSlaveDir_config) (simp add: elect_run_AtGetSlaveNode cong: option.case_cong)
  finally show ?thesis .
qed

lemma elect_run_claimMaster: "elect_run zk name AtCreateMaster m = claimMaster zk name m"
  unfolding elect_run_calls(6) claimMaster_def
  by (rule andThen_cong) (auto simp: elect_run_registerAsSlave elect_run_signal fail_def split: sum.split)

lemma electForMaster_calls: "electForMaster zk m = andThen (GetHostname zk) (\<lambda>name. elect_run zk name AtGetMaster) m"
  unfolding electForMaster_def
  by (intro andThen_cong)
    (auto simp: elect_run_calls(7) elect_run_registerAsSlave elect_run_claimMaster split: option.split intro!: andThen_cong)

section \<open>Connecting and listening\<close>

definition connect :: "'w zk_lib \<Rightarrow> ('w, unit) act" where
  "connect zk m =
     (case zk_Connect zk (em_world m) (ZKURL (em_config m)) (em_sessionTimeout m) of
        (w, Inl err) \<Rightarrow> (Fail err, m\<lparr>em_zkConnection := None, em_world := w\<rparr>)
      | (w, Inr c) \<Rightarrow>
          (Ret (), m\<lparr>em_zkConnection := Some c, em_world := w, em_loops := em_loops m @ [ConnectionLoop]\<rparr>))"

definition listenForElectionEvents :: "'w zk_lib \<Rightarrow> ('w, unit) act" where
  "listenForElectionEvents zk m =
     andThen (zk_call (\<lambda>w c. zk_ExistsW zk w c (ZKElectionNodeURI (em_config m)))) (\<lambda>r.
       case r of
         Inl err \<Rightarrow> fail err
       | Inr _ \<Rightarrow> (\<lambda>m. (Ret (), m\<lparr>em_loops := em_loops m @ [ElectionLoop]\<rparr>))) m"

definition store_nodes :: "string list \<Rightarrow> (string, bool) sync_map \<Rightarrow> (string, bool) sync_map" where
  "store_nodes nodes m = fold (\<lambda>node. sm_store node True) nodes m"

definition listenForNodeEvents :: "'w zk_lib \<Rightarrow> ('w, unit) act" where
  "listenForNodeEvents zk =
     andThen (GetClusterInfo zk) (\<lambda>cluster m.
       case cluster of
         None \<Rightarrow> (Crash, m)
       | Some cl \<Rightarrow>
           (Ret (), m\<lparr>em_clusterNodes := store_nodes (cl_Nodes cl) (em_clusterNodes m),
                     em_loops := em_loops m @ [NodeLoop]\<rparr>))"

definition Start :: "'w zk_lib \<Rightarrow> ('w, unit) act" where
  "Start zk m =
     andThen (connect zk) (\<lambda>_.
     andThen (electForMaster zk) (\<lambda>_.
     andThen (createSlaveDir zk) (\<lambda>_.
     andThen (listenForElectionEvents zk) (\<lambda>_.
       listenForNodeEvents zk)))) (m\<lparr>em_terminate := False\<rparr>)"

definition Disconnect :: "'w zk_lib \<Rightarrow> ('w, unit) act" where
  "Disconnect zk m =
     (let m = m\<lparr>em_terminate := True\<rparr>
      in case em_zkConnection m of
           None \<Rightarrow> (Ret (), m)
         | Some c \<Rightarrow>
             if zk_State zk (em_world m) c \<noteq> StateDisconnected then
               andThen (signal Disconnected) (\<lambda>_ m. (Ret (), m\<lparr>em_world := time_After zk (em_world m) 2000000000\<rparr>))
                 (m\<lparr>em_world := zk_Close zk (em_world m) c\<rparr>)
             else (Ret (), m))"

section \<open>One round of each goroutine\<close>

text \<open>The head of every loop: when the manager terminates, the goroutine signals it and ends.\<close>

definition loop_head :: "eloop \<Rightarrow> ('w, unit) act \<Rightarrow> ('w, unit) act" where
  "loop_head l body m =
     (if em_terminate m then
        andThen (signal Disconnected) (\<lambda>_ m. (Ret (), m\<lparr>em_loops := remove1 l (em_loops m)\<rparr>)) m
      else body m)"

text \<open>
  Reconnecting after the connection was lost: a new connection, then \<open>Start\<close>, which opens another one.
  The loop may never end; \<open>None\<close> then.
\<close>

partial_function (option) reconnect :: "'w zk_lib \<Rightarrow> 'w elec \<Rightarrow> (unit eres \<times> 'w elec) option" where
  "reconnect zk m =
     (case zk_Connect zk (time_After zk (em_world m) (em_reconnectionTimeout m)) (ZKURL (em_config m)) (em_sessionTimeout m) of
        (w, Inl err) \<Rightarrow> reconnect zk (m\<lparr>em_zkConnection := None, em_world := w\<rparr>)
      | (w, Inr c) \<Rightarrow>
          (case Start zk (m\<lparr>em_zkConnection := Some c, em_world := w\<rparr>) of
             (Ret _, m') \<Rightarrow> Some (Ret (), m'\<lparr>em_loops := remove1 ConnectionLoop (em_loops m')\<rparr>)
           | (Fail _, m') \<Rightarrow> reconnect zk m'
           | (Crash, m') \<Rightarrow> Some (Crash, m')
           | (Wait, m') \<Rightarrow> Some (Wait, m')))"

definition connection_lost :: "zk_state \<Rightarrow> bool" where
  "connection_lost s \<longleftrightarrow> s = StateAuthFailed \<or> s = StateDisconnected \<or> s = StateExpired"

definition connection_round :: "'w zk_lib \<Rightarrow> zk_event \<Rightarrow> 'w elec \<Rightarrow> (unit eres \<times> 'w elec) option" where
  "connection_round zk event m =
     (if em_terminate m then Some (loop_head ConnectionLoop (ret ()) m)
      else
        (case event of
           EventSession s \<Rightarrow>
             if connection_lost s then
               (case andThen (Disconnect zk) (\<lambda>_. signal Disconnected) m of
                  (Ret _, m') \<Rightarrow> reconnect zk m'
                | r \<Rightarrow> Some r)
             else Some (Ret (), m)
         | _ \<Rightarrow> Some (Ret (), m)))"

definition election_round :: "'w zk_lib \<Rightarrow> zk_event \<Rightarrow> ('w, unit) act" where
  "election_round zk event =
     loop_head ElectionLoop (\<lambda>m.
       if event = EventNodeDeleted then
         (case electForMaster zk m of (Fail _, m') \<Rightarrow> (Ret (), m') | r \<Rightarrow> r)
       else (Ret (), m))"

definition nodes_changed :: "string list \<Rightarrow> (string, bool) sync_map \<Rightarrow> bool" where
  "nodes_changed nodes known \<longleftrightarrow>
     length nodes \<noteq> GetSyncMapSize known \<or> list_ex (\<lambda>node. sm_load known node = None) nodes"

definition drain_nodes :: "(string, bool) sync_map \<Rightarrow> (string, bool) sync_map" where
  "drain_nodes known = sm_range (\<lambda>k _ m. (sm_delete k m, True)) known known"

definition node_round :: "'w zk_lib \<Rightarrow> ('w, unit) act" where
  "node_round zk =
     loop_head NodeLoop (\<lambda>m.
       case GetClusterInfo zk (m\<lparr>em_world := time_After zk (em_world m) (em_clusterChangeCheckTime m)\<rparr>) of
         (Ret None, m') \<Rightarrow> (Crash, m')
       | (Ret (Some cluster), m') \<Rightarrow>
           if nodes_changed (cl_Nodes cluster) (em_clusterNodes m') then
             andThen (signal ClusterChanged)
               (\<lambda>_ m. (Ret (), m\<lparr>em_world := time_After zk (em_world m) (em_clusterChangeWaitTime m)\<rparr>))
               (m'\<lparr>em_clusterNodes := store_nodes (cl_Nodes cluster) (drain_nodes (em_clusterNodes m'))\<rparr>)
           else (Ret (), m')
       | (Fail _, m') \<Rightarrow> (Ret (), m')
       | (Crash, m') \<Rightarrow> (Crash, m')
       | (Wait, m') \<Rightarrow> (Wait, m'))"

section \<open>What the code relies on\<close>

text \<open>
  \<open>data w p\<close> is the data of node \<open>p\<close> in the world \<open>w\<close>, \<open>alive w c\<close> says that connection \<open>c\<close> has a session,
  \<open>creatable w p\<close> that the parent of \<open>p\<close> exists. The nodes that the code deletes are slave nodes: they are
  ephemeral, so that they have no children, and nobody sets their data, so that their version is 0.
\<close>

locale zookeeper =
  fixes zk :: "'w zk_lib"
    and data :: "'w \<Rightarrow> string \<Rightarrow> string option"
    and alive :: "'w \<Rightarrow> nat \<Rightarrow> bool"
    and creatable :: "'w \<Rightarrow> string \<Rightarrow> bool"
  assumes Get: "alive w c \<Longrightarrow>
      zk_Get zk w c p = (w, case data w p of None \<Rightarrow> Inl ''zk: node does not exist'' | Some d \<Rightarrow> Inr d)"
    and Create_exists: "alive w c \<Longrightarrow> data w p \<noteq> None \<Longrightarrow>
      zk_Create zk w c p d fl = (w, Inl ''zk: node already exists'')"
    and Create_new: "alive w c \<Longrightarrow> data w p = None \<Longrightarrow> creatable w p \<Longrightarrow>
      \<exists>w' path. zk_Create zk w c p d fl = (w', Inr path) \<and> data w' = (data w)(p \<mapsto> d) \<and> alive w' = alive w \<and>
        (\<forall>q. creatable w q \<longrightarrow> creatable w' q)"
    and Create_orphan: "alive w c \<Longrightarrow> data w p = None \<Longrightarrow> \<not> creatable w p \<Longrightarrow>
      \<exists>err. zk_Create zk w c p d fl = (w, Inl err) \<and> err \<noteq> ''zk: node already exists''"
    and Delete_missing: "alive w c \<Longrightarrow> data w p = None \<Longrightarrow> \<exists>err. zk_Delete zk w c p ver = (w, Some err)"
    and Delete: "alive w c \<Longrightarrow> data w p \<noteq> None \<Longrightarrow>
      \<exists>w'. zk_Delete zk w c p 0 = (w', None) \<and> data w' = (data w)(p := None) \<and> alive w' = alive w \<and>
        (\<forall>q. creatable w q \<longrightarrow> (\<nexists>n. q = p @ ''/'' @ n) \<longrightarrow> creatable w' q)"
    and Children: "alive w c \<Longrightarrow> data w p \<noteq> None \<Longrightarrow>
      \<exists>cs. zk_Children zk w c p = (w, Inr cs) \<and> distinct cs \<and>
        set cs = {n. CHR ''/'' \<notin> set n \<and> data w (p @ ''/'' @ n) \<noteq> None}"
    and creatable_child: "data w p \<noteq> None \<Longrightarrow> CHR ''/'' \<notin> set n \<Longrightarrow> creatable w (p @ ''/'' @ n)"
begin

lemma getNodeData_alive:
  assumes "em_zkConnection m = Some c" and "alive (em_world m) c"
  shows "getNodeData zk p m = (Ret (data (em_world m) p), m)"
  using assms
  by (simp add: getNodeData_def andThen_def zk_call_def Get ret_def fail_def split: option.split)

lemma getZKMasterNode_alive:
  assumes "em_zkConnection m = Some c" and "alive (em_world m) c"
  shows "getZKMasterNode zk m = (Ret (data (em_world m) (ZKElectionNodeURI (em_config m))), m)"
  using assms by (simp add: getZKMasterNode_def getNodeData_alive)

text \<open>A call of \<open>createSlaveDir\<close> or \<open>registerAsSlave\<close> touches the slave directory and the slave node only.\<close>

lemma createSlaveDir_alive:
  assumes "em_zkConnection m = Some c" and "alive (em_world m) c"
    and "creatable (em_world m) (ZKSlaveNodesURI (em_config m))"
  obtains w where "createSlaveDir zk m = (Ret (), m\<lparr>em_world := w\<rparr>)" "alive w = alive (em_world m)"
    "data w (ZKSlaveNodesURI (em_config m)) \<noteq> None"
    "\<And>p. p \<noteq> ZKSlaveNodesURI (em_config m) \<Longrightarrow> data w p = data (em_world m) p"
    "\<And>q. creatable (em_world m) q \<Longrightarrow> creatable w q"
proof (cases "data (em_world m) (ZKSlaveNodesURI (em_config m))")
  case None
  obtain w' path where "zk_Create zk (em_world m) c (ZKSlaveNodesURI (em_config m)) [] 0 = (w', Inr path)"
      "data w' = (data (em_world m))(ZKSlaveNodesURI (em_config m) \<mapsto> [])" "alive w' = alive (em_world m)"
      "\<forall>q. creatable (em_world m) q \<longrightarrow> creatable w' q"
    using Create_new [OF assms(2) None assms(3)] by blast
  with None show ?thesis
    using that [of w'] assms(1)
    by (simp add: createSlaveDir_def andThen_def getNodeData_alive [OF assms(1,2)] zk_call_def ret_def)
next
  case (Some d)
  then show ?thesis
    using that [of "em_world m"]
    by (simp add: createSlaveDir_def andThen_def getNodeData_alive [OF assms(1,2)] ret_def)
qed

lemma registerAsSlave_signal:
  assumes "em_zkConnection m = Some c" and "alive (em_world m) c"
    and "creatable (em_world m) (ZKSlaveNodesURI (em_config m))" and "CHR ''/'' \<notin> set n"
  obtains w where
    "registerAsSlave zk n m = signal Slave (m\<lparr>em_world := w, em_isMaster := False\<rparr>)"
    "alive w = alive (em_world m)" "data w (slave_node (em_config m) n) \<noteq> None"
    "data w (ZKSlaveNodesURI (em_config m)) \<noteq> None"
    "\<And>p. p \<noteq> ZKSlaveNodesURI (em_config m) \<Longrightarrow> p \<noteq> slave_node (em_config m) n \<Longrightarrow> data w p = data (em_world m) p"
    "\<And>q. creatable (em_world m) q \<Longrightarrow> creatable w q"
proof -
  let ?dir = "ZKSlaveNodesURI (em_config m)" and ?s = "slave_node (em_config m) n"
  obtain w where w: "createSlaveDir zk m = (Ret (), m\<lparr>em_world := w\<rparr>)" "alive w = alive (em_world m)"
      "data w ?dir \<noteq> None" "\<And>p. p \<noteq> ?dir \<Longrightarrow> data w p = data (em_world m) p"
      "\<And>q. creatable (em_world m) q \<Longrightarrow> creatable w q"
    using createSlaveDir_alive [OF assms(1-3)] by blast
  have c: "em_zkConnection (m\<lparr>em_world := w\<rparr>) = Some c" "alive (em_world (m\<lparr>em_world := w\<rparr>)) c"
    using assms(1,2) w(2) by simp_all
  have ne: "?s \<noteq> ?dir" by (simp add: slave_node_def)
  show thesis
  proof (cases "data w ?s")
    case None
    obtain w' path where "zk_Create zk w c ?s n FlagEphemeral = (w', Inr path)"
        "data w' = (data w)(?s \<mapsto> n)" "alive w' = alive w" "\<forall>q. creatable w q \<longrightarrow> creatable w' q"
      using Create_new [of w c ?s n FlagEphemeral] None c(2) w(3) creatable_child [OF w(3) assms(4)]
      by (auto simp: slave_node_def)
    with None w ne show ?thesis
      using that [of w'] assms(1) getNodeData_alive [OF c]
      by (simp add: registerAsSlave_def andThen_def zk_call_def ret_def)
  next
    case (Some d)
    with w ne show ?thesis
      using that [of w] assms(1) getNodeData_alive [OF c]
      by (simp add: registerAsSlave_def andThen_def zk_call_def ret_def)
  qed
qed

lemma registerAsSlave_alive:
  assumes "em_zkConnection m = Some c" and "alive (em_world m) c"
    and "creatable (em_world m) (ZKSlaveNodesURI (em_config m))" and "CHR ''/'' \<notin> set n"
    and "chan_send Slave (em_feedbackChannel m) = Sent ch"
  obtains w where
    "registerAsSlave zk n m = (Ret (), m\<lparr>em_world := w, em_isMaster := False, em_feedbackChannel := ch\<rparr>)"
    "alive w = alive (em_world m)" "data w (slave_node (em_config m) n) \<noteq> None"
    "data w (ZKSlaveNodesURI (em_config m)) \<noteq> None"
    "\<And>p. p \<noteq> ZKSlaveNodesURI (em_config m) \<Longrightarrow> p \<noteq> slave_node (em_config m) n \<Longrightarrow> data w p = data (em_world m) p"
    "\<And>q. creatable (em_world m) q \<Longrightarrow> creatable w q"
  using registerAsSlave_signal [OF assms(1-4)] assms(5) by (auto simp: signal_def)

lemma dropSlaveNode_alive:
  assumes "em_zkConnection m = Some c" and "alive (em_world m) c"
  obtains w where "dropSlaveNode zk n m = (Ret (), m\<lparr>em_world := w\<rparr>)" "alive w = alive (em_world m)"
    "data w = (data (em_world m))(slave_node (em_config m) n := None)"
    "\<And>q. creatable (em_world m) q \<Longrightarrow> (\<nexists>k. q = slave_node (em_config m) n @ ''/'' @ k) \<Longrightarrow> creatable w q"
proof (cases "data (em_world m) (slave_node (em_config m) n)")
  case None
  then show ?thesis
    using that [of "em_world m"] by (simp add: dropSlaveNode_def getNodeData_alive [OF assms] fun_upd_idem)
next
  case (Some d)
  then have "data (em_world m) (slave_node (em_config m) n) \<noteq> None" by simp
  from Delete [OF assms(2) this] obtain w' where
      "zk_Delete zk (em_world m) c (slave_node (em_config m) n) 0 = (w', None)"
      "data w' = (data (em_world m))(slave_node (em_config m) n := None)" "alive w' = alive (em_world m)"
      "\<forall>q. creatable (em_world m) q \<longrightarrow> (\<nexists>k. q = slave_node (em_config m) n @ ''/'' @ k) \<longrightarrow> creatable w' q"
    by blast
  with Some show ?thesis
    using that [of w'] assms(1)
    by (simp add: dropSlaveNode_def getNodeData_alive [OF assms] andThen_def zk_call_def ret_def)
qed

text \<open>The election node is free: this node becomes the master and its slave node disappears.\<close>

lemma claimMaster_free:
  assumes "em_zkConnection m = Some c" and "alive (em_world m) c"
    and "data (em_world m) (ZKElectionNodeURI (em_config m)) = None"
    and "creatable (em_world m) (ZKElectionNodeURI (em_config m))"
    and "chan_send Master (em_feedbackChannel m) = Sent ch"
  obtains w where
    "claimMaster zk n m = (Ret (), m\<lparr>em_world := w, em_isMaster := True, em_feedbackChannel := ch\<rparr>)"
    "alive w = alive (em_world m)"
    "data w = (data (em_world m))(ZKElectionNodeURI (em_config m) \<mapsto> n, slave_node (em_config m) n := None)"
    "\<And>q. creatable (em_world m) q \<Longrightarrow> (\<nexists>k. q = slave_node (em_config m) n @ ''/'' @ k) \<Longrightarrow> creatable w q"
proof -
  let ?e = "ZKElectionNodeURI (em_config m)"
  obtain w path where w: "zk_Create zk (em_world m) c ?e n FlagEphemeral = (w, Inr path)"
      "data w = (data (em_world m))(?e \<mapsto> n)" "alive w = alive (em_world m)"
      "\<forall>q. creatable (em_world m) q \<longrightarrow> creatable w q"
    using Create_new [OF assms(2,3,4)] by blast
  let ?m = "m\<lparr>em_world := w, em_isMaster := True, em_feedbackChannel := ch\<rparr>"
  have c: "em_zkConnection ?m = Some c" "alive (em_world ?m) c"
    using assms(1,2) w(3) by simp_all
  show thesis
  proof (rule dropSlaveNode_alive [OF c, of n])
    fix w'
    assume "dropSlaveNode zk n ?m = (Ret (), ?m\<lparr>em_world := w'\<rparr>)" "alive w' = alive (em_world ?m)"
      "data w' = (data (em_world ?m))(slave_node (em_config ?m) n := None)"
      "\<And>q. creatable (em_world ?m) q \<Longrightarrow> (\<nexists>k. q = slave_node (em_config ?m) n @ ''/'' @ k) \<Longrightarrow> creatable w' q"
    with w show thesis
      using that [of w'] assms(1,5) by (simp add: claimMaster_def andThen_def zk_call_def signal_def)
  qed
qed

text \<open>The election node exists, whoever created it: this node becomes a slave.\<close>

lemma claimMaster_taken:
  assumes "em_zkConnection m = Some c" and "alive (em_world m) c"
    and "data (em_world m) (ZKElectionNodeURI (em_config m)) \<noteq> None"
  shows "claimMaster zk n m = registerAsSlave zk n m"
proof -
  have "m\<lparr>em_world := em_world m\<rparr> = m" by simp
  with assms(1) Create_exists [OF assms(2,3)] show ?thesis
    by (simp add: claimMaster_def andThen_def zk_call_def)
qed

lemma electForMaster_alive:
  assumes "em_zkConnection m = Some c" and "alive (em_world m) c" and "os_Hostname zk (em_world m) = Inr n"
  shows "electForMaster zk m =
    (case data (em_world m) (ZKElectionNodeURI (em_config m)) of
       None \<Rightarrow> claimMaster zk n m
     | Some n' \<Rightarrow> registerAsSlave zk n (if n' = n then m\<lparr>em_isMaster := True\<rparr> else m))"
proof -
  let ?m = "m\<lparr>em_isMaster := True\<rparr>"
  have "claimMaster zk n ?m = registerAsSlave zk n ?m"
    if "data (em_world m) (ZKElectionNodeURI (em_config m)) \<noteq> None"
    using assms that by (intro claimMaster_taken) simp_all
  then show ?thesis
    using assms by (auto simp: electForMaster_def andThen_def GetHostname_def getZKMasterNode_alive [OF assms(1,2)] split: option.split)
qed

end

section \<open>A tree of nodes\<close>

text \<open>
  A ZooKeeper server in memory: its nodes with their data and, for an ephemeral node, the connection
  that owns it; the live connections. Closing a connection removes its ephemeral nodes.
\<close>

record zk_tree =
  tr_nodes :: "(string \<times> (string \<times> nat option)) list"
  tr_live :: "nat list"
  tr_next :: nat

definition tree_data :: "zk_tree \<Rightarrow> string \<Rightarrow> string option" where
  "tree_data w p = map_option fst (map_of (tr_nodes w) p)"

definition tree_alive :: "zk_tree \<Rightarrow> nat \<Rightarrow> bool" where
  "tree_alive w c \<longleftrightarrow> c \<in> set (tr_live w)"

definition parent :: "string \<Rightarrow> string" where
  "parent p = rev (tl (dropWhile (\<lambda>ch. ch \<noteq> CHR ''/'') (rev p)))"

definition tree_creatable :: "zk_tree \<Rightarrow> string \<Rightarrow> bool" where
  "tree_creatable w p \<longleftrightarrow> parent p = [] \<or> tree_data w (parent p) \<noteq> None"

definition tree_children :: "zk_tree \<Rightarrow> string \<Rightarrow> string list" where
  "tree_children w p =
     remdups (filter (\<lambda>n. CHR ''/'' \<notin> set n)
       (map (\<lambda>q. drop (length p + 1) q) (filter (\<lambda>q. take (length p + 1) q = p @ ''/'') (map fst (tr_nodes w)))))"

definition tree_lib :: "zk_tree zk_lib" where
  "tree_lib =
     \<lparr>zk_Connect = (\<lambda>w _ _. (w\<lparr>tr_live := tr_next w # tr_live w, tr_next := Suc (tr_next w)\<rparr>, Inr (tr_next w))),
      zk_Get = (\<lambda>w c p.
        (w, if \<not> tree_alive w c then Inl ''zk: could not connect to a server''
            else case tree_data w p of None \<Rightarrow> Inl ''zk: node does not exist'' | Some d \<Rightarrow> Inr d)),
      zk_Create = (\<lambda>w c p d fl.
        if \<not> tree_alive w c then (w, Inl ''zk: could not connect to a server'')
        else if tree_data w p \<noteq> None then (w, Inl ''zk: node already exists'')
        else if \<not> tree_creatable w p then (w, Inl ''zk: node does not exist'')
        else (w\<lparr>tr_nodes := (p, d, if fl = FlagEphemeral then Some c else None) # tr_nodes w\<rparr>, Inr p)),
      zk_Delete = (\<lambda>w c p ver.
        if tree_data w p = None then (w, Some ''zk: node does not exist'')
        else if ver \<noteq> 0 \<and> ver \<noteq> -1 then (w, Some ''zk: version conflict'')
        else (w\<lparr>tr_nodes := AList.delete p (tr_nodes w)\<rparr>, None)),
      zk_Children = (\<lambda>w c p.
        (w, if tree_data w p = None then Inl ''zk: node does not exist'' else Inr (tree_children w p))),
      zk_ExistsW = (\<lambda>w c p. (w, Inr (tree_data w p \<noteq> None))),
      zk_State = (\<lambda>w c. if tree_alive w c then StateHasSession else StateDisconnected),
      zk_Close = (\<lambda>w c. w\<lparr>tr_live := filter (\<lambda>d. d \<noteq> c) (tr_live w),
        tr_nodes := filter (\<lambda>(p, d, ow). ow \<noteq> Some c) (tr_nodes w)\<rparr>),
      os_Hostname = (\<lambda>w. Inr ''localhost''),
      time_After = (\<lambda>w d. w)\<rparr>"

lemma parent_child: "CHR ''/'' \<notin> set n \<Longrightarrow> parent (p @ ''/'' @ n) = p"
proof -
  assume "CHR ''/'' \<notin> set n"
  then have "dropWhile (\<lambda>ch. ch \<noteq> CHR ''/'') (rev n @ CHR ''/'' # rev p) = CHR ''/'' # rev p"
    by (subst dropWhile_append2) auto
  then show ?thesis by (simp add: parent_def)
qed

lemma parent_inv: "parent q \<noteq> [] \<Longrightarrow> \<exists>n. q = parent q @ ''/'' @ n"
proof -
  assume "parent q \<noteq> []"
  then have ne: "dropWhile (\<lambda>ch. ch \<noteq> CHR ''/'') (rev q) \<noteq> []"
    unfolding parent_def by (metis list.sel(2) rev.simps(1))
  then obtain r where r: "dropWhile (\<lambda>ch. ch \<noteq> CHR ''/'') (rev q) = CHR ''/'' # r"
    using hd_dropWhile [OF ne] by (cases "dropWhile (\<lambda>ch. ch \<noteq> CHR ''/'') (rev q)") auto
  have "rev q = takeWhile (\<lambda>ch. ch \<noteq> CHR ''/'') (rev q) @ CHR ''/'' # r"
    using takeWhile_dropWhile_id [of "\<lambda>ch. ch \<noteq> CHR ''/''" "rev q"] r by simp
  then have "q = rev r @ ''/'' @ rev (takeWhile (\<lambda>ch. ch \<noteq> CHR ''/'') (rev q))"
    by (metis append_Cons append_Nil append_assoc rev.simps(2) rev_append rev_rev_ident)
  then show ?thesis
    by (metis r list.sel(3) parent_def)
qed

lemma set_tree_children: "set (tree_children w p) = {n. CHR ''/'' \<notin> set n \<and> tree_data w (p @ ''/'' @ n) \<noteq> None}"
proof -
  have *: "n \<in> (\<lambda>q. drop (length p + 1) q) ` {q \<in> fst ` set (tr_nodes w). take (length p + 1) q = p @ ''/''} \<longleftrightarrow>
      p @ ''/'' @ n \<in> fst ` set (tr_nodes w)" for n
  proof
    assume "p @ ''/'' @ n \<in> fst ` set (tr_nodes w)"
    then show "n \<in> (\<lambda>q. drop (length p + 1) q) ` {q \<in> fst ` set (tr_nodes w). take (length p + 1) q = p @ ''/''}"
      by (intro image_eqI [of _ _ "p @ ''/'' @ n"]) simp_all
  next
    assume "n \<in> (\<lambda>q. drop (length p + 1) q) ` {q \<in> fst ` set (tr_nodes w). take (length p + 1) q = p @ ''/''}"
    then obtain q where q: "q \<in> fst ` set (tr_nodes w)" "take (length p + 1) q = p @ ''/''" "n = drop (length p + 1) q"
      by blast
    then have "q = p @ ''/'' @ n" by (metis append_assoc append_take_drop_id)
    with q(1) show "p @ ''/'' @ n \<in> fst ` set (tr_nodes w)" by simp
  qed
  have "tree_data w q \<noteq> None \<longleftrightarrow> q \<in> fst ` set (tr_nodes w)" for q
    by (simp add: tree_data_def map_of_eq_None_iff)
  with * show ?thesis
    by (auto simp: tree_children_def image_def)
qed

interpretation zk_tree: zookeeper tree_lib tree_data tree_alive tree_creatable
proof
  fix w :: zk_tree and c p
  show "tree_alive w c \<Longrightarrow> zk_Get tree_lib w c p =
      (w, case tree_data w p of None \<Rightarrow> Inl ''zk: node does not exist'' | Some d \<Rightarrow> Inr d)"
    by (simp add: tree_lib_def)
next
  fix w :: zk_tree and c p d fl
  show "tree_alive w c \<Longrightarrow> tree_data w p \<noteq> None \<Longrightarrow> zk_Create tree_lib w c p d fl = (w, Inl ''zk: node already exists'')"
    by (simp add: tree_lib_def)
next
  fix w :: zk_tree and c p d fl
  assume "tree_alive w c" "tree_data w p = None" "tree_creatable w p"
  then show "\<exists>w' path. zk_Create tree_lib w c p d fl = (w', Inr path) \<and> tree_data w' = (tree_data w)(p \<mapsto> d) \<and>
      tree_alive w' = tree_alive w \<and> (\<forall>q. tree_creatable w q \<longrightarrow> tree_creatable w' q)"
    by (auto simp: tree_lib_def tree_data_def tree_alive_def tree_creatable_def fun_eq_iff)
next
  fix w :: zk_tree and c p d fl
  assume "tree_alive w c" "tree_data w p = None" "\<not> tree_creatable w p"
  then show "\<exists>err. zk_Create tree_lib w c p d fl = (w, Inl err) \<and> err \<noteq> ''zk: node already exists''"
    by (simp add: tree_lib_def)
next
  fix w :: zk_tree and c p ver
  assume "tree_alive w c" "tree_data w p = None"
  then show "\<exists>err. zk_Delete tree_lib w c p ver = (w, Some err)"
    by (simp add: tree_lib_def)
next
  fix w :: zk_tree and c p
  assume "tree_alive w c" "tree_data w p \<noteq> None"
  moreover have "tree_creatable (w\<lparr>tr_nodes := AList.delete p (tr_nodes w)\<rparr>) q"
    if "tree_creatable w q" "\<nexists>n. q = p @ ''/'' @ n" for q
    using that parent_inv [of q] by (auto simp: tree_creatable_def tree_data_def delete_conv')
  ultimately show "\<exists>w'. zk_Delete tree_lib w c p 0 = (w', None) \<and> tree_data w' = (tree_data w)(p := None) \<and>
      tree_alive w' = tree_alive w \<and> (\<forall>q. tree_creatable w q \<longrightarrow> (\<nexists>n. q = p @ ''/'' @ n) \<longrightarrow> tree_creatable w' q)"
    by (auto simp: tree_lib_def tree_data_def tree_alive_def fun_eq_iff delete_conv')
next
  fix w :: zk_tree and c p
  assume "tree_alive w c" "tree_data w p \<noteq> None"
  then show "\<exists>cs. zk_Children tree_lib w c p = (w, Inr cs) \<and> distinct cs \<and>
      set cs = {n. CHR ''/'' \<notin> set n \<and> tree_data w (p @ ''/'' @ n) \<noteq> None}"
    using set_tree_children [of w p] by (simp add: tree_lib_def tree_children_def)
next
  fix w :: zk_tree and p n
  show "tree_data w p \<noteq> None \<Longrightarrow> CHR ''/'' \<notin> set n \<Longrightarrow> tree_creatable w (p @ ''/'' @ n)"
    using parent_child [of n p] by (simp add: tree_creatable_def)
qed

section \<open>A node on a live connection\<close>

text \<open>The election node is not the slave directory and does not lie under it.\<close>

definition uris_ok :: "Config \<Rightarrow> bool" where
  "uris_ok cf \<longleftrightarrow> ZKElectionNodeURI cf \<noteq> ZKSlaveNodesURI cf \<and>
     take (length (ZKSlaveNodesURI cf) + 1) (ZKElectionNodeURI cf) \<noteq> ZKSlaveNodesURI cf @ ''/''"

lemma uris_ok_under: "uris_ok cf \<Longrightarrow> ZKElectionNodeURI cf \<noteq> ZKSlaveNodesURI cf @ ''/'' @ p"
  by (auto simp: uris_ok_def)

lemma uris_ok_slave:
  assumes "uris_ok cf"
  shows "ZKElectionNodeURI cf \<noteq> slave_node cf n" "\<nexists>k. ZKElectionNodeURI cf = slave_node cf n @ ''/'' @ k"
  using uris_ok_under [OF assms, of n] uris_ok_under [OF assms, of "n @ ''/'' @ k" for k] by (auto simp: slave_node_def)

lemma slave_dir_not_under: "\<nexists>k. ZKSlaveNodesURI cf = slave_node cf n @ ''/'' @ k"
proof
  assume "\<exists>k. ZKSlaveNodesURI cf = slave_node cf n @ ''/'' @ k"
  then obtain k where "ZKSlaveNodesURI cf = slave_node cf n @ ''/'' @ k" ..
  then have "length (ZKSlaveNodesURI cf) = length (slave_node cf n @ ''/'' @ k)" by simp
  then show False by (simp add: slave_node_def)
qed

definition node_ready ::
  "('w \<Rightarrow> nat \<Rightarrow> bool) \<Rightarrow> ('w \<Rightarrow> string \<Rightarrow> bool) \<Rightarrow> Config \<Rightarrow> 'w \<Rightarrow> 'w elec \<Rightarrow> bool" where
  "node_ready alive creatable cf w m \<longleftrightarrow>
     em_config m = cf \<and> (\<exists>c. em_zkConnection m = Some c \<and> alive w c) \<and> \<not> ch_closed (em_feedbackChannel m) \<and>
     creatable w (ZKElectionNodeURI cf) \<and> creatable w (ZKSlaveNodesURI cf)"

definition signalled :: "'w elec \<Rightarrow> int \<Rightarrow> int chan" where
  "signalled m x = (em_feedbackChannel m)\<lparr>ch_buf := ch_buf (em_feedbackChannel m) @ [x]\<rparr>"

definition has_room :: "'w elec \<Rightarrow> bool" where
  "has_room m \<longleftrightarrow> length (ch_buf (em_feedbackChannel m)) < ch_cap (em_feedbackChannel m)"

lemma signalled_Sent: "has_room m \<Longrightarrow> \<not> ch_closed (em_feedbackChannel m) \<Longrightarrow>
  chan_send x (em_feedbackChannel m) = Sent (signalled m x)"
  by (simp add: has_room_def chan_send_def signalled_def)

context zookeeper
begin

text \<open>One run of \<open>electForMaster\<close> by a node that is ready: what changes, in the node and in the world.\<close>

lemma elect_ready:
  assumes "node_ready alive creatable cf (em_world m) m" and "has_room m" and "uris_ok cf"
    and "CHR ''/'' \<notin> set n" and "os_Hostname zk (em_world m) = Inr n"
  obtains w where
    "electForMaster zk m =
       (Ret (), m\<lparr>em_world := w,
          em_isMaster := (data (em_world m) (ZKElectionNodeURI cf) = None),
          em_feedbackChannel :=
            signalled m (if data (em_world m) (ZKElectionNodeURI cf) = None then Master else Slave)\<rparr>)"
    "alive w = alive (em_world m)" "creatable w (ZKElectionNodeURI cf)" "creatable w (ZKSlaveNodesURI cf)"
    "data w (ZKElectionNodeURI cf) =
       (case data (em_world m) (ZKElectionNodeURI cf) of None \<Rightarrow> Some n | Some n' \<Rightarrow> Some n')"
    "(data w (slave_node cf n) = None) = (data (em_world m) (ZKElectionNodeURI cf) = None)"
    "data (em_world m) (ZKElectionNodeURI cf) \<noteq> None \<Longrightarrow> data w (ZKSlaveNodesURI cf) \<noteq> None"
proof -
  obtain c where m: "em_config m = cf" "em_zkConnection m = Some c" "alive (em_world m) c"
      "\<not> ch_closed (em_feedbackChannel m)" "creatable (em_world m) (ZKElectionNodeURI cf)"
      "creatable (em_world m) (ZKSlaveNodesURI cf)"
    using assms(1) by (auto simp: node_ready_def)
  note elect = electForMaster_alive [OF m(2,3) assms(5)]
  show thesis
  proof (cases "data (em_world m) (ZKElectionNodeURI cf)")
    case None
    then obtain w where "claimMaster zk n m =
        (Ret (), m\<lparr>em_world := w, em_isMaster := True, em_feedbackChannel := signalled m Master\<rparr>)"
      "alive w = alive (em_world m)"
      "data w = (data (em_world m))(ZKElectionNodeURI cf \<mapsto> n, slave_node cf n := None)"
      "\<And>q. creatable (em_world m) q \<Longrightarrow> (\<nexists>k. q = slave_node cf n @ ''/'' @ k) \<Longrightarrow> creatable w q"
      using claimMaster_free [OF m(2,3) _ _ signalled_Sent [OF assms(2) m(4)], of n] m(1,5) by blast
    with None show ?thesis
      using that [of w] uris_ok_slave [OF assms(3), of n] slave_dir_not_under [of cf n] elect m(1,5,6) by simp
  next
    case (Some n')
    let ?m = "if n' = n then m\<lparr>em_isMaster := True\<rparr> else m"
    have fields: "em_config ?m = cf" "em_zkConnection ?m = Some c" "em_world ?m = em_world m"
        "em_feedbackChannel ?m = em_feedbackChannel m"
      using m by auto
    have "chan_send Slave (em_feedbackChannel ?m) = Sent (signalled m Slave)"
      using signalled_Sent [OF assms(2) m(4)] fields(4) by simp
    then obtain w where w: "registerAsSlave zk n ?m =
        (Ret (), ?m\<lparr>em_world := w, em_isMaster := False, em_feedbackChannel := signalled m Slave\<rparr>)"
      "alive w = alive (em_world m)" "data w (slave_node cf n) \<noteq> None" "data w (ZKSlaveNodesURI cf) \<noteq> None"
      "\<And>p. p \<noteq> ZKSlaveNodesURI cf \<Longrightarrow> p \<noteq> slave_node cf n \<Longrightarrow> data w p = data (em_world m) p"
      "\<And>q. creatable (em_world m) q \<Longrightarrow> creatable w q"
      using registerAsSlave_alive [of ?m c n "signalled m Slave"] m(3,6) assms(4) fields by metis
    have "ZKElectionNodeURI cf \<noteq> ZKSlaveNodesURI cf"
      using assms(3) by (simp add: uris_ok_def)
    with Some w show ?thesis
      using that [of w] uris_ok_slave(1) [OF assms(3), of n] elect m(1,5,6) by (simp split: if_splits)
  qed
qed

text \<open>One call of an election: what it keeps of the world, and that it makes a master only of the node that
  the election node names.\<close>

lemma Create_effect:
  assumes "alive w c" and "zk_Create zk w c p x fl = (w', r)"
  shows "alive w' = alive w" "creatable w q \<Longrightarrow> creatable w' q" "data w q \<noteq> None \<Longrightarrow> data w' q = data w q"
    "r = Inr y \<Longrightarrow> data w p = None \<and> data w' p = Some x" "r = Inl ''zk: node already exists'' \<Longrightarrow> data w p \<noteq> None"
proof -
  consider "data w p \<noteq> None" | "data w p = None" "creatable w p" | "data w p = None" "\<not> creatable w p" by blast
  then have "alive w' = alive w \<and> (creatable w q \<longrightarrow> creatable w' q) \<and> (data w q \<noteq> None \<longrightarrow> data w' q = data w q) \<and>
      (r = Inr y \<longrightarrow> data w p = None \<and> data w' p = Some x) \<and> (r = Inl ''zk: node already exists'' \<longrightarrow> data w p \<noteq> None)"
  proof cases
    case 1
    then show ?thesis using Create_exists [OF assms(1) 1, of x fl] assms(2) by simp
  next
    case 2
    then show ?thesis using Create_new [OF assms(1) 2, of x fl] assms(2) by auto
  next
    case 3
    then show ?thesis using Create_orphan [OF assms(1) 3, of x fl] assms(2) by auto
  qed
  then show "alive w' = alive w" "creatable w q \<Longrightarrow> creatable w' q" "data w q \<noteq> None \<Longrightarrow> data w' q = data w q"
    "r = Inr y \<Longrightarrow> data w p = None \<and> data w' p = Some x" "r = Inl ''zk: node already exists'' \<Longrightarrow> data w p \<noteq> None"
    by blast+
qed

lemma Delete_effect:
  assumes "alive w c" and "zk_Delete zk w c p 0 = (w', r)"
  shows "alive w' = alive w" "creatable w q \<Longrightarrow> (\<nexists>n. q = p @ ''/'' @ n) \<Longrightarrow> creatable w' q"
    "q \<noteq> p \<Longrightarrow> data w' q = data w q"
  using Delete [OF assms(1), of p] Delete_missing [OF assms(1), of p 0] assms(2) by (cases "data w p"; auto)+

lemma elect_step_effect:
  assumes "node_ready alive creatable cf (em_world m) m" and "uris_ok cf" and "elect_step zk n pc m = (r, m')"
  shows "node_ready alive creatable cf (em_world m') m'" "alive (em_world m') = alive (em_world m)"
    "data (em_world m) (ZKElectionNodeURI cf) \<noteq> None \<Longrightarrow>
       data (em_world m') (ZKElectionNodeURI cf) = data (em_world m) (ZKElectionNodeURI cf)"
    "em_isMaster m' \<Longrightarrow> em_isMaster m \<or> data (em_world m') (ZKElectionNodeURI cf) = Some n"
proof -
  obtain c where m: "em_config m = cf" "em_zkConnection m = Some c" "alive (em_world m) c"
      "\<not> ch_closed (em_feedbackChannel m)" "creatable (em_world m) (ZKElectionNodeURI cf)"
      "creatable (em_world m) (ZKSlaveNodesURI cf)"
    using assms(1) by (auto simp: node_ready_def)
  note get = getNodeData_alive [OF m(2,3)] getZKMasterNode_alive [OF m(2,3)]
  note uris = uris_ok_slave [OF assms(2), of n] slave_dir_not_under [of cf n]
  have "node_ready alive creatable cf (em_world m') m' \<and> alive (em_world m') = alive (em_world m) \<and>
    (data (em_world m) (ZKElectionNodeURI cf) \<noteq> None \<longrightarrow>
       data (em_world m') (ZKElectionNodeURI cf) = data (em_world m) (ZKElectionNodeURI cf)) \<and>
    (em_isMaster m' \<longrightarrow> em_isMaster m \<or> data (em_world m') (ZKElectionNodeURI cf) = Some n)"
  proof (cases pc)
    case AtDeleteSlaveNode
    obtain w' e where w': "zk_Delete zk (em_world m) c (slave_node cf n) 0 = (w', e)" by fastforce
    show ?thesis
      using assms(3) m w' uris Delete_effect [OF m(3) w']
      by (auto simp: AtDeleteSlaveNode andThen_def zk_call_def ret_def node_ready_def)
  next
    case AtCreateMaster
    obtain w' x where w': "zk_Create zk (em_world m) c (ZKElectionNodeURI cf) n FlagEphemeral = (w', x)" by fastforce
    note effect = Create_effect [OF m(3) w']
    show ?thesis
      using assms(3) m w' effect(1-3) effect(4)
      by (cases x) (auto simp: AtCreateMaster andThen_def zk_call_def node_ready_def split: if_split_asm)
  next
    case AtCreateSlaveDir
    obtain w' x where w': "zk_Create zk (em_world m) c (ZKSlaveNodesURI cf) [] 0 = (w', x)" by fastforce
    show ?thesis
      using assms(3) m w' Create_effect(1-3) [OF m(3) w']
      by (cases x) (auto simp: AtCreateSlaveDir andThen_def zk_call_def node_ready_def ret_def fail_def)
  next
    case AtCreateSlaveNode
    obtain w' x where w': "zk_Create zk (em_world m) c (slave_node cf n) n FlagEphemeral = (w', x)" by fastforce
    show ?thesis
      using assms(3) m w' Create_effect(1-3) [OF m(3) w']
      by (cases x) (auto simp: AtCreateSlaveNode andThen_def zk_call_def node_ready_def)
  next
    case AtGetMaster
    then show ?thesis
      using assms(3) m get by (auto simp: andThen_def node_ready_def split: option.split_asm if_split_asm)
  next
    case AtGetSlaveDir
    then show ?thesis
      using assms(3) m get by (auto simp: andThen_def node_ready_def ret_def)
  next
    case AtGetSlaveNode
    then show ?thesis
      using assms(3) m get by (auto simp: andThen_def node_ready_def split: option.split_asm)
  next
    case AtGetOwnSlaveNode
    then show ?thesis
      using assms(3) m get by (auto simp: node_ready_def split: option.split_asm)
  qed (use assms(3) m in \<open>auto simp: andThen_def ret_def node_ready_def signal_def chan_send_def split: if_split_asm\<close>)
  then show "node_ready alive creatable cf (em_world m') m'" "alive (em_world m') = alive (em_world m)"
    "data (em_world m) (ZKElectionNodeURI cf) \<noteq> None \<Longrightarrow>
       data (em_world m') (ZKElectionNodeURI cf) = data (em_world m) (ZKElectionNodeURI cf)"
    "em_isMaster m' \<Longrightarrow> em_isMaster m \<or> data (em_world m') (ZKElectionNodeURI cf) = Some n"
    by blast+
qed

text \<open>An election while the election node exists ends with this node as a slave, whatever becomes of its signal.\<close>

lemma elect_taken:
  assumes "node_ready alive creatable cf (em_world m) m" and "uris_ok cf" and "CHR ''/'' \<notin> set n"
    and "os_Hostname zk (em_world m) = Inr n" and "data (em_world m) (ZKElectionNodeURI cf) \<noteq> None"
  obtains r m' where "electForMaster zk m = (r, m')" "\<not> em_isMaster m'"
    "node_ready alive creatable cf (em_world m') m'" "alive (em_world m') = alive (em_world m)"
    "data (em_world m') (ZKElectionNodeURI cf) = data (em_world m) (ZKElectionNodeURI cf)"
proof -
  obtain c n' where m: "em_config m = cf" "em_zkConnection m = Some c" "alive (em_world m) c"
      "\<not> ch_closed (em_feedbackChannel m)" "creatable (em_world m) (ZKElectionNodeURI cf)"
      "creatable (em_world m) (ZKSlaveNodesURI cf)" "data (em_world m) (ZKElectionNodeURI cf) = Some n'"
    using assms(1,5) by (auto simp: node_ready_def)
  let ?m = "if n' = n then m\<lparr>em_isMaster := True\<rparr> else m"
  have fields: "em_config ?m = cf" "em_zkConnection ?m = Some c" "em_world ?m = em_world m"
      "em_feedbackChannel ?m = em_feedbackChannel m"
    using m by auto
  obtain w where w: "registerAsSlave zk n ?m = signal Slave (?m\<lparr>em_world := w, em_isMaster := False\<rparr>)"
      "alive w = alive (em_world m)"
      "\<And>p. p \<noteq> ZKSlaveNodesURI cf \<Longrightarrow> p \<noteq> slave_node cf n \<Longrightarrow> data w p = data (em_world m) p"
      "\<And>q. creatable (em_world m) q \<Longrightarrow> creatable w q"
    using registerAsSlave_signal [of ?m c n] m(3,6) assms(3) fields by metis
  have elect: "electForMaster zk m = signal Slave (?m\<lparr>em_world := w, em_isMaster := False\<rparr>)"
    using electForMaster_alive [OF m(2,3) assms(4)] m(1,7) w(1) by simp
  obtain r m' where m': "signal Slave (?m\<lparr>em_world := w, em_isMaster := False\<rparr>) = (r, m')" by fastforce
  then have kept: "\<not> em_isMaster m'" "em_world m' = w" "em_config m' = cf" "em_zkConnection m' = Some c"
      "\<not> ch_closed (em_feedbackChannel m')"
    using fields m(4) by (auto simp: signal_def chan_send_def split: if_split_asm)
  have "data w (ZKElectionNodeURI cf) = data (em_world m) (ZKElectionNodeURI cf)"
    using w(3) uris_ok_slave(1) [OF assms(2), of n] assms(2) by (simp add: uris_ok_def)
  then show thesis
    using that elect m' kept w m by (auto simp: node_ready_def)
qed

end

section \<open>Several nodes\<close>

text \<open>
  The nodes of a cluster, by host name, the elections that each of them runs (its event loops and its
  \<open>Start\<close> may run several at the same time) and the ZooKeeper world they share. In a step
  \<^item> a node begins an election,
  \<^item> an election makes its next call, and goes on, returns or fails with an error,
  \<^item> the client of a node reads a signal,
  \<^item> other clients of ZooKeeper, or its server, change the world: the sessions of the cluster's nodes live on, the
    parents of the configured nodes stay, and so does an election node with the name of a host of the cluster.
  A send on a full channel, or a panic, is not a step: the election waits, or is gone with its process.
\<close>

type_synonym 'w cluster = "'w \<times> (string \<Rightarrow> 'w elec) \<times> (string \<Rightarrow> elect_pc list)"

inductive cluster_step ::
  "'w zk_lib \<Rightarrow> ('w \<Rightarrow> string \<Rightarrow> string option) \<Rightarrow> ('w \<Rightarrow> nat \<Rightarrow> bool) \<Rightarrow> ('w \<Rightarrow> string \<Rightarrow> bool) \<Rightarrow> Config \<Rightarrow>
     string set \<Rightarrow> 'w cluster \<Rightarrow> 'w cluster \<Rightarrow> bool" for zk d a cr cf H where
  begins: "h \<in> H \<Longrightarrow> cluster_step zk d a cr cf H (w, f, rs) (w, f, rs(h := rs h @ [AtGetMaster]))"
| goes_on: "h \<in> H \<Longrightarrow> i < length (rs h) \<Longrightarrow>
     elect_step zk h (rs h ! i) ((f h)\<lparr>em_world := w\<rparr>) = (Ret (Some pc), m) \<Longrightarrow>
     cluster_step zk d a cr cf H (w, f, rs) (em_world m, f(h := m), rs(h := (rs h)[i := pc]))"
| returns: "h \<in> H \<Longrightarrow> i < length (rs h) \<Longrightarrow>
     elect_step zk h (rs h ! i) ((f h)\<lparr>em_world := w\<rparr>) = (Ret None, m) \<Longrightarrow>
     cluster_step zk d a cr cf H (w, f, rs) (em_world m, f(h := m), rs(h := take i (rs h) @ drop (Suc i) (rs h)))"
| fails: "h \<in> H \<Longrightarrow> i < length (rs h) \<Longrightarrow>
     elect_step zk h (rs h ! i) ((f h)\<lparr>em_world := w\<rparr>) = (Fail err, m) \<Longrightarrow>
     cluster_step zk d a cr cf H (w, f, rs) (em_world m, f(h := m), rs(h := take i (rs h) @ drop (Suc i) (rs h)))"
| receive: "h \<in> H \<Longrightarrow> chan_recv (em_feedbackChannel (f h)) = Received x ch \<Longrightarrow>
     cluster_step zk d a cr cf H (w, f, rs) (w, f(h := (f h)\<lparr>em_feedbackChannel := ch\<rparr>), rs)"
| others: "(\<And>h c. h \<in> H \<Longrightarrow> em_zkConnection (f h) = Some c \<Longrightarrow> a w c \<Longrightarrow> a w' c) \<Longrightarrow>
     (cr w (ZKElectionNodeURI cf) \<Longrightarrow> cr w' (ZKElectionNodeURI cf)) \<Longrightarrow>
     (cr w (ZKSlaveNodesURI cf) \<Longrightarrow> cr w' (ZKSlaveNodesURI cf)) \<Longrightarrow>
     (\<And>h. h \<in> H \<Longrightarrow> d w (ZKElectionNodeURI cf) = Some h \<Longrightarrow> d w' (ZKElectionNodeURI cf) = Some h) \<Longrightarrow>
     cluster_step zk d a cr cf H (w, f, rs) (w', f, rs)"

definition cluster_inv ::
  "('w \<Rightarrow> string \<Rightarrow> string option) \<Rightarrow> ('w \<Rightarrow> nat \<Rightarrow> bool) \<Rightarrow> ('w \<Rightarrow> string \<Rightarrow> bool) \<Rightarrow> Config \<Rightarrow> string set \<Rightarrow>
     'w \<times> (string \<Rightarrow> 'w elec) \<Rightarrow> bool" where
  "cluster_inv d a cr cf H s \<longleftrightarrow>
     (\<forall>h\<in>H. node_ready a cr cf (fst s) (snd s h) \<and>
        (em_isMaster (snd s h) \<longrightarrow> d (fst s) (ZKElectionNodeURI cf) = Some h))"

lemma cluster_inv_call:
  assumes "zookeeper zk d a cr" and "uris_ok cf" and "h \<in> H" and "cluster_inv d a cr cf H (w, f)"
    and "elect_step zk h pc ((f h)\<lparr>em_world := w\<rparr>) = (r, m)"
  shows "cluster_inv d a cr cf H (em_world m, f(h := m))"
proof -
  let ?m = "(f h)\<lparr>em_world := w\<rparr>"
  have "node_ready a cr cf (em_world ?m) ?m"
    using assms(3,4) by (simp add: cluster_inv_def node_ready_def)
  note effect = zookeeper.elect_step_effect [OF assms(1) this assms(2,5)]
  have old: "node_ready a cr cf w (f k)" "em_isMaster (f k) \<Longrightarrow> d w (ZKElectionNodeURI cf) = Some k" if "k \<in> H" for k
    using assms(4) that by (auto simp: cluster_inv_def)
  have "node_ready a cr cf (em_world m) ((f(h := m)) k)" if "k \<in> H" for k
    using effect(1,2) old(1) [OF that] by (auto simp: node_ready_def)
  moreover have "d (em_world m) (ZKElectionNodeURI cf) = Some k" if "k \<in> H" "em_isMaster ((f(h := m)) k)" for k
    using effect(3,4) old(2) [OF that(1)] that(2) by (cases "k = h") auto
  ultimately show ?thesis
    by (simp add: cluster_inv_def)
qed

lemma cluster_inv_step:
  assumes "zookeeper zk d a cr" and "uris_ok cf"
    and "cluster_step zk d a cr cf H (w, f, rs) (w', f', rs')" and "cluster_inv d a cr cf H (w, f)"
  shows "cluster_inv d a cr cf H (w', f')"
  using assms(3)
proof cases
  case (receive h x ch)
  then have "ch_closed ch = ch_closed (em_feedbackChannel (f h))"
    by (auto simp: chan_recv_def split: list.splits if_splits)
  with receive assms(4) show ?thesis
    by (auto simp: cluster_inv_def node_ready_def)
next
  case others
  with assms(4) show ?thesis
    by (fastforce simp: cluster_inv_def node_ready_def)
qed (use assms(4) cluster_inv_call [OF assms(1,2) _ assms(4)] in auto)

lemma cluster_inv_steps:
  assumes "(cluster_step zk d a cr cf H)\<^sup>*\<^sup>* (w, f, rs) (w', f', rs')" and "zookeeper zk d a cr" and "uris_ok cf"
    and "cluster_inv d a cr cf H (w, f)"
  shows "cluster_inv d a cr cf H (w', f')"
proof -
  have "cluster_inv d a cr cf H (fst s, fst (snd s)) \<Longrightarrow> cluster_inv d a cr cf H (fst s', fst (snd s'))"
    if "(cluster_step zk d a cr cf H)\<^sup>*\<^sup>* s s'" for s s'
    using that by (induction rule: rtranclp_induct) (auto intro: cluster_inv_step [OF assms(2,3)])
  from this [OF assms(1)] assms(4) show ?thesis by simp
qed

text \<open>A whole election that nothing disturbs, in a cluster.\<close>

definition with_host :: "'w zk_lib \<Rightarrow> string \<Rightarrow> 'w zk_lib" where
  "with_host zk h = zk\<lparr>os_Hostname := (\<lambda>_. Inr h)\<rparr>"

definition elect_host :: "'w zk_lib \<Rightarrow> string \<Rightarrow> 'w \<times> (string \<Rightarrow> 'w elec) \<Rightarrow> 'w \<times> (string \<Rightarrow> 'w elec)" where
  "elect_host zk h s =
     (case snd (electForMaster (with_host zk h) ((snd s h)\<lparr>em_world := fst s\<rparr>)) of m \<Rightarrow> (em_world m, (snd s)(h := m)))"

lemma zookeeper_with_host: "zookeeper zk d a cr \<Longrightarrow> zookeeper (with_host zk h) d a cr"
  by (simp add: zookeeper_def with_host_def)

lemma elect_step_with_host: "elect_step (with_host zk h) n pc m = elect_step zk n pc m"
  by (cases pc) (simp_all add: with_host_def getZKMasterNode_def getNodeData_def andThen_def)

lemma elect_run_with_host: "elect_run (with_host zk h) n pc m = elect_run zk n pc m"
proof (induction zk n pc m rule: elect_run.induct)
  case (1 zk n pc m)
  then show ?case
    by (subst (1 2) elect_run.simps) (simp add: elect_step_with_host split: prod.split eres.split option.split)
qed

lemma electForMaster_with_host: "electForMaster (with_host zk h) m = elect_run zk h AtGetMaster m"
proof -
  have "GetHostname (with_host zk h) m = (Ret h, m)"
    by (simp add: GetHostname_def with_host_def)
  then show ?thesis
    by (simp add: electForMaster_calls andThen_def elect_run_with_host)
qed

text \<open>Such an election is a sequence of steps of the cluster, unless the feedback channel stops it.\<close>

lemma elect_run_steps:
  assumes "h \<in> H" and "r \<noteq> Wait" and "r \<noteq> Crash"
  shows "elect_run zk h pc ((f h)\<lparr>em_world := w\<rparr>) = (r, m) \<Longrightarrow> rs h = ps @ [pc] \<Longrightarrow>
    (cluster_step zk d a cr cf H)\<^sup>*\<^sup>* (w, f, rs) (em_world m, f(h := m), rs(h := ps))"
proof (induction pc arbitrary: w f rs rule: measure_induct_rule [of elect_rank])
  case (less pc)
  obtain x m1 where x: "elect_step zk h pc ((f h)\<lparr>em_world := w\<rparr>) = (x, m1)" by fastforce
  with less.prems(2) have at: "elect_step zk h (rs h ! length ps) ((f h)\<lparr>em_world := w\<rparr>) = (x, m1)"
    and i: "length ps < length (rs h)" and cut: "take (length ps) (rs h) @ drop (Suc (length ps)) (rs h) = ps"
    by simp_all
  have run: "(case (x, m1) of (Ret (Some pc'), m') \<Rightarrow> elect_run zk h pc' m' | (Ret None, m') \<Rightarrow> (Ret (), m')
      | (Fail e, m') \<Rightarrow> (Fail e, m') | (Crash, m') \<Rightarrow> (Crash, m') | (Wait, m') \<Rightarrow> (Wait, m')) = (r, m)"
    using less.prems(1) x by (subst (asm) elect_run.simps) simp
  show ?case
  proof (cases x)
    case (Ret y)
    show ?thesis
    proof (cases y)
      case None
      have "cluster_step zk d a cr cf H (w, f, rs) (em_world m, f(h := m), rs(h := ps))"
        using cluster_step.returns [where h = h and i = "length ps" and rs = rs and f = f and w = w and cf = cf and d = d and a = a and cr = cr, OF assms(1) i at [unfolded Ret None]] Ret None run cut by simp
      then show ?thesis by (rule r_into_rtranclp)
    next
      case (Some pc')
      let ?f = "f(h := m1)" and ?rs = "rs(h := (rs h)[length ps := pc'])"
      have "cluster_step zk d a cr cf H (w, f, rs) (em_world m1, ?f, ?rs)"
        using cluster_step.goes_on [where h = h and i = "length ps" and rs = rs and f = f and w = w and cf = cf and d = d and a = a and cr = cr, OF assms(1) i at [unfolded Ret Some]] by simp
      also have "(cluster_step zk d a cr cf H)\<^sup>*\<^sup>* (em_world m1, ?f, ?rs) (em_world m, ?f(h := m), ?rs(h := ps))"
        by (rule less.IH [of pc'])
          (use elect_step_rank [OF x [unfolded Ret Some]] run Ret Some less.prems(2) in \<open>simp_all add: list_update_append\<close>)
      finally show ?thesis by (simp only: fun_upd_upd)
    qed
  next
    case (Fail e)
    have "cluster_step zk d a cr cf H (w, f, rs) (em_world m, f(h := m), rs(h := ps))"
      using cluster_step.fails [where h = h and i = "length ps" and rs = rs and f = f and w = w and cf = cf and d = d and a = a and cr = cr, OF assms(1) i at [unfolded Fail]] Fail run cut by simp
    then show ?thesis by (rule r_into_rtranclp)
  qed (use run assms in simp_all)
qed

lemma elect_host_steps:
  assumes "electForMaster (with_host zk h) ((f h)\<lparr>em_world := w\<rparr>) = (r, m)" and "r \<noteq> Wait" and "r \<noteq> Crash" and "h \<in> H"
  shows "(cluster_step zk d a cr cf H)\<^sup>*\<^sup>* (w, f, rs) (em_world m, f(h := m), rs)"
proof -
  have "cluster_step zk d a cr cf H (w, f, rs) (w, f, rs(h := rs h @ [AtGetMaster]))"
    using assms(4) by (rule cluster_step.begins)
  also have "(cluster_step zk d a cr cf H)\<^sup>*\<^sup>* \<dots> (em_world m, f(h := m), (rs(h := rs h @ [AtGetMaster]))(h := rs h))"
    by (rule elect_run_steps [OF assms(4,2,3)]) (use assms(1) in \<open>simp_all add: electForMaster_with_host\<close>)
  finally show ?thesis by simp
qed

lemma elect_host_taken:
  assumes "zookeeper zk d a cr" and "uris_ok cf" and "CHR ''/'' \<notin> set k" and "k \<in> H"
    and "cluster_inv d a cr cf H (w, f)" and "d w (ZKElectionNodeURI cf) = Some h"
    and "elect_host zk k (w, f) = (w', f')"
  shows "cluster_inv d a cr cf H (w', f')" "d w' (ZKElectionNodeURI cf) = Some h"
    "\<not> em_isMaster (f' k)" "j \<noteq> k \<Longrightarrow> f' j = f j"
proof -
  let ?m = "(f k)\<lparr>em_world := w\<rparr>"
  have "node_ready a cr cf (em_world ?m) ?m"
    using assms(4,5) by (simp add: cluster_inv_def node_ready_def)
  then obtain r m' where m': "electForMaster (with_host zk k) ?m = (r, m')" "\<not> em_isMaster m'"
      "node_ready a cr cf (em_world m') m'" "a (em_world m') = a w" "d (em_world m') (ZKElectionNodeURI cf) = Some h"
    by (rule zookeeper.elect_taken [OF zookeeper_with_host [OF assms(1)] _ assms(2,3)])
      (use assms(6) in \<open>simp_all add: with_host_def\<close>)
  then have s': "w' = em_world m'" "f' = f(k := m')"
    using assms(7) by (simp_all add: elect_host_def)
  show "d w' (ZKElectionNodeURI cf) = Some h" "\<not> em_isMaster (f' k)" "j \<noteq> k \<Longrightarrow> f' j = f j"
    using m' s' by simp_all
  show "cluster_inv d a cr cf H (w', f')"
    using assms(5,6) m' s' by (auto simp: cluster_inv_def node_ready_def)
qed

lemma elect_hosts_taken:
  assumes "zookeeper zk d a cr" and "uris_ok cf" and "\<forall>h\<in>H. CHR ''/'' \<notin> set h"
  shows "set ks \<subseteq> H \<Longrightarrow> cluster_inv d a cr cf H (w, f) \<Longrightarrow> d w (ZKElectionNodeURI cf) = Some h \<Longrightarrow> \<not> em_isMaster (f h) \<Longrightarrow>
    fold (elect_host zk) ks (w, f) = (w', f') \<Longrightarrow>
    cluster_inv d a cr cf H (w', f') \<and> d w' (ZKElectionNodeURI cf) = Some h \<and> \<not> em_isMaster (f' h)"
proof (induction ks arbitrary: w f)
  case (Cons k ks)
  obtain w1 f1 where s1: "elect_host zk k (w, f) = (w1, f1)" by fastforce
  have k: "CHR ''/'' \<notin> set k" "k \<in> H"
    using Cons.prems(1) assms(3) by auto
  note taken = elect_host_taken [OF assms(1,2) k Cons.prems(2,3) s1]
  have "\<not> em_isMaster (f1 h)"
    using taken(3) taken(4) [of h] Cons.prems(4) by (cases "h = k") simp_all
  with Cons.IH [OF _ taken(1,2)] Cons.prems(1,5) s1 show ?case by simp
qed simp

section \<open>Watching the nodes\<close>

lemma drain_nodes_empty: "sm_invar known \<Longrightarrow> drain_nodes known = []"
proof -
  assume inv: "sm_invar known"
  have "drain_nodes known = fold (\<lambda>(k, v). sm_delete k) known known"
    unfolding drain_nodes_def by (subst sm_range_fold) (simp, rule fold_cong, auto)
  also have "\<dots> = fold sm_delete (map fst known) known"
    by (simp add: fold_map comp_def case_prod_unfold)
  finally show ?thesis
    using sm.drain_entries [OF inv] by simp
qed

lemma store_nodes_props:
  "sm_invar m \<Longrightarrow> sm_invar (store_nodes nodes m)"
  "dom (sm_load (store_nodes nodes m)) = set nodes \<union> dom (sm_load m)"
  by (simp add: store_nodes_def sm.invar_store_all) (auto simp: store_nodes_def sm.load_store_all split: if_splits)

lemma store_drained:
  assumes "sm_invar known"
  shows "sm_invar (store_nodes nodes (drain_nodes known))"
    and "dom (sm_load (store_nodes nodes (drain_nodes known))) = set nodes"
proof -
  have "sm_invar ([] :: (string, bool) sync_map)" "sm_load ([] :: (string, bool) sync_map) = Map.empty"
    by (simp_all add: sm_invar_def sm_load_def fun_eq_iff)
  then show "sm_invar (store_nodes nodes (drain_nodes known))"
    "dom (sm_load (store_nodes nodes (drain_nodes known))) = set nodes"
    using assms by (simp_all add: drain_nodes_empty store_nodes_props)
qed

lemma nodes_changed_iff:
  assumes "sm_invar known" and "distinct nodes"
  shows "nodes_changed nodes known \<longleftrightarrow> set nodes \<noteq> dom (sm_load known)"
proof -
  have size: "GetSyncMapSize known = card (dom (sm_load known))"
    using sm.length_entries [OF assms(1)] by (simp add: GetSyncMapSize_length)
  have len: "length nodes = card (set nodes)"
    using assms(2) by (simp add: distinct_card)
  have sub: "\<not> list_ex (\<lambda>n. sm_load known n = None) nodes \<longleftrightarrow> set nodes \<subseteq> dom (sm_load known)"
    by (auto simp: list_ex_iff)
  show ?thesis
    using size len sub card_subset_eq [OF sm.finite_dom_load [OF assms(1)], of "set nodes"]
    unfolding nodes_changed_def by auto
qed

lemma nodes_changed_duplicates:
  assumes "sm_invar known" and "\<not> distinct nodes"
  shows "nodes_changed nodes (store_nodes nodes (drain_nodes known))"
proof -
  let ?m = "store_nodes nodes (drain_nodes known)"
  have "GetSyncMapSize ?m = card (set nodes)"
    using sm.length_entries [OF store_drained(1) [OF assms(1)]] store_drained(2) [OF assms(1)]
    by (simp add: GetSyncMapSize_length)
  moreover have "card (set nodes) < length nodes"
    using assms(2) card_distinct [of nodes] card_length [of nodes] by force
  ultimately show ?thesis
    by (simp add: nodes_changed_def)
qed

context zookeeper
begin

lemma GetClusterInfo_alive:
  assumes "em_zkConnection m = Some c" and "alive (em_world m) c"
    and "data (em_world m) (ZKSlaveNodesURI (em_config m)) \<noteq> None"
    and "data (em_world m) (ZKElectionNodeURI (em_config m)) = Some n"
  obtains cs where
    "GetClusterInfo zk m =
       (Ret (Some \<lparr>cl_IsMaster = em_isMaster m, cl_Master = n, cl_Slaves = cs, cl_Nodes = n # cs, cl_NumNodes = Suc (length cs)\<rparr>), m)"
    "distinct cs"
    "set cs = {k. CHR ''/'' \<notin> set k \<and> data (em_world m) (slave_node (em_config m) k) \<noteq> None}"
proof -
  obtain cs where cs: "zk_Children zk (em_world m) c (ZKSlaveNodesURI (em_config m)) = (em_world m, Inr cs)" "distinct cs"
      "set cs = {k. CHR ''/'' \<notin> set k \<and> data (em_world m) (slave_node (em_config m) k) \<noteq> None}"
    using Children [OF assms(2,3)] by (auto simp: slave_node_def)
  have "m\<lparr>em_world := em_world m\<rparr> = m" by simp
  with cs that [of cs] assms show thesis
    by (auto simp: GetClusterInfo_def andThen_def getZKMasterNode_alive [OF assms(1,2)]
        getNodeData_alive [OF assms(1,2)] zk_call_def ret_def)
qed

end

section \<open>Properties\<close>

text \<open>
  C6: what one run of \<open>electForMaster\<close> does on a live connection. If there is no election node, this node
  creates it with its own name, becomes the master, signals it and has no slave node; else the
  election node stays as it is and this node becomes a slave, signals it and has a slave node.
\<close>

theorem election_outcome:
  assumes "zookeeper zk d a cr" and "node_ready a cr cf (em_world m) m" and "has_room m" and "uris_ok cf"
    and "CHR ''/'' \<notin> set n" and "os_Hostname zk (em_world m) = Inr n"
  shows "\<exists>m'. electForMaster zk m = (Ret (), m') \<and>
    (if d (em_world m) (ZKElectionNodeURI cf) = None
     then em_isMaster m' \<and> d (em_world m') (ZKElectionNodeURI cf) = Some n \<and> d (em_world m') (slave_node cf n) = None \<and>
       ch_buf (em_feedbackChannel m') = ch_buf (em_feedbackChannel m) @ [Master]
     else \<not> em_isMaster m' \<and> d (em_world m') (ZKElectionNodeURI cf) = d (em_world m) (ZKElectionNodeURI cf) \<and>
       d (em_world m') (slave_node cf n) \<noteq> None \<and>
       ch_buf (em_feedbackChannel m') = ch_buf (em_feedbackChannel m) @ [Slave])"
proof (rule zookeeper.elect_ready [OF assms])
  let ?e = "ZKElectionNodeURI cf"
  fix w
  assume "electForMaster zk m = (Ret (), m\<lparr>em_world := w, em_isMaster := (d (em_world m) ?e = None),
        em_feedbackChannel := signalled m (if d (em_world m) ?e = None then Master else Slave)\<rparr>)"
    and "d w ?e = (case d (em_world m) ?e of None \<Rightarrow> Some n | Some n' \<Rightarrow> Some n')"
    and "(d w (slave_node cf n) = None) = (d (em_world m) ?e = None)"
  then show ?thesis
    by (cases "d (em_world m) ?e") (simp_all add: signalled_def)
qed

definition example_zk_config :: Config where
  "example_zk_config =
     \<lparr>ZKURL = [''localhost''], ZKElectionNodeURI = ''/master'', ZKSlaveNodesURI = ''/slaves'',
      cfg_ReconnectionTimeout = ''1s'', cfg_SessionTimeout = ''5s'', cfg_ClusterChangeCheckTime = ''1s'',
      cfg_ClusterChangeWaitTime = ''1s''\<rparr>"

definition example_node :: "zk_tree elec" where
  "example_node =
     \<lparr>em_zkConnection = Some 0, em_config = example_zk_config, em_isMaster = False,
      em_feedbackChannel = chan_make 5, em_clusterNodes = sm_empty, em_terminate = False, em_sessionTimeout = 5000000000,
      em_reconnectionTimeout = 1000000000, em_clusterChangeCheckTime = 1000000000, em_clusterChangeWaitTime = 1000000000,
      em_loops = [], em_world = \<lparr>tr_nodes = [], tr_live = [0], tr_next = 1\<rparr>\<rparr>"

lemma example_node_ready:
  "node_ready tree_alive tree_creatable example_zk_config (em_world example_node) example_node"
  "uris_ok example_zk_config" "has_room example_node" "\<not> em_isMaster example_node"
  "tree_data (em_world example_node) p = None"
  by (simp_all add: node_ready_def uris_ok_def example_node_def example_zk_config_def tree_alive_def chan_make_def
      tree_creatable_def parent_def has_room_def tree_data_def)

lemma tree_host: "os_Hostname tree_lib w = Inr ''localhost''"
  by (simp add: tree_lib_def)

theorem election_outcome_witness:
  "\<exists>m'. electForMaster tree_lib example_node = (Ret (), m') \<and> em_isMaster m' \<and>
     tree_data (em_world m') ''/master'' = Some ''localhost''"
  using election_outcome [OF zk_tree.zookeeper_axioms example_node_ready(1,3,2) _ tree_host] example_node_ready(5)
  by (auto simp: example_zk_config_def)

text \<open>
  C5: in a cluster whose nodes keep their ZooKeeper sessions, and where nobody else removes an election node that
  bears the name of one of them, at most one node takes itself for the master, and the election node bears
  its name. The nodes may begin elections at any time, several each, and the calls of all these elections to
  ZooKeeper may come in any order, between other changes of its nodes.
\<close>

theorem election_at_most_one_master:
  assumes "zookeeper zk d a cr" and "uris_ok cf"
    and "\<forall>h\<in>H. node_ready a cr cf w0 (f0 h) \<and> \<not> em_isMaster (f0 h)"
    and "(cluster_step zk d a cr cf H)\<^sup>*\<^sup>* (w0, f0, \<lambda>_. []) (w, f, rs)"
    and "h \<in> H" and "h' \<in> H" and "em_isMaster (f h)" and "em_isMaster (f h')"
  shows "h = h' \<and> d w (ZKElectionNodeURI cf) = Some h"
proof -
  have "cluster_inv d a cr cf H (w0, f0)"
    using assms(3) by (simp add: cluster_inv_def)
  with cluster_inv_steps [OF assms(4,1,2)] have inv: "cluster_inv d a cr cf H (w, f)" by simp
  have "d w (ZKElectionNodeURI cf) = Some h"
    using inv assms(5,7) by (simp add: cluster_inv_def)
  moreover have "d w (ZKElectionNodeURI cf) = Some h'"
    using inv assms(6,8) by (simp add: cluster_inv_def)
  ultimately show ?thesis by simp
qed

text \<open>Both nodes have read that there is no master when one of them creates the election node.\<close>

definition example_race :: "zk_tree elec \<Rightarrow> zk_tree elec" where
  "example_race m =
     m\<lparr>em_isMaster := True, em_world := \<lparr>tr_nodes = [(''/master'', ''a'', Some 0)], tr_live = [0], tr_next = 1\<rparr>\<rparr>"

lemma example_race_calls:
  "elect_step tree_lib h AtGetMaster example_node = (Ret (Some AtCreateMaster), example_node)"
  "elect_step tree_lib ''a'' AtCreateMaster example_node = (Ret (Some AtSignalMaster), example_race example_node)"
  "elect_step tree_lib ''b'' AtCreateMaster (example_node\<lparr>em_world := em_world (example_race example_node)\<rparr>) =
     (Ret (Some AtGetSlaveDir), example_node\<lparr>em_world := em_world (example_race example_node)\<rparr>)"
  by (simp_all add: example_race_def andThen_def getZKMasterNode_def getNodeData_def zk_call_def example_node_def
      example_zk_config_def tree_lib_def tree_alive_def tree_data_def ret_def tree_creatable_def parent_def FlagEphemeral_def)

lemma goes_onI:
  assumes "elect_step zk h pc ((f h)\<lparr>em_world := w\<rparr>) = (Ret (Some pc'), m)" and "h \<in> H" and "rs h = [pc]"
    and "w' = em_world m" and "f' = f(h := m)" and "rs' = rs(h := [pc'])"
  shows "cluster_step zk d a cr cf H (w, f, rs) (w', f', rs')"
  using cluster_step.goes_on [where h = h and H = H and i = 0 and rs = rs and f = f and w = w] assms by simp

lemma example_race_steps:
  fixes f :: "string \<Rightarrow> zk_tree elec"
  assumes "f = (\<lambda>_. example_node)" and "w = em_world example_node" and "w' = em_world (example_race example_node)"
  shows "(cluster_step tree_lib tree_data tree_alive tree_creatable example_zk_config {''a'', ''b''})\<^sup>*\<^sup>* (w, f, \<lambda>_. [])
     (w', f(''a'' := example_race example_node, ''b'' := example_node\<lparr>em_world := w'\<rparr>),
      (\<lambda>_. [])(''a'' := [AtSignalMaster], ''b'' := [AtGetSlaveDir]))"
proof -
  let ?H = "{''a'', ''b''}"
  let ?step = "cluster_step tree_lib tree_data tree_alive tree_creatable example_zk_config ?H"
  let ?rs = "\<lambda>x y. (\<lambda>_. [])(''a'' := [x], ''b'' := [y])"
  have "?step\<^sup>*\<^sup>* (w, f, \<lambda>_. []) (w, f, (\<lambda>_. [])(''a'' := [AtGetMaster]))"
    using cluster_step.begins [where h = "''a''" and H = ?H and w = w and f = f and rs = "\<lambda>_. []"]
    by (intro r_into_rtranclp) simp
  also have "?step \<dots> (w, f, ?rs AtGetMaster AtGetMaster)"
    using cluster_step.begins [where h = "''b''" and H = ?H and w = w and f = f and rs = "(\<lambda>_. [])(''a'' := [AtGetMaster])"]
    by simp
  also have "?step (w, f, ?rs AtGetMaster AtGetMaster) (w, f, ?rs AtCreateMaster AtGetMaster)"
    by (rule goes_onI [of _ "''a''" AtGetMaster _ _ AtCreateMaster example_node])
      (simp_all add: assms example_race_calls fun_upd_idem fun_upd_twist del: elect_step.simps)
  also have "?step (w, f, ?rs AtCreateMaster AtGetMaster) (w, f, ?rs AtCreateMaster AtCreateMaster)"
    by (rule goes_onI [of _ "''b''" AtGetMaster _ _ AtCreateMaster example_node])
      (simp_all add: assms example_race_calls fun_upd_idem del: elect_step.simps)
  also have "?step (w, f, ?rs AtCreateMaster AtCreateMaster)
      (w', f(''a'' := example_race example_node), ?rs AtSignalMaster AtCreateMaster)"
    by (rule goes_onI [of _ "''a''" AtCreateMaster _ _ AtSignalMaster "example_race example_node"])
      (simp_all add: assms example_race_calls fun_upd_twist del: elect_step.simps)
  also have "?step (w', f(''a'' := example_race example_node), ?rs AtSignalMaster AtCreateMaster)
      (w', f(''a'' := example_race example_node, ''b'' := example_node\<lparr>em_world := w'\<rparr>), ?rs AtSignalMaster AtGetSlaveDir)"
    by (rule goes_onI [of _ "''b''" AtCreateMaster _ _ AtGetSlaveDir "example_node\<lparr>em_world := w'\<rparr>"])
      (simp_all add: assms example_race_calls  del: elect_step.simps)
  finally show ?thesis by simp
qed

theorem election_at_most_one_master_witness:
  "\<exists>w f rs. (cluster_step tree_lib tree_data tree_alive tree_creatable example_zk_config {''a'', ''b''})\<^sup>*\<^sup>*
       (em_world example_node, \<lambda>_. example_node, \<lambda>_. []) (w, f, rs) \<and>
     em_isMaster (f ''a'') \<and> rs ''b'' = [AtGetSlaveDir] \<and> tree_data w ''/master'' = Some ''a''"
proof -
  let ?f = "(\<lambda>_. example_node)(''a'' := example_race example_node,
      ''b'' := example_node\<lparr>em_world := em_world (example_race example_node)\<rparr>)"
  have "em_isMaster (?f ''a'')" "ZKElectionNodeURI example_zk_config = ''/master''"
    by (simp_all add: example_race_def example_zk_config_def)
  moreover note election_at_most_one_master [OF zk_tree.zookeeper_axioms example_node_ready(2) _ example_race_steps [OF refl refl refl],
      of "''a''" "''a''"]
  ultimately show ?thesis
    using example_race_steps [OF refl refl refl] example_node_ready
    by (intro exI [of _ "em_world (example_race example_node)"] exI [of _ ?f]
        exI [of _ "(\<lambda>_. [])(''a'' := [AtSignalMaster], ''b'' := [AtGetSlaveDir])"]) auto
qed

text \<open>
  C27: a master that runs \<open>electForMaster\<close> again, although its election node exists, leaves the cluster
  without a master: if in a state that the cluster reaches the node \<open>h\<close> is the master, \<open>h\<close> runs an election and
  then nodes of the cluster run any elections, one after the other, then no node takes itself for the master
  while the election node still bears the name of \<open>h\<close>.
\<close>

theorem election_rerun_no_master:
  assumes "zookeeper zk d a cr" and "uris_ok cf" and "\<forall>h\<in>H. CHR ''/'' \<notin> set h"
    and "\<forall>h\<in>H. node_ready a cr cf w0 (f0 h) \<and> \<not> em_isMaster (f0 h)"
    and "(cluster_step zk d a cr cf H)\<^sup>*\<^sup>* (w0, f0, \<lambda>_. []) (w, f, rs)"
    and "h \<in> H" and "em_isMaster (f h)" and "set ks \<subseteq> H"
    and "fold (elect_host zk) (h # ks) (w, f) = (w', f')"
  shows "d w' (ZKElectionNodeURI cf) = Some h \<and> (\<forall>k\<in>H. \<not> em_isMaster (f' k))"
proof -
  have "cluster_inv d a cr cf H (w0, f0)"
    using assms(4) by (simp add: cluster_inv_def)
  with cluster_inv_steps [OF assms(5,1,2)] have inv: "cluster_inv d a cr cf H (w, f)" by simp
  then have node: "d w (ZKElectionNodeURI cf) = Some h"
    using assms(6,7) by (simp add: cluster_inv_def)
  obtain w1 f1 where s1: "elect_host zk h (w, f) = (w1, f1)" by fastforce
  have "CHR ''/'' \<notin> set h" using assms(3,6) by simp
  note taken = elect_host_taken [OF assms(1,2) this assms(6) inv node s1]
  have "fold (elect_host zk) ks (w1, f1) = (w', f')"
    using assms(9) s1 by simp
  from elect_hosts_taken [OF assms(1-3,8) taken(1-3) this] show ?thesis
    by (auto simp: cluster_inv_def)
qed

theorem election_rerun_no_master_witness:
  "\<exists>w f rs w' f'. (cluster_step tree_lib tree_data tree_alive tree_creatable example_zk_config {''a'', ''b''})\<^sup>*\<^sup>*
       (em_world example_node, \<lambda>_. example_node, \<lambda>_. []) (w, f, rs) \<and> em_isMaster (f ''a'') \<and>
     fold (elect_host tree_lib) [''a'', ''b'', ''a''] (w, f) = (w', f') \<and>
     tree_data w' ''/master'' = Some ''a'' \<and> \<not> em_isMaster (f' ''a'') \<and> \<not> em_isMaster (f' ''b'')"
proof -
  let ?f = "(\<lambda>_. example_node)(''a'' := example_race example_node,
      ''b'' := example_node\<lparr>em_world := em_world (example_race example_node)\<rparr>)"
  obtain w' f' where s': "fold (elect_host tree_lib) [''a'', ''b'', ''a''] (em_world (example_race example_node), ?f) = (w', f')"
    by fastforce
  have "em_isMaster (?f ''a'')" "ZKElectionNodeURI example_zk_config = ''/master''"
    by (simp_all add: example_race_def example_zk_config_def)
  moreover have "tree_data w' (ZKElectionNodeURI example_zk_config) = Some ''a'' \<and> (\<forall>k\<in>{''a'', ''b''}. \<not> em_isMaster (f' k))"
    by (rule election_rerun_no_master [OF zk_tree.zookeeper_axioms example_node_ready(2) _ _
          example_race_steps [OF refl refl refl] _ _ _ s'])
      (use example_node_ready in \<open>simp_all add: example_race_def\<close>)
  ultimately show ?thesis
    using example_race_steps [OF refl refl refl] s' by (intro exI conjI) (assumption | simp)+
qed

text \<open>
  A master whose session is gone keeps taking itself for the master: \<open>Disconnect\<close> does not reset \<open>isMaster\<close>. Once
  ZooKeeper has removed its election node, the next node to run an election is a second master.
\<close>

lemma election_lost_session_two_masters:
  assumes "zookeeper zk d a cr" and "em_isMaster m" and "Disconnect zk m = (r, m')"
    and "node_ready a cr cf (em_world m') b" and "has_room b" and "uris_ok cf" and "CHR ''/'' \<notin> set n"
    and "os_Hostname zk (em_world m') = Inr n" and "d (em_world m') (ZKElectionNodeURI cf) = None"
  shows "em_isMaster m' \<and> (\<exists>b'. electForMaster zk (b\<lparr>em_world := em_world m'\<rparr>) = (Ret (), b') \<and> em_isMaster b')"
proof
  show "em_isMaster m'"
    using assms(2,3) by (auto simp: Disconnect_def Let_def andThen_def signal_def split: option.split_asm if_split_asm send_res.split_asm)
  let ?b = "b\<lparr>em_world := em_world m'\<rparr>"
  have "node_ready a cr cf (em_world ?b) ?b" "has_room ?b" "os_Hostname zk (em_world ?b) = Inr n"
    using assms(4,5,8) by (simp_all add: node_ready_def has_room_def)
  from zookeeper.elect_ready [OF assms(1) this(1,2) assms(6,7) this(3)] assms(9)
  show "\<exists>b'. electForMaster zk ?b = (Ret (), b') \<and> em_isMaster b'" by fastforce
qed

text \<open>
  After a second election the cluster information lists the master twice.
\<close>

lemma election_master_demotes_itself:
  assumes "zookeeper zk d a cr" and "node_ready a cr cf (em_world m) m" and "has_room m" and "uris_ok cf"
    and "CHR ''/'' \<notin> set n" and "os_Hostname zk (em_world m) = Inr n"
    and "d (em_world m) (ZKElectionNodeURI cf) = Some n"
  shows "\<exists>m' cl. electForMaster zk m = (Ret (), m') \<and> \<not> em_isMaster m' \<and>
    d (em_world m') (ZKElectionNodeURI cf) = Some n \<and>
    GetClusterInfo zk m' = (Ret (Some cl), m') \<and> \<not> distinct (cl_Nodes cl)"
proof (rule zookeeper.elect_ready [OF assms(1-6)])
  let ?e = "ZKElectionNodeURI cf"
  fix w
  assume m': "electForMaster zk m = (Ret (), m\<lparr>em_world := w, em_isMaster := (d (em_world m) ?e = None),
        em_feedbackChannel := signalled m (if d (em_world m) ?e = None then Master else Slave)\<rparr>)"
    and "a w = a (em_world m)"
    and "d w ?e = (case d (em_world m) ?e of None \<Rightarrow> Some n | Some n' \<Rightarrow> Some n')"
    and "(d w (slave_node cf n) = None) = (d (em_world m) ?e = None)"
    and "d (em_world m) ?e \<noteq> None \<Longrightarrow> d w (ZKSlaveNodesURI cf) \<noteq> None"
  then have w: "a w = a (em_world m)" "d w ?e = Some n" "d w (slave_node cf n) \<noteq> None" "d w (ZKSlaveNodesURI cf) \<noteq> None"
    using assms(7) by simp_all
  let ?m = "m\<lparr>em_world := w, em_isMaster := False, em_feedbackChannel := signalled m Slave\<rparr>"
  obtain c where c: "em_zkConnection m = Some c" "a (em_world m) c" "em_config m = cf"
    using assms(2) by (auto simp: node_ready_def)
  obtain cs where "GetClusterInfo zk ?m = (Ret (Some \<lparr>cl_IsMaster = False, cl_Master = n, cl_Slaves = cs,
      cl_Nodes = n # cs, cl_NumNodes = Suc (length cs)\<rparr>), ?m)"
      "set cs = {k. CHR ''/'' \<notin> set k \<and> d w (slave_node cf k) \<noteq> None}"
    by (rule zookeeper.GetClusterInfo_alive [OF assms(1), of ?m c n]) (use w c in auto)
  with m' w assms(5,7) show ?thesis
    by (intro exI [of _ ?m]) auto
qed

text \<open>
  C28: one round of the node watcher, on a cluster that lists no host twice, remembers exactly the nodes
  of the cluster and signals \<open>ClusterChanged\<close> just when they are not the nodes it knew.
\<close>

theorem election_node_round:
  assumes "\<not> em_terminate m"
    and "GetClusterInfo zk (m\<lparr>em_world := time_After zk (em_world m) (em_clusterChangeCheckTime m)\<rparr>) = (Ret (Some cl), m')"
    and "distinct (cl_Nodes cl)" and "sm_invar (em_clusterNodes m')" and "has_room m'"
    and "\<not> ch_closed (em_feedbackChannel m')"
  shows "\<exists>m''. node_round zk m = (Ret (), m'') \<and> dom (sm_load (em_clusterNodes m'')) = set (cl_Nodes cl) \<and>
    ch_buf (em_feedbackChannel m'') = ch_buf (em_feedbackChannel m') @
      (if set (cl_Nodes cl) = dom (sm_load (em_clusterNodes m')) then [] else [ClusterChanged])"
  using assms nodes_changed_iff [OF assms(4,3)] store_drained [OF assms(4), of "cl_Nodes cl"]
  by (auto simp: node_round_def loop_head_def andThen_def signal_def has_room_def chan_send_def)

definition example_slave :: "zk_tree elec" where
  "example_slave =
     example_node\<lparr>em_world := \<lparr>tr_nodes = [(''/master'', ''a'', Some 1), (''/slaves'', [], None)], tr_live = [0, 1], tr_next = 2\<rparr>\<rparr>"

theorem election_node_round_witness:
  "\<exists>m''. node_round tree_lib example_slave = (Ret (), m'') \<and> dom (sm_load (em_clusterNodes m'')) = {''a''} \<and>
     ch_buf (em_feedbackChannel m'') = [ClusterChanged]"
proof -
  let ?cl = "\<lparr>cl_IsMaster = False, cl_Master = ''a'', cl_Slaves = [], cl_Nodes = [''a''], cl_NumNodes = 1\<rparr>"
  have "GetClusterInfo tree_lib (example_slave\<lparr>em_world := time_After tree_lib (em_world example_slave)
      (em_clusterChangeCheckTime example_slave)\<rparr>) = (Ret (Some ?cl), example_slave)"
    by (simp add: GetClusterInfo_def andThen_def getZKMasterNode_def getNodeData_def zk_call_def example_slave_def
        example_node_def example_zk_config_def tree_lib_def tree_alive_def tree_data_def tree_children_def ret_def)
  from election_node_round [OF _ this] show ?thesis
    by (auto simp: example_slave_def example_node_def has_room_def chan_make_def)
qed

text \<open>
  Once the cluster lists a host twice, every later round of the node watcher signals
  \<open>ClusterChanged\<close> although nothing changes.
\<close>

theorem election_duplicates_always_signal:
  assumes "sm_invar (em_clusterNodes m')" and "\<not> distinct (cl_Nodes cl)"
    and "em_clusterNodes m' = store_nodes (cl_Nodes cl) (drain_nodes known)" and "sm_invar known"
    and "\<not> em_terminate m" and "has_room m'" and "\<not> ch_closed (em_feedbackChannel m')"
    and "GetClusterInfo zk (m\<lparr>em_world := time_After zk (em_world m) (em_clusterChangeCheckTime m)\<rparr>) = (Ret (Some cl), m')"
  shows "\<exists>m''. node_round zk m = (Ret (), m'') \<and>
    ch_buf (em_feedbackChannel m'') = ch_buf (em_feedbackChannel m') @ [ClusterChanged]"
  using assms nodes_changed_duplicates [OF assms(4,2)]
  by (auto simp: node_round_def loop_head_def andThen_def signal_def has_room_def chan_send_def)

definition example_demoted :: "zk_tree elec" where
  "example_demoted =
     example_node\<lparr>em_world := \<lparr>tr_nodes = [(''/slaves/a'', ''a'', Some 0), (''/master'', ''a'', Some 0), (''/slaves'', [], None)],
       tr_live = [0], tr_next = 2\<rparr>, em_clusterNodes := [(''a'', True)]\<rparr>"

theorem election_duplicates_always_signal_witness:
  "\<exists>m''. node_round tree_lib example_demoted = (Ret (), m'') \<and> ch_buf (em_feedbackChannel m'') = [ClusterChanged]"
proof -
  let ?cl = "\<lparr>cl_IsMaster = False, cl_Master = ''a'', cl_Slaves = [''a''], cl_Nodes = [''a'', ''a''], cl_NumNodes = 2\<rparr>"
  have info: "GetClusterInfo tree_lib (example_demoted\<lparr>em_world := time_After tree_lib (em_world example_demoted)
      (em_clusterChangeCheckTime example_demoted)\<rparr>) = (Ret (Some ?cl), example_demoted)"
    by (simp add: GetClusterInfo_def andThen_def getZKMasterNode_def getNodeData_def zk_call_def example_demoted_def
        example_node_def example_zk_config_def tree_lib_def tree_alive_def tree_data_def tree_children_def ret_def)
  have "em_clusterNodes example_demoted = store_nodes (cl_Nodes ?cl) (drain_nodes [])"
    by (simp add: example_demoted_def store_nodes_def drain_nodes_def sm_store_def)
  from election_duplicates_always_signal [OF _ _ this _ _ _ _ info] show ?thesis
    by (simp add: example_demoted_def example_node_def has_room_def chan_make_def sm_invar_def)
qed

text \<open>
  A start whose connection attempt fails returns the error and leaves a nil connection; a node
  watcher that is still alive from an earlier start panics in its next round.
\<close>

theorem election_failed_start_crashes_watcher:
  assumes "zk_Connect zk (em_world m) (ZKURL (em_config m)) (em_sessionTimeout m) = (w, Inl err)"
  shows "\<exists>m'. Start zk m = (Fail err, m') \<and> em_zkConnection m' = None \<and> fst (node_round zk m') = Crash"
  using assms by (simp add: Start_def andThen_def connect_def node_round_def loop_head_def GetClusterInfo_def)

theorem election_failed_start_crashes_watcher_witness:
  "\<exists>m'. Start (tree_lib\<lparr>zk_Connect := (\<lambda>w _ _. (w, Inl ''no server''))\<rparr>) example_node = (Fail ''no server'', m') \<and>
     em_zkConnection m' = None \<and>
     fst (node_round (tree_lib\<lparr>zk_Connect := (\<lambda>w _ _. (w, Inl ''no server''))\<rparr>) m') = Crash"
  by (rule election_failed_start_crashes_watcher [of _ _ "em_world example_node"]) simp

end
