(* ===== verification/Snitch.thy ===== *)
theory Snitch
  imports Http_Transport Sync_Map Go_Duration
begin

text \<open>
  The \<open>snitch\<close> package: counters (points) that are aggregated in memory, run periodically by a cron
  and sent to a time series backend over HTTP or UDP.

  Points are shared by pointer between the map, the cron and the callers: they live in a store. The
  cron library (\<open>github.com/robfig/cron\<close>) is a parameter for what it parses; its table is the list
  of jobs that the code added, in order. The receiver channel has no buffer: a point that sends
  hands its message to the client loop, and waits for ever once that loop has ended. Encoding to
  JSON, HTTP and UDP are parameters.
\<close>

section \<open>structs.go\<close>

type_synonym tag_list = "(string \<times> string) list"

record Settings =
  set_Address :: string
  set_Port :: int
  set_Protocol :: string
  set_HTTPTimeout :: string
  set_HTTPPostInterval :: string
  set_Tags :: tag_list
  set_Runtime :: bool

record message =
  msg_Metric :: string
  msg_Tags :: "string \<Rightarrow> string option"
  msg_Value :: float64
  msg_Timestamp :: "64 word"

section \<open>custom_point.go\<close>

record CustomPoint =
  cp_metric :: string
  cp_tags :: "string \<Rightarrow> string option"
  cp_value :: float64
  cp_valNull :: "32 word"
  cp_timestamp :: "64 word"
  cp_count :: "64 word"
  cp_interval :: string
  cp_aggregation :: string
  cp_keepValue :: bool
  cp_sendOnNull :: bool

definition point_ValueAdd :: "float64 \<Rightarrow> CustomPoint \<Rightarrow> CustomPoint" where
  "point_ValueAdd v p = p\<lparr>cp_value := f64_add (cp_value p) v, cp_count := cp_count p + 1, cp_valNull := 0\<rparr>"

definition SetCount :: "64 word \<Rightarrow> CustomPoint \<Rightarrow> CustomPoint" where
  "SetCount i p = p\<lparr>cp_count := i\<rparr>"

definition point_SetValue :: "float64 \<Rightarrow> CustomPoint \<Rightarrow> CustomPoint" where
  "point_SetValue v p = p\<lparr>cp_value := v, cp_valNull := 0\<rparr>"

definition SetTimestamp :: "64 word \<Rightarrow> CustomPoint \<Rightarrow> CustomPoint" where
  "SetTimestamp t p = p\<lparr>cp_timestamp := t\<rparr>"

definition GetValue :: "CustomPoint \<Rightarrow> float64" where
  "GetValue p = cp_value p"

definition GetCount :: "CustomPoint \<Rightarrow> 64 word" where
  "GetCount p = cp_count p"

definition GetTimestamp :: "CustomPoint \<Rightarrow> 64 word" where
  "GetTimestamp p = cp_timestamp p"

definition SetValueNull :: "CustomPoint \<Rightarrow> CustomPoint" where
  "SetValueNull p = p\<lparr>cp_value := 0, cp_valNull := 1\<rparr>"

definition IsValueNull :: "CustomPoint \<Rightarrow> bool" where
  "IsValueNull p = (cp_valNull p \<noteq> 0)"

text \<open>The two closures that \<open>getPoint\<close> installs in every point.\<close>

definition pre :: "CustomPoint \<Rightarrow> bool \<times> CustomPoint" where
  "pre p =
     (if \<not> cp_sendOnNull p \<and> IsValueNull p then (False, p)
      else if cp_aggregation p = ''avg'' then
        (let y = GetValue p; x = GetCount p
         in if \<not> f64_eq y (f64_of_int 0) \<and> x \<noteq> 0 then (True, point_SetValue (f64_div y (f64_of_int (sint x))) p)
            else (True, p))
      else (True, p))"

definition post :: "CustomPoint \<Rightarrow> CustomPoint" where
  "post p =
     (if cp_aggregation p \<noteq> [] \<or> \<not> cp_keepValue p
      then SetValueNull (SetCount 0 (point_SetValue (f64_of_int 0) p))
      else p)"

text \<open>\<open>nowMillis\<close> is the current time in milliseconds. The message, if one is sent, and the point afterwards.\<close>

definition Run :: "64 word \<Rightarrow> CustomPoint \<Rightarrow> message option \<times> CustomPoint" where
  "Run nowMillis p =
     (case pre p of
        (send, p') \<Rightarrow>
          (let ts = (if GetTimestamp p' = 0 then nowMillis else GetTimestamp p')
           in (if send
               then Some \<lparr>msg_Metric = cp_metric p', msg_Tags = cp_tags p', msg_Value = GetValue p', msg_Timestamp = ts\<rparr>
               else None,
               post p')))"

section \<open>The statistics\<close>

record Stats =
  st_address :: string
  st_port :: int
  st_tags :: tag_list
  st_proto :: string
  st_timeout :: int
  st_postInt :: int
  st_store :: "CustomPoint list"
  st_points :: "(string, nat) sync_map"
  st_jobs :: "(string \<times> nat) list"
  st_hBuffer :: "message list"
  st_client :: bool
  st_runtime :: bool
  st_terminate :: bool

text \<open>
  \<open>New\<close>: a Go map without the key \<open>ksid\<close> gives the empty string. The goroutine of \<open>start\<close> is run
  separately.
\<close>

definition snitch_New :: "string + string \<Rightarrow> Settings \<Rightarrow> string + Stats" where
  "snitch_New hostname settings =
     (if set_Address settings = [] then Inl ''address is required''
      else if set_Port settings = 0 then Inl ''port is required''
      else if set_Protocol settings \<noteq> ''http'' \<and> set_Protocol settings \<noteq> ''udp'' then Inl ''protocol supported: udp and http''
      else
        (let http = (set_Protocol settings = ''http'');
             dur = ParseDuration (set_HTTPTimeout settings);
             postInt = ParseDuration (set_HTTPPostInterval settings)
         in if http \<and> dur = None then Inl (''time: invalid duration '' @ set_HTTPTimeout settings)
            else if http \<and> postInt = None then Inl (''time: invalid duration '' @ set_HTTPPostInterval settings)
            else if (case map_of (set_Tags settings) ''ksid'' of None \<Rightarrow> True | Some v \<Rightarrow> v = []) then Inl ''tag ksid is mandatory''
            else
              (case hostname of
                 Inl err \<Rightarrow> Inl err
               | Inr h \<Rightarrow>
                   Inr \<lparr>st_address = set_Address settings, st_port = set_Port settings,
                        st_tags = AList.update ''host'' h (set_Tags settings), st_proto = set_Protocol settings,
                        st_timeout = (if http then the dur else 0), st_postInt = (if http then the postInt else 0),
                        st_store = [], st_points = sm_empty, st_jobs = [], st_hBuffer = [],
                        st_client = False, st_runtime = False, st_terminate = False\<rparr>)))"

definition Terminate :: "Stats \<Rightarrow> Stats" where
  "Terminate st = st\<lparr>st_terminate := True\<rparr>"

text \<open>
  \<open>start\<close>: a job for every point that is there already, then the client loop, the cron and the runtime
  loop. The HTTP client makes a ticker, and \<open>time.NewTicker\<close> panics on an interval that is not positive.
\<close>

definition snitch_start :: "bool \<Rightarrow> Stats \<Rightarrow> (string, Stats) res" where
  "snitch_start runtime st =
     (let st' = sm_range (\<lambda>_ a st. (st\<lparr>st_jobs := st_jobs st @ [(cp_interval (st_store st ! a), a)]\<rparr>, True)) (st_points st) st
      in if st_proto st \<noteq> ''udp'' \<and> st_postInt st \<le> 0 then Panic
         else Ok (st'\<lparr>st_client := True, st_runtime := runtime\<rparr>))"

section \<open>snitch_dynamic.go\<close>

definition tag_text :: "string \<times> string \<Rightarrow> string" where
  "tag_text kv = fst kv @ ''='' @ snd kv"

fun join :: "string \<Rightarrow> string list \<Rightarrow> string" where
  "join sep [] = []"
| "join sep [s] = s"
| "join sep (s # ss) = s @ sep @ join sep ss"

definition keyFromMetricID :: "string \<Rightarrow> tag_list \<Rightarrow> string" where
  "keyFromMetricID metric tags = join '', '' (go_sort (<) (map tag_text tags) @ [metric])"

definition aggregationsContants :: "string list" where
  "aggregationsContants = [''avg'', ''min'', ''max'', ''sum'']"

text \<open>\<open>parse\<close> is \<open>cron.Parse\<close>: the error, if any. The result is the pointer to the point.\<close>

definition getPoint ::
  "(string \<Rightarrow> string option) \<Rightarrow> string \<Rightarrow> tag_list \<Rightarrow> string \<Rightarrow> string \<Rightarrow> bool \<Rightarrow> bool \<Rightarrow> Stats \<Rightarrow>
     (string + nat) \<times> Stats" where
  "getPoint parse metricName tags aggregation interval keep nullable st =
     (let key = keyFromMetricID metricName tags
      in case sm_load (st_points st) key of
           Some a \<Rightarrow> (Inr a, st)
         | None \<Rightarrow>
             (case parse interval of
                Some err \<Rightarrow> (Inl err, st)
              | None \<Rightarrow>
                  if aggregation \<notin> set aggregationsContants then (Inl ''Unknown aggregation'', st)
                  else
                    (let a = length (st_store st);
                         metric =
                           \<lparr>cp_metric = metricName, cp_tags = map_of (st_tags st) ++ map_of tags, cp_value = 0,
                            cp_valNull = 1, cp_timestamp = 0, cp_count = 0, cp_interval = interval,
                            cp_aggregation = aggregation, cp_keepValue = keep, cp_sendOnNull = nullable\<rparr>
                     in (Inr a, st\<lparr>st_store := st_store st @ [metric], st_points := sm_store key a (st_points st),
                           st_jobs := st_jobs st @ [(interval, a)]\<rparr>))))"

section \<open>point_funcs.go\<close>

definition aggregate :: "float64 \<Rightarrow> CustomPoint \<Rightarrow> CustomPoint" where
  "aggregate v p =
     (if cp_aggregation p = ''avg'' then point_ValueAdd v p
      else if cp_aggregation p = ''sum'' then point_ValueAdd v p
      else if cp_aggregation p = ''max'' then (if f64_lt (GetValue p) v then point_SetValue v p else p)
      else if cp_aggregation p = ''min'' then
        (if IsValueNull p then point_SetValue v p
         else if f64_lt v (GetValue p) then point_SetValue v p
         else p)
      else point_ValueAdd v p)"

definition at_point :: "nat \<Rightarrow> (CustomPoint \<Rightarrow> CustomPoint) \<Rightarrow> Stats \<Rightarrow> Stats" where
  "at_point a f st = st\<lparr>st_store := (st_store st)[a := f (st_store st ! a)]\<rparr>"

definition stats_ValueAdd ::
  "(string \<Rightarrow> string option) \<Rightarrow> string \<Rightarrow> tag_list \<Rightarrow> string \<Rightarrow> string \<Rightarrow> bool \<Rightarrow> bool \<Rightarrow> float64 \<Rightarrow> Stats \<Rightarrow>
     string option \<times> Stats" where
  "stats_ValueAdd parse metricName tags aggregation interval keep nullable v st =
     (case getPoint parse metricName tags aggregation interval keep nullable st of
        (Inl err, st') \<Rightarrow> (Some err, st')
      | (Inr a, st') \<Rightarrow> (None, at_point a (aggregate v) st'))"

definition Increment ::
  "(string \<Rightarrow> string option) \<Rightarrow> string \<Rightarrow> tag_list \<Rightarrow> string \<Rightarrow> bool \<Rightarrow> bool \<Rightarrow> Stats \<Rightarrow> string option \<times> Stats" where
  "Increment parse metricName tags interval keep nullable st =
     stats_ValueAdd parse metricName tags ''sum'' interval keep nullable (f64_of_int 1) st"

definition stats_SetValue ::
  "(string \<Rightarrow> string option) \<Rightarrow> string \<Rightarrow> tag_list \<Rightarrow> string \<Rightarrow> bool \<Rightarrow> bool \<Rightarrow> float64 \<Rightarrow> Stats \<Rightarrow>
     string option \<times> Stats" where
  "stats_SetValue parse metricName tags interval keep nullable v st =
     (case getPoint parse metricName tags ''sum'' interval keep nullable st of
        (Inl err, st') \<Rightarrow> (Some err, st')
      | (Inr a, st') \<Rightarrow> (None, at_point a (point_SetValue v) st'))"

section \<open>The goroutines\<close>

text \<open>A round of the runtime loop; \<open>n\<close> is the number of goroutines.\<close>

definition runtimeLoop :: "(string \<Rightarrow> string option) \<Rightarrow> int \<Rightarrow> Stats \<Rightarrow> Stats" where
  "runtimeLoop parse n st =
     (if st_terminate st then st\<lparr>st_runtime := False\<rparr>
      else snd (stats_ValueAdd parse ''runtime.goroutines.count'' (st_tags st) ''max'' ''@every 1m'' False True (f64_of_int n) st))"

text \<open>The cron runs a point: \<open>None\<close> when it waits for a client loop that has ended.\<close>

definition run_job :: "64 word \<Rightarrow> nat \<Rightarrow> Stats \<Rightarrow> (message option \<times> Stats) option" where
  "run_job nowMillis a st =
     (case Run nowMillis (st_store st ! a) of
        (None, p) \<Rightarrow> Some (None, st\<lparr>st_store := (st_store st)[a := p]\<rparr>)
      | (Some msg, p) \<Rightarrow>
          if st_client st then Some (Some msg, st\<lparr>st_store := (st_store st)[a := p]\<rparr>) else None)"

text \<open>\<open>json.Marshal\<close> of a list of messages or of one message; \<open>None\<close> is its error.\<close>

type_synonym 'a marshal = "'a \<Rightarrow> string option"

datatype http_input = Recv message | Ticker

text \<open>
  A round of the HTTP client loop, on a message or on the ticker. The loop looks at \<open>terminate\<close> first.
  Only an answer of the server, whatever its status, empties the buffer.
\<close>

definition clientHTTP ::
  "message list marshal \<Rightarrow> 'w http_client \<Rightarrow> http_input \<Rightarrow> 'w \<times> Stats \<Rightarrow> 'w \<times> Stats" where
  "clientHTTP marshal hc i s =
     (case s of
        (w, st) \<Rightarrow>
          if st_terminate st then (w, st\<lparr>st_client := False\<rparr>)
          else
            (case i of
               Recv m \<Rightarrow> (w, st\<lparr>st_hBuffer := st_hBuffer st @ [m]\<rparr>)
             | Ticker \<Rightarrow>
                 (case marshal (st_hBuffer st) of
                    None \<Rightarrow> (w, st)
                  | Some payload \<Rightarrow>
                      (case hc_NewRequest hc ''POST''
                          (st_proto st @ ''://'' @ st_address st @ '':'' @ itoa (st_port st) @ ''/api/put'')
                          (bytes_of_string payload) of
                         Inl _ \<Rightarrow> (w, st)
                       | Inr req \<Rightarrow>
                           (case hc_Do hc w req of
                              (w, Inl _) \<Rightarrow> (w, st)
                            | (w, Inr resp) \<Rightarrow>
                                (let w = (if rs_StatusCode resp \<noteq> 204 then fst (hc_ReadAll hc w resp) else w)
                                 in (hc_Close hc w resp, st\<lparr>st_hBuffer := []\<rparr>)))))))"

text \<open>
  A round of the UDP client loop on a message. Without a connection the message is dropped and a
  connection is dialled; a message that cannot be encoded is written as an empty datagram.
\<close>

record 'w udp_lib =
  udp_Dial :: "'w \<Rightarrow> string \<Rightarrow> 'w \<times> nat option"
  udp_Write :: "'w \<Rightarrow> nat \<Rightarrow> byte list \<Rightarrow> 'w"

definition clientUDP ::
  "message marshal \<Rightarrow> 'w udp_lib \<Rightarrow> message \<Rightarrow> 'w \<times> nat option \<times> Stats \<Rightarrow> 'w \<times> nat option \<times> Stats" where
  "clientUDP marshal u m s =
     (case s of
        (w, conn, st) \<Rightarrow>
          if st_terminate st then (w, conn, st\<lparr>st_client := False\<rparr>)
          else
            (let payload = (case marshal m of None \<Rightarrow> [] | Some p \<Rightarrow> bytes_of_string p)
             in case conn of
                  Some c \<Rightarrow> (udp_Write u w c payload, conn, st)
                | None \<Rightarrow>
                    (case udp_Dial u w (st_address st @ '':'' @ itoa (st_port st)) of
                       (w, conn) \<Rightarrow> (w, conn, st))))"

section \<open>Aggregation\<close>

lemma string_less_order: "strict_weak ((<) :: string \<Rightarrow> string \<Rightarrow> bool) S" "separates ((<) :: string \<Rightarrow> string \<Rightarrow> bool) S"
  by (auto simp: strict_weak_def separates_def)

lemma aggregate_frame [simp]:
  "cp_aggregation (aggregate v p) = cp_aggregation p" "cp_metric (aggregate v p) = cp_metric p"
  "cp_tags (aggregate v p) = cp_tags p" "cp_timestamp (aggregate v p) = cp_timestamp p"
  "cp_sendOnNull (aggregate v p) = cp_sendOnNull p"
  by (simp_all add: aggregate_def point_ValueAdd_def point_SetValue_def)

lemma fold_aggregate_frame [simp]:
  "cp_aggregation (fold aggregate vs p) = cp_aggregation p" "cp_metric (fold aggregate vs p) = cp_metric p"
  "cp_tags (fold aggregate vs p) = cp_tags p" "cp_timestamp (fold aggregate vs p) = cp_timestamp p"
  "cp_sendOnNull (fold aggregate vs p) = cp_sendOnNull p"
  by (induction vs arbitrary: p) simp_all

lemma fold_aggregate_add:
  assumes "cp_aggregation p = ''sum'' \<or> cp_aggregation p = ''avg''"
  shows "cp_value (fold aggregate vs p) = fold (\<lambda>v acc. f64_add acc v) vs (cp_value p)"
    and "cp_count (fold aggregate vs p) = cp_count p + of_nat (length vs)"
    and "vs \<noteq> [] \<Longrightarrow> cp_valNull (fold aggregate vs p) = 0"
proof -
  have step: "cp_value (aggregate v q) = f64_add (cp_value q) v" "cp_count (aggregate v q) = cp_count q + 1"
      "cp_valNull (aggregate v q) = 0" if "cp_aggregation q = ''sum'' \<or> cp_aggregation q = ''avg''" for v q
    using that by (auto simp: aggregate_def point_ValueAdd_def)
  show "cp_value (fold aggregate vs p) = fold (\<lambda>v acc. f64_add acc v) vs (cp_value p)"
    using assms by (induction vs arbitrary: p) (simp_all add: step)
  show "cp_count (fold aggregate vs p) = cp_count p + of_nat (length vs)"
    using assms by (induction vs arbitrary: p) (simp_all add: step)
  show "vs \<noteq> [] \<Longrightarrow> cp_valNull (fold aggregate vs p) = 0"
    using assms by (induction vs rule: rev_induct) (simp_all add: step)
qed

lemma fold_aggregate_max_negative:
  "cp_aggregation p = ''max'' \<Longrightarrow> \<forall>v\<in>set vs. \<not> f64_lt (cp_value p) v \<Longrightarrow> fold aggregate vs p = p"
  by (induction vs) (simp_all add: aggregate_def GetValue_def)

lemma post_resets:
  "cp_aggregation p \<noteq> [] \<Longrightarrow> cp_value (post p) = 0 \<and> cp_count (post p) = 0 \<and> IsValueNull (post p)"
  by (simp add: post_def SetValueNull_def SetCount_def point_SetValue_def IsValueNull_def)

definition fresh_point :: "string \<Rightarrow> CustomPoint \<Rightarrow> bool" where
  "fresh_point agg p \<longleftrightarrow> cp_aggregation p = agg \<and> cp_value p = 0 \<and> cp_count p = 0 \<and> cp_valNull p = 1"

lemma f64_zero: "f64_make False 0 = 0"
  by (simp add: f64_make_def)

lemma f64_of_int_eq_zero:
  assumes "f64_exact_int i"
  shows "f64_eq (f64_of_int i) (f64_of_int 0) \<longleftrightarrow> i = 0"
proof -
  have "f64_exact_int 0" by (simp add: f64_exact_int_def)
  with f64_lt_of_int [OF assms this] f64_lt_of_int [OF this assms] f64_of_int_not_nan [OF assms] f64_of_int_not_nan [OF this]
  show ?thesis unfolding f64_lt_def f64_eq_def by linarith
qed

section \<open>The HTTP client\<close>

definition unsendable :: "message \<Rightarrow> bool" where
  "unsendable m \<longleftrightarrow> f64_is_nan (msg_Value m) \<or> f64_is_inf (msg_Value m)"

text \<open>\<open>json.Marshal\<close> reports an error for NaN and the infinities.\<close>

definition rejects_unsendable :: "message list marshal \<Rightarrow> bool" where
  "rejects_unsendable marshal \<longleftrightarrow> (\<forall>ms. (\<exists>m\<in>set ms. unsendable m) \<longrightarrow> marshal ms = None)"

lemma clientHTTP_poisoned:
  assumes "rejects_unsendable marshal" and "m \<in> set (st_hBuffer st)" and "unsendable m"
  shows "fst (clientHTTP marshal hc i (w, st)) = w \<and> set (st_hBuffer st) \<subseteq> set (st_hBuffer (snd (clientHTTP marshal hc i (w, st))))"
proof -
  have "marshal (st_hBuffer st) = None"
    using assms unfolding rejects_unsendable_def by blast
  then show ?thesis
    by (auto simp: clientHTTP_def split: http_input.split)
qed

section \<open>Properties\<close>

text \<open>
  C29: the key of a point depends on its metric and on the set of its tags only, not on the order in
  which the tag map is iterated.
\<close>

theorem snitch_key_order_independent:
  assumes "mset tags = mset tags'"
  shows "keyFromMetricID metric tags = keyFromMetricID metric tags'"
proof -
  have "mset (map tag_text tags) = mset (map tag_text tags')"
    using assms by (metis mset_map)
  then have "go_sort (<) (map tag_text tags) = go_sort (<) (map tag_text tags')"
    by (rule go_sort.srt_order_independent) (rule string_less_order)+
  then show ?thesis by (simp add: keyFromMetricID_def)
qed

theorem snitch_key_order_independent_witness:
  "keyFromMetricID ''cpu'' [(''b'', ''2''), (''a'', ''1'')] = keyFromMetricID ''cpu'' [(''a'', ''1''), (''b'', ''2'')]"
  by (rule snitch_key_order_independent) (simp add: add_mset_commute)

text \<open>
  Keys are not injective: a tag whose value contains a comma and an equals sign gets the key of
  two tags, so two different series share one point.
\<close>

theorem snitch_key_collision:
  "keyFromMetricID metric [(''a'', ''1, b=2'')] = keyFromMetricID metric [(''a'', ''1''), (''b'', ''2'')]"
  by (simp add: keyFromMetricID_def tag_text_def less_list_code)

text \<open>
  C11: a point with the aggregation \<open>sum\<close> or \<open>avg\<close> that was given integer values sends, when it runs, one
  message with their exact sum, or with their average when it is an integer, and is then as empty
  as before.
\<close>

theorem snitch_sum_avg_exact:
  assumes "fresh_point agg p" and "agg = ''sum'' \<or> agg = ''avg''" and "ns \<noteq> []"
    and "sum_list (map abs ns) \<le> 2 ^ 53" and "length ns \<le> 2 ^ 53"
  shows "\<exists>msg p'. Run now (fold aggregate (map f64_of_int ns) p) = (Some msg, p') \<and>
    msg_Metric msg = cp_metric p \<and> msg_Tags msg = cp_tags p \<and>
    (agg = ''sum'' \<longrightarrow> msg_Value msg = f64_of_int (sum_list ns)) \<and>
    (agg = ''avg'' \<longrightarrow> int (length ns) dvd sum_list ns \<longrightarrow> msg_Value msg = f64_of_int (sum_list ns div int (length ns))) \<and>
    fresh_point agg p'"
proof -
  let ?q = "fold aggregate (map f64_of_int ns) p" and ?n = "int (length ns)"
  have agg: "cp_aggregation p = ''sum'' \<or> cp_aggregation p = ''avg''"
    using assms(1,2) by (auto simp: fresh_point_def)
  have v: "cp_value ?q = f64_of_int (sum_list ns)"
    using f64_sum_exact [of 0 ns] assms(1,4) by (simp add: fold_aggregate_add(1) [OF agg] fresh_point_def f64_zero)
  have nul: "cp_valNull ?q = 0"
    using assms(3) by (simp add: fold_aggregate_add(3) [OF agg])
  have ex: "f64_exact_int (sum_list ns)" "f64_exact_int ?n"
    using exact_abs_sum [of ns] assms(4,5) by (auto simp: f64_exact_int_def)
  have "cp_count ?q = of_nat (length ns)"
    using assms(1) by (simp add: fold_aggregate_add(2) [OF agg] fresh_point_def)
  then have cnt: "sint (cp_count ?q) = ?n"
    using assms(5) by (simp add: signed_of_nat signed_take_bit_int_eq_self)
  then have cnt0: "cp_count ?q \<noteq> 0"
    using assms(3) by auto
  have post: "fresh_point agg (post r)" if "cp_aggregation r = agg" for r
    using post_resets [of r] assms(2) that
    by (auto simp: fresh_point_def post_def SetValueNull_def SetCount_def point_SetValue_def)
  have fr: "cp_aggregation ?q = agg" using assms(1) by (simp add: fresh_point_def)
  show ?thesis
  proof (cases "agg = ''avg'' \<and> sum_list ns \<noteq> 0")
    case True
    then have "pre ?q = (True, point_SetValue (f64_div (f64_of_int (sum_list ns)) (f64_of_int ?n)) ?q)"
      using fr nul cnt cnt0 f64_of_int_eq_zero [OF ex(1)]
      by (simp add: pre_def IsValueNull_def GetValue_def GetCount_def v)
    moreover have "?n dvd sum_list ns \<longrightarrow>
        f64_div (f64_of_int (sum_list ns)) (f64_of_int ?n) = f64_of_int (sum_list ns div ?n)"
      using f64_div_of_int [OF ex] assms(3) by simp
    ultimately show ?thesis
      using True post fr by (simp add: Run_def Let_def GetValue_def point_SetValue_def)
  next
    case False
    then have "pre ?q = (True, ?q)"
      using assms(2) fr nul f64_of_int_eq_zero [OF ex(1)]
      by (auto simp: pre_def IsValueNull_def GetValue_def GetCount_def v)
    with False show ?thesis
      using assms(2) post fr by (auto simp: Run_def Let_def GetValue_def v)
  qed
qed

definition example_cp :: "string \<Rightarrow> CustomPoint" where
  "example_cp agg =
     \<lparr>cp_metric = ''cpu'', cp_tags = [''ksid'' \<mapsto> ''k''], cp_value = 0, cp_valNull = 1, cp_timestamp = 0, cp_count = 0,
      cp_interval = ''@every 1m'', cp_aggregation = agg, cp_keepValue = False, cp_sendOnNull = False\<rparr>"

theorem snitch_sum_avg_exact_witness:
  "\<exists>msg p'. Run 9 (fold aggregate (map f64_of_int [2, 4]) (example_cp ''avg'')) = (Some msg, p') \<and>
     msg_Value msg = f64_of_int 3"
  using snitch_sum_avg_exact [of "''avg''" "example_cp ''avg''" "[2, 4]" 9]
  by (fastforce simp: fresh_point_def example_cp_def)

text \<open>
  A point with the aggregation \<open>max\<close> that is only given negative values ignores them all: it stays
  null, and when it runs it sends nothing, or zero if it sends null values.
\<close>

theorem snitch_max_ignores_negative:
  assumes "fresh_point ''max'' p" and "\<forall>v\<in>set vs. f64_lt v (f64_of_int 0)"
  shows "fold aggregate vs p = p \<and>
    map_option msg_Value (fst (Run now (fold aggregate vs p))) = (if cp_sendOnNull p then Some (f64_of_int 0) else None)"
proof -
  have "fold aggregate vs p = p"
    using assms f64_lt_asym by (intro fold_aggregate_max_negative) (auto simp: fresh_point_def f64_zero)
  with assms(1) show ?thesis
    by (auto simp: Run_def pre_def fresh_point_def IsValueNull_def GetValue_def f64_zero Let_def)
qed

theorem snitch_max_ignores_negative_witness:
  "fold aggregate [f64_of_int (- 5)] (example_cp ''max'') = example_cp ''max'' \<and>
   fst (Run 9 (fold aggregate [f64_of_int (- 5)] (example_cp ''max''))) = None"
proof -
  have "f64_lt (f64_of_int (- 5)) (f64_of_int 0)"
    by (subst f64_lt_of_int) (simp_all add: f64_exact_int_def)
  moreover have "fresh_point ''max'' (example_cp ''max'')" "\<not> cp_sendOnNull (example_cp ''max'')"
    by (simp_all add: fresh_point_def example_cp_def)
  ultimately show ?thesis
    using snitch_max_ignores_negative [of "example_cp ''max''" "[f64_of_int (- 5)]" 9] by (auto simp del: f64_of_int_0)
qed

text \<open>
  A point that is created before the goroutine of \<open>start\<close> runs gets two jobs: one from its creation
  and one from \<open>start\<close>, so it is run twice in every interval.
\<close>

theorem snitch_early_point_runs_twice:
  assumes "st_points st = []" and "st_jobs st = []" and "st_proto st = ''udp'' \<or> 0 < st_postInt st"
    and "parse interval = None" and "aggregation \<in> set aggregationsContants"
  shows "\<exists>a st1 st2. getPoint parse metric tags aggregation interval keep nullable st = (Inr a, st1) \<and>
    snitch_start runtime st1 = Ok st2 \<and> st_jobs st2 = [(interval, a), (interval, a)]"
  using assms by (auto simp: getPoint_def snitch_start_def sm_load_def sm_store_def Let_def nth_append)

definition example_stats :: Stats where
  "example_stats =
     \<lparr>st_address = ''localhost'', st_port = 8080, st_tags = [(''ksid'', ''k'')], st_proto = ''http'', st_timeout = 1000,
      st_postInt = 1000, st_store = [], st_points = [], st_jobs = [], st_hBuffer = [], st_client = False,
      st_runtime = False, st_terminate = False\<rparr>"

theorem snitch_early_point_runs_twice_witness:
  "\<exists>a st1 st2. getPoint (\<lambda>_. None) ''cpu'' [] ''sum'' ''@every 1m'' False False example_stats = (Inr a, st1) \<and>
     snitch_start False st1 = Ok st2 \<and> st_jobs st2 = [(''@every 1m'', a), (''@every 1m'', a)]"
  by (rule snitch_early_point_runs_twice) (simp_all add: example_stats_def aggregationsContants_def)

text \<open>
  Once the buffer of the HTTP client holds a message whose value is NaN or infinite, no request is
  made any more: whatever the loop receives, however often the ticker fires, the buffer only grows.
\<close>

theorem snitch_nan_blocks_http:
  assumes "rejects_unsendable marshal" and "m \<in> set (st_hBuffer st)" and "unsendable m"
  shows "fst (fold (clientHTTP marshal hc) ins (w, st)) = w \<and>
    set (st_hBuffer st) \<subseteq> set (st_hBuffer (snd (fold (clientHTTP marshal hc) ins (w, st))))"
  using assms(2)
proof (induction ins arbitrary: w st)
  case (Cons i ins)
  obtain w' st' where c: "clientHTTP marshal hc i (w, st) = (w', st')" by force
  with clientHTTP_poisoned [OF assms(1) Cons.prems assms(3), of hc i w] have "w' = w" "set (st_hBuffer st) \<subseteq> set (st_hBuffer st')"
    by simp_all
  with Cons.IH [of st' w] Cons.prems c show ?case by auto
qed simp

theorem snitch_nan_blocks_http_witness:
  "let m = \<lparr>msg_Metric = ''cpu'', msg_Tags = Map.empty, msg_Value = f64_nan, msg_Timestamp = 1\<rparr>;
       st = example_stats\<lparr>st_hBuffer := [m]\<rparr>;
       hc = \<lparr>hc_NewRequest = (\<lambda>_ _ _. Inl ''unused''), hc_Do = (\<lambda>w _. (w + 1, Inl ''unused'')), hc_ReadAll = (\<lambda>w _. (w, Inl [])),
             hc_Close = (\<lambda>w _. w)\<rparr>
   in fst (fold (clientHTTP (\<lambda>ms. if list_ex unsendable ms then None else Some ''[]'') hc) [Ticker, Ticker] (0 :: nat, st)) = 0"
proof -
  let ?m = "\<lparr>msg_Metric = ''cpu'', msg_Tags = Map.empty, msg_Value = f64_nan, msg_Timestamp = 1\<rparr>"
  have 1: "rejects_unsendable (\<lambda>ms. if list_ex unsendable ms then None else Some ''[]'')"
    by (auto simp: rejects_unsendable_def list_ex_iff)
  have 2: "?m \<in> set (st_hBuffer (example_stats\<lparr>st_hBuffer := [?m]\<rparr>))" by simp
  have 3: "unsendable ?m"
    by (simp add: unsendable_def f64_is_nan_def f64_nan_def f64_mag_def f64_inf_mag_def f64_make_def)
  show ?thesis
    unfolding Let_def using snitch_nan_blocks_http [OF 1 2 3, of _ "[Ticker, Ticker]" 0] by blast
qed

end
