(* ===== verification/Logh.thy ===== *)
theory Logh
  imports Gobol_Prelude
begin

text \<open>
  The package \<open>logh\<close> (\<open>src/logh/logh.go\<close>): the global loggers, the level switches and the contextual
  loggers that every other package creates.

  The logging library \<open>zerolog\<close> is not part of the sources: the record \<open>zerolog\<close> holds the functions that
  the package calls, and the locale \<open>zerolog_contract\<close> what their documentation promises (the global
  level filters events, a field is added at the end). The variables of the package are the record
  \<open>logh\<close>; a pointer that may be nil is an option.
\<close>

section \<open>Levels and formats\<close>

type_synonym Level = string
type_synonym Format = string

definition INFO :: Level where "INFO = ''info''"
definition DEBUG :: Level where "DEBUG = ''debug''"
definition WARN :: Level where "WARN = ''warn''"
definition ERROR :: Level where "ERROR = ''error''"
definition FATAL :: Level where "FATAL = ''fatal''"
definition PANIC :: Level where "PANIC = ''panic''"
definition NONE :: Level where "NONE = ''none''"
definition SILENT :: Level where "SILENT = ''silent''"

definition JSON :: Format where "JSON = ''json''"
definition CONSOLE :: Format where "CONSOLE = ''console''"

lemmas level_defs =
  INFO_def DEBUG_def WARN_def ERROR_def FATAL_def PANIC_def NONE_def SILENT_def

lemmas format_defs = JSON_def CONSOLE_def

section \<open>zerolog\<close>

text \<open>The levels of \<open>zerolog\<close>, in their order.\<close>

datatype zlevel =
  DebugLevel | InfoLevel | WarnLevel | ErrorLevel | FatalLevel | PanicLevel | NoLevel | Disabled

fun zrank :: "zlevel \<Rightarrow> nat" where
  "zrank DebugLevel = 0"
| "zrank InfoLevel = 1"
| "zrank WarnLevel = 2"
| "zrank ErrorLevel = 3"
| "zrank FatalLevel = 4"
| "zrank PanicLevel = 5"
| "zrank NoLevel = 6"
| "zrank Disabled = 7"

lemma zrank_inject: "zrank a = zrank b \<longleftrightarrow> a = b"
  by (cases a; cases b) simp_all

instantiation zlevel :: linorder
begin

definition less_eq_zlevel :: "zlevel \<Rightarrow> zlevel \<Rightarrow> bool" where
  "less_eq_zlevel a b \<longleftrightarrow> zrank a \<le> zrank b"

definition less_zlevel :: "zlevel \<Rightarrow> zlevel \<Rightarrow> bool" where
  "less_zlevel a b \<longleftrightarrow> zrank a < zrank b"

instance
  by standard (auto simp: less_eq_zlevel_def less_zlevel_def zrank_inject)

end

datatype stream = Stdout | Stderr

text \<open>A writer is one of the two streams, raw or behind a \<open>zerolog.ConsoleWriter\<close>.\<close>

datatype log_writer = Raw stream | ConsoleWriter stream

text \<open>
  The functions of \<open>zerolog\<close>: \<open>'w\<close> is its global state with the lines it has written, \<open>'l\<close> a \<open>Logger\<close>,
  \<open>'e\<close> an \<open>*Event\<close> (which may be nil inside the library; \<open>zl_Enabled\<close> tells). \<open>zl_New\<close> stands for
  \<open>New(out).With().Timestamp().Logger()\<close>. \<open>zl_Err\<close> gets the outcome of calling \<open>Error()\<close> on its
  argument.
\<close>

record ('w, 'l, 'e) zerolog =
  SetGlobalLevel :: "zlevel \<Rightarrow> 'w \<Rightarrow> 'w"
  zl_New :: "log_writer \<Rightarrow> 'l"
  zl_event :: "zlevel \<Rightarrow> 'l \<Rightarrow> 'w \<Rightarrow> 'e"
  zl_Enabled :: "'e \<Rightarrow> bool"
  zl_Str :: "string \<Rightarrow> string \<Rightarrow> 'e \<Rightarrow> 'e"
  zl_Err :: "(string, string) res \<Rightarrow> 'e \<Rightarrow> (string, 'e) res"
  zl_Msg :: "string \<Rightarrow> 'e \<Rightarrow> 'w \<Rightarrow> 'w"

section \<open>The package\<close>

text \<open>The variables of the package, with what \<open>fmt.Println\<close> has printed.\<close>

record ('w, 'l) logh =
  zworld :: 'w
  stdout :: 'l
  stderr :: 'l
  InfoEnabled :: bool
  DebugEnabled :: bool
  WarnEnabled :: bool
  ErrorEnabled :: bool
  FatalEnabled :: bool
  PanicEnabled :: bool
  printed :: "string list"

record ContextualLogger =
  numKeyValues :: nat
  keyValues :: "string list"

text \<open>The test that the six event functions share: \<open>if e := ...; e.Enabled() { return e }; return nil\<close>.\<close>

definition if_enabled :: "('w, 'l, 'e) zerolog \<Rightarrow> 'e \<Rightarrow> 'e option" where
  "if_enabled z e = (if zl_Enabled z e then Some e else None)"

definition Info :: "('w, 'l, 'e) zerolog \<Rightarrow> ('w, 'l) logh \<Rightarrow> 'e option" where
  "Info z s = if_enabled z (zl_event z InfoLevel (stdout s) (zworld s))"

definition Debug :: "('w, 'l, 'e) zerolog \<Rightarrow> ('w, 'l) logh \<Rightarrow> 'e option" where
  "Debug z s = if_enabled z (zl_event z DebugLevel (stdout s) (zworld s))"

definition Warn :: "('w, 'l, 'e) zerolog \<Rightarrow> ('w, 'l) logh \<Rightarrow> 'e option" where
  "Warn z s = if_enabled z (zl_event z WarnLevel (stdout s) (zworld s))"

definition Error :: "('w, 'l, 'e) zerolog \<Rightarrow> ('w, 'l) logh \<Rightarrow> 'e option" where
  "Error z s = if_enabled z (zl_event z ErrorLevel (stderr s) (zworld s))"

definition PanicEvent :: "('w, 'l, 'e) zerolog \<Rightarrow> ('w, 'l) logh \<Rightarrow> 'e option" where
  "PanicEvent z s = if_enabled z (zl_event z PanicLevel (stderr s) (zworld s))"

definition Fatal :: "('w, 'l, 'e) zerolog \<Rightarrow> ('w, 'l) logh \<Rightarrow> 'e option" where
  "Fatal z s = if_enabled z (zl_event z FatalLevel (stderr s) (zworld s))"

lemmas event_defs = Info_def Debug_def Warn_def Error_def PanicEvent_def Fatal_def if_enabled_def

definition SendToStdout :: "string \<Rightarrow> ('w, 'l) logh \<Rightarrow> ('w, 'l) logh" where
  "SendToStdout out s = s\<lparr>printed := printed s @ [out]\<rparr>"

text \<open>The \<open>switch\<close> has no \<open>default\<close>: another string leaves the global level as it is.\<close>

definition level_switch :: "Level \<Rightarrow> zlevel option" where
  "level_switch lvl =
     (if lvl = INFO then Some InfoLevel
      else if lvl = DEBUG then Some DebugLevel
      else if lvl = WARN then Some WarnLevel
      else if lvl = ERROR then Some ErrorLevel
      else if lvl = PANIC then Some PanicLevel
      else if lvl = FATAL then Some FatalLevel
      else if lvl = NONE then Some NoLevel
      else if lvl = SILENT then Some Disabled
      else None)"

definition ConfigureGlobalLogger ::
  "('w, 'l, 'e) zerolog \<Rightarrow> Level \<Rightarrow> Format \<Rightarrow> ('w, 'l) logh \<Rightarrow> ('w, 'l) logh" where
  "ConfigureGlobalLogger z lvl fmt s0 =
     (let s1 = (case level_switch lvl of
                  Some l \<Rightarrow> s0\<lparr>zworld := SetGlobalLevel z l (zworld s0)\<rparr>
                | None \<Rightarrow> s0);
          (out, err) = (if fmt = CONSOLE then (ConsoleWriter Stdout, ConsoleWriter Stderr)
                        else (Raw Stdout, Raw Stderr));
          s2 = s1\<lparr>stdout := zl_New z out, stderr := zl_New z err\<rparr>
      in s2\<lparr>InfoEnabled := Info z s2 \<noteq> None,
            DebugEnabled := Debug z s2 \<noteq> None,
            WarnEnabled := Warn z s2 \<noteq> None,
            ErrorEnabled := Error z s2 \<noteq> None,
            PanicEnabled := PanicEvent z s2 \<noteq> None,
            FatalEnabled := Fatal z s2 \<noteq> None\<rparr>)"

definition CreateContextualLogger :: "string list \<Rightarrow> (string, ContextualLogger) res" where
  "CreateContextualLogger kvs =
     (if length kvs mod 2 \<noteq> 0 then Panic
      else Ok \<lparr>numKeyValues = length kvs, keyValues = kvs\<rparr>)"

text \<open>
  The loop of \<open>addContext\<close>; an index outside the slice panics. A nil receiver panics when its fields
  are read, which happens only for a non-nil event.
\<close>

function addContext_loop ::
  "('w, 'l, 'e) zerolog \<Rightarrow> ContextualLogger \<Rightarrow> nat \<Rightarrow> 'e \<Rightarrow> (string, 'e) res" where
  "addContext_loop z el j ev =
     (if j < numKeyValues el then
        (if j + 1 < length (keyValues el)
         then addContext_loop z el (j + 2) (zl_Str z (keyValues el ! j) (keyValues el ! (j + 1)) ev)
         else Panic)
      else Ok ev)"
  by pat_completeness auto
termination
  by (relation "measure (\<lambda>(z, el, j, ev). numKeyValues el - j)") auto

declare addContext_loop.simps [simp del]

fun addContext ::
  "('w, 'l, 'e) zerolog \<Rightarrow> ContextualLogger option \<Rightarrow> 'e option \<Rightarrow> (string, 'e option) res" where
  "addContext z el None = Ok None"
| "addContext z None (Some ev) = Panic"
| "addContext z (Some el) (Some ev) = res_bind (addContext_loop z el 0 ev) (\<lambda>e. Ok (Some e))"

definition ContextualLogger_Info where
  "ContextualLogger_Info z el s = addContext z el (Info z s)"

definition ContextualLogger_Debug where
  "ContextualLogger_Debug z el s = addContext z el (Debug z s)"

definition ContextualLogger_Warn where
  "ContextualLogger_Warn z el s = addContext z el (Warn z s)"

definition ContextualLogger_Error where
  "ContextualLogger_Error z el s = addContext z el (Error z s)"

definition ContextualLogger_Fatal where
  "ContextualLogger_Fatal z el s = addContext z el (Fatal z s)"

definition ContextualLogger_Panic where
  "ContextualLogger_Panic z el s = addContext z el (PanicEvent z s)"

lemmas contextual_defs =
  ContextualLogger_Info_def ContextualLogger_Debug_def ContextualLogger_Warn_def
  ContextualLogger_Error_def ContextualLogger_Fatal_def ContextualLogger_Panic_def

section \<open>What zerolog promises\<close>

locale zerolog_contract =
  fixes z :: "('w, 'l, 'e) zerolog"
    and glob :: "'w \<Rightarrow> zlevel"
    and fields :: "'e \<Rightarrow> (string \<times> string) list"
  assumes glob_set: "glob (SetGlobalLevel z l w) = l"
    and enabled_event: "lvl \<le> PanicLevel \<Longrightarrow>
      zl_Enabled z (zl_event z lvl (zl_New z wr) w) \<longleftrightarrow> glob w \<le> lvl"
    and Str_enabled: "zl_Enabled z ev \<Longrightarrow> zl_Enabled z (zl_Str z k v ev)"
    and Str_fields: "zl_Enabled z ev \<Longrightarrow> fields (zl_Str z k v ev) = fields ev @ [(k, v)]"
    and Err_text: "zl_Err z (Ok t) ev = Ok (zl_Str z ''error'' t ev)"
    and Err_panic: "zl_Enabled z ev \<Longrightarrow> zl_Err z Panic ev = Panic"
    and Msg_glob: "glob (zl_Msg z m ev w) = glob w"

text \<open>Consecutive arguments as key/value pairs, the reference for the loop of \<open>addContext\<close>.\<close>

fun pairs :: "'a list \<Rightarrow> ('a \<times> 'a) list" where
  "pairs (k # v # r) = (k, v) # pairs r"
| "pairs _ = []"

text \<open>The level in force after a call of \<open>ConfigureGlobalLogger\<close> when it was \<open>g\<close> before.\<close>

definition threshold :: "Level \<Rightarrow> zlevel \<Rightarrow> zlevel" where
  "threshold lvl g = (case level_switch lvl of Some l \<Rightarrow> l | None \<Rightarrow> g)"

text \<open>The switch and the event function of each level.\<close>

fun flag_of :: "('w, 'l) logh \<Rightarrow> zlevel \<Rightarrow> bool" where
  "flag_of s DebugLevel = DebugEnabled s"
| "flag_of s InfoLevel = InfoEnabled s"
| "flag_of s WarnLevel = WarnEnabled s"
| "flag_of s ErrorLevel = ErrorEnabled s"
| "flag_of s FatalLevel = FatalEnabled s"
| "flag_of s PanicLevel = PanicEnabled s"
| "flag_of s _ = False"

fun event_of :: "('w, 'l, 'e) zerolog \<Rightarrow> ('w, 'l) logh \<Rightarrow> zlevel \<Rightarrow> 'e option" where
  "event_of z s DebugLevel = Debug z s"
| "event_of z s InfoLevel = Info z s"
| "event_of z s WarnLevel = Warn z s"
| "event_of z s ErrorLevel = Error z s"
| "event_of z s FatalLevel = Fatal z s"
| "event_of z s PanicLevel = PanicEvent z s"
| "event_of z s _ = None"

text \<open>The switches say what the event functions return.\<close>

definition flags_agree :: "('w, 'l, 'e) zerolog \<Rightarrow> ('w, 'l) logh \<Rightarrow> bool" where
  "flags_agree z s \<longleftrightarrow>
     (DebugEnabled s \<longleftrightarrow> Debug z s \<noteq> None) \<and> (InfoEnabled s \<longleftrightarrow> Info z s \<noteq> None) \<and>
     (WarnEnabled s \<longleftrightarrow> Warn z s \<noteq> None) \<and> (ErrorEnabled s \<longleftrightarrow> Error z s \<noteq> None) \<and>
     (FatalEnabled s \<longleftrightarrow> Fatal z s \<noteq> None) \<and> (PanicEnabled s \<longleftrightarrow> PanicEvent z s \<noteq> None)"

text \<open>A more severe level is enabled whenever a less severe one is.\<close>

definition flags_ordered :: "('w, 'l) logh \<Rightarrow> bool" where
  "flags_ordered s \<longleftrightarrow>
     (DebugEnabled s \<longrightarrow> InfoEnabled s) \<and> (InfoEnabled s \<longrightarrow> WarnEnabled s) \<and>
     (WarnEnabled s \<longrightarrow> ErrorEnabled s) \<and> (ErrorEnabled s \<longrightarrow> FatalEnabled s) \<and>
     (FatalEnabled s \<longrightarrow> PanicEnabled s)"

text \<open>
  The states of a process that has configured its logger: it may configure it again, print, and send
  events.
\<close>

inductive configured :: "('w, 'l, 'e) zerolog \<Rightarrow> ('w, 'l) logh \<Rightarrow> bool" for z where
  configure: "configured z (ConfigureGlobalLogger z lvl fmt s)"
| print: "configured z s \<Longrightarrow> configured z (SendToStdout out s)"
| message: "configured z s \<Longrightarrow> configured z (s\<lparr>zworld := zl_Msg z m ev (zworld s)\<rparr>)"

lemma level_order [simp]:
  "DebugLevel \<le> l"
  "InfoLevel \<le> DebugLevel \<longleftrightarrow> False" "InfoLevel \<le> PanicLevel" "WarnLevel \<le> PanicLevel"
  "ErrorLevel \<le> PanicLevel" "FatalLevel \<le> PanicLevel"
  by (simp_all add: less_eq_zlevel_def)

context zerolog_contract
begin

text \<open>Everything the package decides is a comparison with the global level.\<close>

definition at_level :: "('w, 'l) logh \<Rightarrow> zlevel \<Rightarrow> bool" where
  "at_level s g \<longleftrightarrow>
     (\<exists>wr. stdout s = zl_New z wr) \<and> (\<exists>wr. stderr s = zl_New z wr) \<and> glob (zworld s) = g \<and>
     DebugEnabled s = (g \<le> DebugLevel) \<and> InfoEnabled s = (g \<le> InfoLevel) \<and>
     WarnEnabled s = (g \<le> WarnLevel) \<and> ErrorEnabled s = (g \<le> ErrorLevel) \<and>
     FatalEnabled s = (g \<le> FatalLevel) \<and> PanicEnabled s = (g \<le> PanicLevel)"

lemma configure_at_level:
  "at_level (ConfigureGlobalLogger z lvl fmt s) (threshold lvl (glob (zworld s)))"
  by (auto simp: at_level_def ConfigureGlobalLogger_def Let_def threshold_def event_defs
      enabled_event glob_set split: option.split)

lemma at_level_events:
  assumes "at_level s g"
  shows "Debug z s \<noteq> None \<longleftrightarrow> g \<le> DebugLevel" "Info z s \<noteq> None \<longleftrightarrow> g \<le> InfoLevel"
    "Warn z s \<noteq> None \<longleftrightarrow> g \<le> WarnLevel" "Error z s \<noteq> None \<longleftrightarrow> g \<le> ErrorLevel"
    "Fatal z s \<noteq> None \<longleftrightarrow> g \<le> FatalLevel" "PanicEvent z s \<noteq> None \<longleftrightarrow> g \<le> PanicLevel"
  using assms by (auto simp: at_level_def event_defs enabled_event)

lemma at_level_flags:
  assumes "at_level s g"
  shows "flags_agree z s" "flags_ordered s"
  using assms at_level_events [OF assms]
  by (simp_all add: flags_agree_def flags_ordered_def at_level_def less_eq_zlevel_def)

lemma configured_at_level: "configured z s \<Longrightarrow> \<exists>g. at_level s g"
proof (induction rule: configured.induct)
  case (configure lvl fmt s)
  then show ?case using configure_at_level by blast
qed (auto simp: at_level_def SendToStdout_def Msg_glob)

lemma addContext_loop_fields:
  assumes "numKeyValues el = length (keyValues el)" and "even (length (keyValues el))"
    and "zl_Enabled z ev" and "j \<le> length (keyValues el)" and "even j"
  shows "\<exists>ev'. addContext_loop z el j ev = Ok ev' \<and> zl_Enabled z ev' \<and>
    fields ev' = fields ev @ pairs (drop j (keyValues el))"
  using assms
proof (induction "length (keyValues el) - j" arbitrary: j ev rule: less_induct)
  case less
  let ?kv = "keyValues el"
  show ?case
  proof (cases "j < length ?kv")
    case True
    then have step: "j + 1 < length ?kv"
      using less.prems by presburger
    let ?ev = "zl_Str z (?kv ! j) (?kv ! (j + 1)) ev"
    have "drop j ?kv = ?kv ! j # ?kv ! (j + 1) # drop (j + 2) ?kv"
      using step by (metis Cons_nth_drop_Suc True add.commute add_2_eq_Suc plus_1_eq_Suc)
    moreover have "\<exists>ev'. addContext_loop z el (j + 2) ?ev = Ok ev' \<and> zl_Enabled z ev' \<and>
        fields ev' = fields ?ev @ pairs (drop (j + 2) ?kv)"
      using less.prems step by (intro less.hyps) (auto simp: Str_enabled)
    ultimately show ?thesis
      using less.prems step by (simp add: addContext_loop.simps [of z el j] Str_fields)
  next
    case False
    with less.prems show ?thesis
      by (simp add: addContext_loop.simps)
  qed
qed

lemma addContext_fields:
  assumes "CreateContextualLogger kvs = Ok el" and "zl_Enabled z ev"
  shows "\<exists>ev'. addContext z (Some el) (Some ev) = Ok (Some ev') \<and> zl_Enabled z ev' \<and>
    fields ev' = fields ev @ pairs kvs"
  using assms addContext_loop_fields [of el ev 0]
  by (auto simp: CreateContextualLogger_def even_iff_mod_2_eq_zero split: if_splits)

end

section \<open>An instance\<close>

text \<open>
  A logger that follows the documentation of \<open>zerolog\<close>: the state is the global level and the lines
  written, a logger is its writer, an event is nil or the writer, the level and the fields.
\<close>

record zl_world =
  zglobal :: zlevel
  zlines :: "(log_writer \<times> zlevel \<times> (string \<times> string) list \<times> string) list"

type_synonym zl_ev = "(log_writer \<times> zlevel \<times> (string \<times> string) list) option"

fun zl_fields :: "zl_ev \<Rightarrow> (string \<times> string) list" where
  "zl_fields None = []"
| "zl_fields (Some (wr, l, fs)) = fs"

fun zl_add :: "string \<Rightarrow> string \<Rightarrow> zl_ev \<Rightarrow> zl_ev" where
  "zl_add k v None = None"
| "zl_add k v (Some (wr, l, fs)) = Some (wr, l, fs @ [(k, v)])"

fun zl_send :: "string \<Rightarrow> zl_ev \<Rightarrow> zl_world \<Rightarrow> zl_world" where
  "zl_send m None w = w"
| "zl_send m (Some (wr, l, fs)) w = w\<lparr>zlines := zlines w @ [(wr, l, fs, m)]\<rparr>"

definition zl_std :: "(zl_world, log_writer, zl_ev) zerolog" where
  "zl_std = \<lparr>SetGlobalLevel = (\<lambda>l w. w\<lparr>zglobal := l\<rparr>), zl_New = id,
     zl_event = (\<lambda>l wr w. if zglobal w \<le> l then Some (wr, l, []) else None),
     zl_Enabled = (\<lambda>e. e \<noteq> None), zl_Str = zl_add,
     zl_Err = (\<lambda>t e. if e = None then Ok None else res_bind t (\<lambda>m. Ok (zl_add ''error'' m e))), zl_Msg = zl_send\<rparr>"

interpretation zl_std: zerolog_contract zl_std zglobal zl_fields
proof (unfold_locales, goal_cases)
  case (4 ev k v)
  then show ?case by (cases ev rule: zl_fields.cases) (auto simp: zl_std_def)
next
  case (7 m ev w)
  then show ?case by (cases ev rule: zl_fields.cases) (auto simp: zl_std_def)
qed (auto simp: zl_std_def)

definition zl_init :: "(zl_world, log_writer) logh" where
  "zl_init = \<lparr>zworld = \<lparr>zglobal = DebugLevel, zlines = []\<rparr>, stdout = Raw Stdout, stderr = Raw Stderr,
     InfoEnabled = False, DebugEnabled = False, WarnEnabled = False, ErrorEnabled = False,
     FatalEnabled = False, PanicEnabled = False, printed = []\<rparr>"

section \<open>Properties\<close>

text \<open>
  After \<open>ConfigureGlobalLogger\<close> with one of the eight level names, exactly the events at or above
  that level are returned by the event functions, and the switch of each level says so; with any other
  string the level in force stays the one before the call, though the loggers are replaced and the
  switches computed again.
\<close>

theorem configure_levels:
  assumes "zerolog_contract z glob flds" and "s' = ConfigureGlobalLogger z lvl fmt s"
    and "g = threshold lvl (glob (zworld s))" and "l \<le> PanicLevel"
  shows "glob (zworld s') = g \<and> (flag_of s' l \<longleftrightarrow> g \<le> l) \<and> (event_of z s' l \<noteq> None \<longleftrightarrow> g \<le> l)"
proof -
  note contract = assms(1)
  have at: "zerolog_contract.at_level z glob s' g"
    unfolding assms(2,3) by (rule zerolog_contract.configure_at_level [OF contract])
  show ?thesis
    using at zerolog_contract.at_level_events [OF contract at] assms(4)
    by (cases l) (simp_all add: zerolog_contract.at_level_def [OF contract] less_eq_zlevel_def)
qed

theorem configure_levels_witness:
  "WarnEnabled (ConfigureGlobalLogger zl_std WARN JSON zl_init) \<and>
   \<not> InfoEnabled (ConfigureGlobalLogger zl_std WARN JSON zl_init)"
  using configure_levels [OF zl_std.zerolog_contract_axioms refl refl, of WarnLevel WARN JSON zl_init]
    configure_levels [OF zl_std.zerolog_contract_axioms refl refl, of InfoLevel WARN JSON zl_init]
  by (simp add: threshold_def level_switch_def level_defs less_eq_zlevel_def)

text \<open>
  C22: In every state that a process reaches after it has configured the logger, by further
  configurations, prints and messages, the six switches agree with what the six event functions return,
  and they are ordered by severity. Code that tests a switch before it uses the event relies on this.
\<close>

theorem configured_flags:
  assumes "zerolog_contract z glob flds" and "configured z s"
  shows "flags_agree z s \<and> flags_ordered s"
  using zerolog_contract.configured_at_level [OF assms]
    zerolog_contract.at_level_flags [OF assms(1)] by blast

theorem configured_flags_witness:
  "flags_agree zl_std (SendToStdout ''x'' (ConfigureGlobalLogger zl_std ''verbose'' CONSOLE zl_init))"
  using configured_flags [OF zl_std.zerolog_contract_axioms configured.print [OF configured.configure]]
  by blast

text \<open>
  C30: \<open>CreateContextualLogger\<close> panics exactly on an odd number of arguments; with an even number the
  loop of \<open>addContext\<close> ends without a panic on every enabled event and adds exactly the consecutive
  pairs of arguments, in order, after the fields that the event had.
\<close>

theorem contextual_logger_fields:
  assumes "zerolog_contract z glob flds" and "zl_Enabled z ev"
  shows "if odd (length kvs) then CreateContextualLogger kvs = Panic
    else \<exists>el ev'. CreateContextualLogger kvs = Ok el \<and>
      addContext z (Some el) (Some ev) = Ok (Some ev') \<and> zl_Enabled z ev' \<and>
      flds ev' = flds ev @ pairs kvs"
proof (cases "odd (length kvs)")
  case False
  then obtain el where el: "CreateContextualLogger kvs = Ok el"
    by (auto simp: CreateContextualLogger_def even_iff_mod_2_eq_zero)
  show ?thesis
    using False el zerolog_contract.addContext_fields [OF assms(1) el assms(2)] by auto
qed (simp add: CreateContextualLogger_def odd_iff_mod_2_eq_one)

theorem contextual_logger_fields_witness:
  "\<exists>el. CreateContextualLogger [''pkg'', ''rip'', ''func'', ''Fail''] = Ok el \<and>
    addContext zl_std (Some el) (Some (Some (Raw Stdout, InfoLevel, []))) =
      Ok (Some (Some (Raw Stdout, InfoLevel, [(''pkg'', ''rip''), (''func'', ''Fail'')])))"
proof -
  have "zl_Enabled zl_std (Some (Raw Stdout, InfoLevel, []))"
    by (simp add: zl_std_def)
  from contextual_logger_fields [OF zl_std.zerolog_contract_axioms this,
      of "[''pkg'', ''rip'', ''func'', ''Fail'']"]
  show ?thesis
    by (auto simp: CreateContextualLogger_def addContext_loop.simps zl_std_def)
qed

end
