(* ===== verification/Compress.thy ===== *)
theory Compress
  imports Hashing
begin

text \<open>
  The package \<open>compress\<close> (\<open>src/compress/gzip.go\<close>) and the part of Go's \<open>compress/gzip\<close> that it shares
  with \<open>files\<close> and \<open>rip\<close>.

  A \<open>gzip.Writer\<close> is a state of some type \<open>'z\<close> with operations that return the bytes they pass on to
  the writer below; \<open>NewReader\<close> followed by reading to the end is one function on the compressed bytes.
  The locale \<open>gzip_contract\<close> is the round trip that the package promises; it is interpreted on a writer
  that emits stored blocks, the format of RFC 1951 and 1952 without compression.
\<close>

section \<open>compress/gzip\<close>

text \<open>
  \<open>gz_decode\<close> returns \<open>Inl\<close> the error of \<open>NewReader\<close>, or \<open>Inr\<close> the bytes that can be read and the error
  that ends the reading, \<open>None\<close> for a proper end of the stream.
\<close>

record 'z gzip_lib =
  gz_NewWriter :: 'z
  gz_NewWriterLevel :: "int \<Rightarrow> 'z option"
  gz_Reset :: "'z \<Rightarrow> 'z"
  gz_SetHeader :: "string \<Rightarrow> int \<Rightarrow> 'z \<Rightarrow> 'z"
  gz_Write :: "byte list \<Rightarrow> 'z \<Rightarrow> (string, byte list \<times> 'z) res"
  gz_Flush :: "'z \<Rightarrow> (string, byte list \<times> 'z) res"
  gz_Close :: "'z \<Rightarrow> (string, byte list) res"
  gz_decode :: "byte list \<Rightarrow> string + (byte list \<times> string option)"

definition ascii_name :: "string \<Rightarrow> bool" where
  "ascii_name s \<longleftrightarrow> (\<forall>c\<in>set s. 0 < (of_char c :: nat) \<and> (of_char c :: nat) < 128)"

text \<open>
  \<open>plain\<close> is what has been written to a writer, \<open>sent\<close> what it has passed on; \<open>inv\<close> holds of a writer
  that is open. The first operation passes on the header, so an open writer that was used has sent
  something.
\<close>

locale gzip_contract =
  fixes lib :: "'z gzip_lib"
    and plain sent :: "'z \<Rightarrow> byte list"
    and inv :: "'z \<Rightarrow> bool"
  assumes new_ok: "inv (gz_NewWriter lib)" "plain (gz_NewWriter lib) = []" "sent (gz_NewWriter lib) = []"
    and reset_ok: "inv (gz_Reset lib z)" "plain (gz_Reset lib z) = []" "sent (gz_Reset lib z) = []"
    and header_ok: "inv z \<Longrightarrow> sent z = [] \<Longrightarrow> ascii_name n \<Longrightarrow>
      inv (gz_SetHeader lib n t z) \<and> plain (gz_SetHeader lib n t z) = plain z \<and>
      sent (gz_SetHeader lib n t z) = []"
    and write_ok: "inv z \<Longrightarrow> \<exists>out z'. gz_Write lib b z = Ok (out, z') \<and> inv z' \<and>
      plain z' = plain z @ b \<and> sent z' = sent z @ out \<and> sent z' \<noteq> []"
    and flush_ok: "inv z \<Longrightarrow> \<exists>out z'. gz_Flush lib z = Ok (out, z') \<and> inv z' \<and>
      plain z' = plain z \<and> sent z' = sent z @ out \<and> sent z' \<noteq> []"
    and close_ok: "inv z \<Longrightarrow> \<exists>out. gz_Close lib z = Ok out \<and> out \<noteq> [] \<and>
      gz_decode lib (sent z @ out) = Inr (plain z, None)"

section \<open>The package\<close>

definition ZipBytes :: "'z gzip_lib \<Rightarrow> byte list \<Rightarrow> (string, byte list) res" where
  "ZipBytes lib data =
     res_bind (gz_Write lib data (gz_NewWriter lib)) (\<lambda>(buffer, w).
     res_bind (gz_Flush lib w) (\<lambda>(out, w).
     let buffer = buffer @ out in
     res_bind (gz_Close lib w) (\<lambda>out.
     Ok (buffer @ out))))"

definition UnzipBytes :: "'z gzip_lib \<Rightarrow> byte list \<Rightarrow> (string, byte list) res" where
  "UnzipBytes lib data =
     (case gz_decode lib data of
        Inl e \<Rightarrow> Err e
      | Inr (buffer, Some e) \<Rightarrow> Err e
      | Inr (buffer, None) \<Rightarrow> Ok buffer)"

context gzip_contract
begin

lemma zip_ok: "\<exists>out. ZipBytes lib data = Ok out \<and> gz_decode lib out = Inr (data, None)"
proof -
  obtain o1 z1 where w: "gz_Write lib data (gz_NewWriter lib) = Ok (o1, z1)" "inv z1"
      "plain z1 = data" "sent z1 = o1"
    using write_ok [of "gz_NewWriter lib" data] new_ok by auto
  obtain o2 z2 where f: "gz_Flush lib z1 = Ok (o2, z2)" "inv z2" "plain z2 = data" "sent z2 = o1 @ o2"
    using flush_ok [of z1] w by auto
  obtain o3 where c: "gz_Close lib z2 = Ok o3" "gz_decode lib (sent z2 @ o3) = Inr (data, None)"
    using close_ok [of z2] f by auto
  show ?thesis
    using w f c by (simp add: ZipBytes_def)
qed

end

section \<open>Stored blocks\<close>

definition le16 :: "nat \<Rightarrow> byte list" where
  "le16 n = [word_of_nat (n mod 256), word_of_nat (n div 256)]"

definition le32 :: "32 word \<Rightarrow> byte list" where
  "le32 w = [ucast w, ucast (drop_bit 8 w), ucast (drop_bit 16 w), ucast (drop_bit 24 w)]"

text \<open>A block: the type, the length, its complement, the bytes.\<close>

definition stored_block :: "bool \<Rightarrow> byte list \<Rightarrow> byte list" where
  "stored_block final c =
     (if final then 1 else 0) # le16 (length c) @ map NOT (le16 (length c)) @ c"

text \<open>The blocks of a write: pieces of at most 65535 bytes.\<close>

function stored_blocks :: "byte list \<Rightarrow> byte list" where
  "stored_blocks b =
     (if b = [] then [] else stored_block False (take 65535 b) @ stored_blocks (drop 65535 b))"
  by pat_completeness auto
termination
  by (relation "measure length") auto

declare stored_blocks.simps [simp del]

definition gz_trailer :: "byte list \<Rightarrow> byte list" where
  "gz_trailer p = le32 (NOT (foldl crc32_update 0xFFFFFFFF p)) @ le32 (word_of_nat (length p))"

text \<open>The header of RFC 1952 with the flag \<open>FNAME\<close> when there is a name.\<close>

definition gz_header :: "string \<Rightarrow> int \<Rightarrow> byte list" where
  "gz_header n t =
     [0x1f, 0x8b, 8, if n = [] then 0 else 8] @ le32 (word_of_int t) @ [0, 255] @
     (if n = [] then [] else bytes_of_string n @ [0])"

record stored_writer =
  sw_name :: string
  sw_mtime :: int
  sw_plain :: "byte list"
  sw_sent :: "byte list"

definition sw_new :: stored_writer where
  "sw_new = \<lparr>sw_name = '''', sw_mtime = 0, sw_plain = [], sw_sent = []\<rparr>"

definition sw_head :: "stored_writer \<Rightarrow> byte list" where
  "sw_head z = (if sw_sent z = [] then gz_header (sw_name z) (sw_mtime z) else [])"

definition sw_write :: "byte list \<Rightarrow> stored_writer \<Rightarrow> (string, byte list \<times> stored_writer) res" where
  "sw_write b z =
     (let out = sw_head z @ stored_blocks b
      in Ok (out, z\<lparr>sw_plain := sw_plain z @ b, sw_sent := sw_sent z @ out\<rparr>))"

definition sw_flush :: "stored_writer \<Rightarrow> (string, byte list \<times> stored_writer) res" where
  "sw_flush z =
     (let out = sw_head z @ stored_block False []
      in Ok (out, z\<lparr>sw_sent := sw_sent z @ out\<rparr>))"

definition sw_close :: "stored_writer \<Rightarrow> (string, byte list) res" where
  "sw_close z = Ok (sw_head z @ stored_block True [] @ gz_trailer (sw_plain z))"

text \<open>The reader: the blocks of one member, with the bytes read so far in \<open>acc\<close>.\<close>

function read_blocks :: "byte list \<Rightarrow> byte list \<Rightarrow> byte list \<times> string option" where
  "read_blocks acc (t # l0 # l1 # m0 # m1 # r) =
     (let n = unat l0 + 256 * unat l1 in
      if t \<noteq> 0 \<and> t \<noteq> 1 \<or> m0 \<noteq> NOT l0 \<or> m1 \<noteq> NOT l1 then (acc, Some ''flate: corrupt input'')
      else if length r < n then (acc @ r, Some ''unexpected EOF'')
      else if t = 0 then read_blocks (acc @ take n r) (drop n r)
      else if drop n r = gz_trailer (acc @ take n r) then (acc @ take n r, None)
      else (acc @ take n r, Some ''gzip: invalid checksum''))"
| "read_blocks acc [] = (acc, Some ''unexpected EOF'')"
| "read_blocks acc [a] = (acc, Some ''unexpected EOF'')"
| "read_blocks acc [a, b] = (acc, Some ''unexpected EOF'')"
| "read_blocks acc [a, b, c] = (acc, Some ''unexpected EOF'')"
| "read_blocks acc [a, b, c, d] = (acc, Some ''unexpected EOF'')"
  by pat_completeness auto
termination
  by (relation "measure (\<lambda>(acc, r). length r)") auto

definition sw_decode :: "byte list \<Rightarrow> string + (byte list \<times> string option)" where
  "sw_decode bs =
     (if length bs < 10 then Inl ''unexpected EOF''
      else if take 3 bs \<noteq> [0x1f, 0x8b, 8] then Inl ''gzip: invalid header''
      else if bs ! 3 = 0 then Inr (read_blocks [] (drop 10 bs))
      else (case dropWhile (\<lambda>b. b \<noteq> 0) (drop 10 bs) of
              [] \<Rightarrow> Inl ''unexpected EOF''
            | _ # r \<Rightarrow> Inr (read_blocks [] r)))"

definition stored_lib :: "stored_writer gzip_lib" where
  "stored_lib = \<lparr>gz_NewWriter = sw_new, gz_NewWriterLevel = (\<lambda>l. if -2 \<le> l \<and> l \<le> 9 then Some sw_new else None),
     gz_Reset = (\<lambda>_. sw_new), gz_SetHeader = (\<lambda>n t z. z\<lparr>sw_name := n, sw_mtime := t\<rparr>),
     gz_Write = sw_write, gz_Flush = sw_flush, gz_Close = sw_close, gz_decode = sw_decode\<rparr>"

lemma le16_value:
  assumes "n \<le> 65535"
  shows "unat (word_of_nat (n mod 256) :: byte) + 256 * unat (word_of_nat (n div 256) :: byte) = n"
proof -
  have "n div 256 < 256"
    using assms by auto
  then show ?thesis
    by (simp add: unat_of_nat)
qed

lemma read_stored_block:
  "length c \<le> 65535 \<Longrightarrow> read_blocks acc (stored_block False c @ r) = read_blocks (acc @ c) r"
  by (simp add: stored_block_def le16_def le16_value Let_def)

lemma read_stored_blocks: "read_blocks acc (stored_blocks b @ r) = read_blocks (acc @ b) r"
proof (induction b arbitrary: acc rule: stored_blocks.induct)
  case (1 b)
  show ?case
  proof (cases "b = []")
    case False
    then show ?thesis
      using 1 [OF False] read_stored_block [of "take 65535 b"]
      by (simp add: stored_blocks.simps [of b])
  qed (simp add: stored_blocks.simps)
qed

lemma read_final: "read_blocks acc (stored_block True [] @ gz_trailer acc) = (acc, None)"
  by (simp add: stored_block_def le16_def Let_def)

lemma ascii_bytes: "ascii_name n \<Longrightarrow> 0 \<notin> set (bytes_of_string n)"
proof
  assume "ascii_name n" and "0 \<in> set (bytes_of_string n)"
  then obtain c where c: "0 < (of_char c :: nat)" "(of_char c :: nat) < 128"
      "(word_of_nat (of_char c) :: byte) = 0"
    by (auto simp: ascii_name_def bytes_of_string_def byte_of_char_def)
  from c(3) have "unat (word_of_nat (of_char c) :: byte) = 0"
    by simp
  with c(1,2) show False
    by (simp add: unat_of_nat)
qed

lemma decode_header:
  assumes "ascii_name n"
  shows "sw_decode (gz_header n t @ bs) = Inr (read_blocks [] bs)"
proof -
  have "dropWhile (\<lambda>b. b \<noteq> 0) (bytes_of_string n @ 0 # bs) = 0 # bs"
    using ascii_bytes [OF assms] by (subst dropWhile_append2) auto
  then show ?thesis
    by (simp add: sw_decode_def gz_header_def le32_def)
qed

text \<open>The blocks sent so far decode to what has been written, whatever follows them.\<close>

definition sw_inv :: "stored_writer \<Rightarrow> bool" where
  "sw_inv z \<longleftrightarrow> ascii_name (sw_name z) \<and>
     (sw_sent z = [] \<and> sw_plain z = [] \<or>
      (\<exists>bs. sw_sent z = gz_header (sw_name z) (sw_mtime z) @ bs \<and>
        (\<forall>r. read_blocks [] (bs @ r) = read_blocks (sw_plain z) r)))"

lemma gz_header_not_Nil [simp]: "gz_header n t \<noteq> []"
  by (simp add: gz_header_def)

lemma sw_sent_head:
  "sw_inv z \<Longrightarrow> \<exists>bs. sw_sent z @ sw_head z = gz_header (sw_name z) (sw_mtime z) @ bs \<and>
     (\<forall>r. read_blocks [] (bs @ r) = read_blocks (sw_plain z) r)"
  by (auto simp: sw_inv_def sw_head_def)

lemma sw_emit:
  assumes "sw_inv z" and "\<And>acc r. read_blocks acc (blk @ r) = read_blocks (acc @ b) r"
  shows "sw_inv (z\<lparr>sw_plain := sw_plain z @ b, sw_sent := sw_sent z @ sw_head z @ blk\<rparr>)"
proof -
  obtain bs where bs: "sw_sent z @ sw_head z = gz_header (sw_name z) (sw_mtime z) @ bs"
      "\<And>r. read_blocks [] (bs @ r) = read_blocks (sw_plain z) r"
    using sw_sent_head [OF assms(1)] by auto
  have "sw_sent z @ sw_head z @ blk = gz_header (sw_name z) (sw_mtime z) @ bs @ blk"
    using bs(1) by (metis append.assoc)
  then show ?thesis
    using assms bs(2) by (auto simp: sw_inv_def)
qed

lemma sw_close_decodes:
  assumes "sw_inv z"
  shows "sw_decode (sw_sent z @ sw_head z @ stored_block True [] @ gz_trailer (sw_plain z)) =
    Inr (sw_plain z, None)"
proof -
  obtain bs where bs: "sw_sent z @ sw_head z = gz_header (sw_name z) (sw_mtime z) @ bs"
      "\<And>r. read_blocks [] (bs @ r) = read_blocks (sw_plain z) r"
    using sw_sent_head [OF assms] by auto
  have "ascii_name (sw_name z)"
    using assms by (simp add: sw_inv_def)
  then have "sw_decode ((sw_sent z @ sw_head z) @ r) = Inr (read_blocks (sw_plain z) r)" for r
    by (simp only: bs append.assoc decode_header)
  from this [of "stored_block True [] @ gz_trailer (sw_plain z)"] show ?thesis
    by (simp add: read_final)
qed

interpretation stored: gzip_contract stored_lib sw_plain sw_sent sw_inv
proof (unfold_locales, goal_cases)
  case (7 z n t)
  then show ?case by (auto simp: stored_lib_def sw_inv_def)
next
  case (8 z b)
  then show ?case
    using sw_emit [OF 8 read_stored_blocks, of b]
    by (auto simp: stored_lib_def sw_write_def Let_def sw_head_def)
next
  case (9 z)
  then show ?case
    using sw_emit [OF 9, of "stored_block False []" "[]"]
    by (auto simp: stored_lib_def sw_flush_def Let_def sw_head_def read_stored_block)
next
  case (10 z)
  then show ?case
    using sw_close_decodes [OF 10] by (auto simp: stored_lib_def sw_close_def stored_block_def)
qed (auto simp: stored_lib_def sw_new_def sw_inv_def ascii_name_def)

section \<open>Properties\<close>

text \<open>
  C31: \<open>ZipBytes\<close> never fails and \<open>UnzipBytes\<close> gives back the bytes that were compressed, for every
  input including the empty one.
\<close>

theorem zip_unzip:
  assumes "gzip_contract lib plain sent opn"
  shows "res_bind (ZipBytes lib data) (UnzipBytes lib) = Ok data"
  using gzip_contract.zip_ok [OF assms, of data] by (auto simp: UnzipBytes_def)

theorem zip_unzip_witness:
  "res_bind (ZipBytes stored_lib [104, 105]) (UnzipBytes stored_lib) = Ok [104, 105]"
  by (rule zip_unzip [OF stored.gzip_contract_axioms])

end
