(* ===== verification/Go_Http.thy ===== *)
theory Go_Http
  imports Gobol_Prelude "HOL-Library.AList"
begin

text \<open>
  The part of Go's \<open>net/http\<close> that \<open>rip\<close> and \<open>tester/httpserver\<close> use: headers with canonical keys, and
  the \<open>ResponseWriter\<close> of a connection, which fixes the status and the headers at the first
  \<open>WriteHeader\<close> or \<open>Write\<close>. Packages build on them in \<open>Rip\<close> and \<open>Httpserver\<close>. The last section is
  \<open>src/util/util.go\<close>.
\<close>

section \<open>Headers\<close>

definition upper :: "char \<Rightarrow> char" where
  "upper c = (if 97 \<le> (of_char c :: nat) \<and> (of_char c :: nat) \<le> 122 then char_of (of_char c - 32 :: nat) else c)"

definition lower :: "char \<Rightarrow> char" where
  "lower c = (if 65 \<le> (of_char c :: nat) \<and> (of_char c :: nat) \<le> 90 then char_of (of_char c + 32 :: nat) else c)"

text \<open>The bytes of a token (RFC 7230), the only ones in a valid key.\<close>

definition token_char :: "char \<Rightarrow> bool" where
  "token_char c \<longleftrightarrow>
     (let n = (of_char c :: nat) in 48 \<le> n \<and> n \<le> 57 \<or> 65 \<le> n \<and> n \<le> 90 \<or> 97 \<le> n \<and> n \<le> 122 \<or>
       c \<in> set ''!#$%&*+-.^_`|~'' \<or> n = 39)"

fun canon_chars :: "bool \<Rightarrow> string \<Rightarrow> string" where
  "canon_chars up [] = []"
| "canon_chars up (c # cs) = (if up then upper c else lower c) # canon_chars (c = CHR ''-'') cs"

text \<open>\<open>textproto.CanonicalMIMEHeaderKey\<close>: a key with another byte is left alone.\<close>

definition canon :: "string \<Rightarrow> string" where
  "canon k = (if list_all token_char k then canon_chars True k else k)"

text \<open>A header is a map from keys to their values, as an association list without repeated keys.\<close>

type_synonym header = "(string \<times> string list) list"

definition hdr_values :: "header \<Rightarrow> string \<Rightarrow> string list" where
  "hdr_values h k = (case map_of h (canon k) of Some vs \<Rightarrow> vs | None \<Rightarrow> [])"

definition hdr_Get :: "header \<Rightarrow> string \<Rightarrow> string" where
  "hdr_Get h k = (case hdr_values h k of v # _ \<Rightarrow> v | [] \<Rightarrow> '''')"

definition hdr_Set :: "string \<Rightarrow> string \<Rightarrow> header \<Rightarrow> header" where
  "hdr_Set k v h = AList.update (canon k) [v] h"

definition hdr_Add :: "string \<Rightarrow> string \<Rightarrow> header \<Rightarrow> header" where
  "hdr_Add k v h = AList.update (canon k) (hdr_values h k @ [v]) h"

definition hdr_Del :: "string \<Rightarrow> header \<Rightarrow> header" where
  "hdr_Del k h = AList.delete (canon k) h"

definition hdr_invar :: "header \<Rightarrow> bool" where
  "hdr_invar h \<longleftrightarrow> distinct (map fst h)"

lemma hdr_values_simps [simp]:
  "hdr_values [] k = []"
  "hdr_values (hdr_Set k v h) k' = (if canon k = canon k' then [v] else hdr_values h k')"
  "hdr_values (hdr_Add k v h) k' = (if canon k = canon k' then hdr_values h k @ [v] else hdr_values h k')"
  "hdr_values (hdr_Del k h) k' = (if canon k = canon k' then [] else hdr_values h k')"
  by (auto simp: hdr_values_def hdr_Set_def hdr_Add_def hdr_Del_def update_conv' delete_conv')

lemma hdr_Get_simps [simp]:
  "hdr_Get [] k = ''''"
  "hdr_Get (hdr_Set k v h) k' = (if canon k = canon k' then v else hdr_Get h k')"
  "hdr_Get (hdr_Del k h) k' = (if canon k = canon k' then '''' else hdr_Get h k')"
  by (simp_all add: hdr_Get_def)

lemma hdr_Get_Add:
  "hdr_Get (hdr_Add k v h) k' =
     (if canon k = canon k' \<and> hdr_values h k' = [] then v else hdr_Get h k')"
  by (auto simp: hdr_Get_def hdr_values_def hdr_Add_def update_conv' split: list.split)

lemma hdr_invar_simps [simp]:
  "hdr_invar []"
  "hdr_invar h \<Longrightarrow> hdr_invar (hdr_Set k v h)"
  "hdr_invar h \<Longrightarrow> hdr_invar (hdr_Add k v h)"
  "hdr_invar h \<Longrightarrow> hdr_invar (hdr_Del k h)"
  by (simp_all add: hdr_invar_def hdr_Set_def hdr_Add_def hdr_Del_def distinct_update distinct_delete)

section \<open>The response of a connection\<close>

text \<open>
  \<open>cn_wrote\<close> is the status with the copy of the headers that is sent, once \<open>WriteHeader\<close> has been called;
  \<open>cn_length\<close> the declared \<open>Content-Length\<close>, \<open>cn_written\<close> the bytes counted against it. A broken connection
  accepts no body.
\<close>

record conn =
  cn_header :: header
  cn_wrote :: "(int \<times> header) option"
  cn_length :: "nat option"
  cn_written :: nat
  cn_body :: "byte list"
  cn_broken :: bool

definition conn_new :: conn where
  "conn_new = \<lparr>cn_header = [], cn_wrote = None, cn_length = None, cn_written = 0, cn_body = [], cn_broken = False\<rparr>"

definition digit_value :: "char \<Rightarrow> nat option" where
  "digit_value c =
     (let n = (of_char c :: nat) in if 48 \<le> n \<and> n \<le> 57 then Some (n - 48) else None)"

fun decimal :: "nat \<Rightarrow> string \<Rightarrow> nat option" where
  "decimal acc [] = Some acc"
| "decimal acc (c # cs) = (case digit_value c of None \<Rightarrow> None | Some d \<Rightarrow> decimal (10 * acc + d) cs)"

text \<open>\<open>Content-Length\<close> as the server reads it: \<open>strconv.ParseInt\<close>, kept when it is not negative.\<close>

definition content_length :: "string \<Rightarrow> nat option" where
  "content_length t =
     (let ds = (case t of c # r \<Rightarrow> if c = CHR ''+'' then r else t | [] \<Rightarrow> [])
      in if ds = [] then None
         else case decimal 0 ds of Some n \<Rightarrow> if n < 2 ^ 63 then Some n else None | None \<Rightarrow> None)"

definition conn_started :: "int \<Rightarrow> conn \<Rightarrow> conn" where
  "conn_started s c =
     c\<lparr>cn_wrote := Some (s, cn_header c),
       cn_length := content_length (hdr_Get (cn_header c) ''Content-Length'')\<rparr>"

lemma conn_started_sel [simp]:
  "cn_wrote (conn_started s c) = Some (s, cn_header c)" "cn_header (conn_started s c) = cn_header c"
  "cn_body (conn_started s c) = cn_body c" "cn_broken (conn_started s c) = cn_broken c"
  "cn_written (conn_started s c) = cn_written c"
  by (simp_all add: conn_started_def)

definition conn_WriteHeader :: "int \<Rightarrow> conn \<Rightarrow> (string, conn) res" where
  "conn_WriteHeader s c =
     (if cn_wrote c \<noteq> None then Ok c
      else if s < 100 \<or> 999 < s then Panic
      else Ok (conn_started s c))"

definition body_allowed :: "int \<Rightarrow> bool" where
  "body_allowed s \<longleftrightarrow> 200 \<le> s \<and> s \<noteq> 204 \<and> s \<noteq> 304"

text \<open>The status that the client gets; 200 when the handler ends without having chosen one.\<close>

definition conn_status :: "conn \<Rightarrow> int" where
  "conn_status c = (case cn_wrote c of Some (s, _) \<Rightarrow> s | None \<Rightarrow> 200)"

text \<open>\<open>Write\<close>: the bytes written with the error, if any. The first write fixes the status 200.\<close>

definition conn_Write :: "byte list \<Rightarrow> conn \<Rightarrow> (nat \<times> string option) \<times> conn" where
  "conn_Write b c0 =
     (let c = (if cn_wrote c0 = None then conn_started 200 c0 else c0) in
      if b = [] then ((0, None), c)
      else if \<not> body_allowed (conn_status c)
      then ((0, Some ''http: request method or response status code does not allow body''), c)
      else
        (let c = c\<lparr>cn_written := cn_written c + length b\<rparr> in
         if (case cn_length c of Some l \<Rightarrow> l < cn_written c | None \<Rightarrow> False)
         then ((0, Some ''http: wrote more than the declared Content-Length''), c)
         else if cn_broken c then ((0, Some ''write: broken pipe''), c)
         else ((length b, None), c\<lparr>cn_body := cn_body c @ b\<rparr>)))"

text \<open>Once fixed, the status and the headers that the client gets never change.\<close>

lemma conn_fixed:
  "cn_wrote c = Some sh \<Longrightarrow> conn_WriteHeader s c = Ok c"
  "cn_wrote c = Some sh \<Longrightarrow> cn_wrote (snd (conn_Write b c)) = Some sh"
  by (auto simp: conn_WriteHeader_def conn_Write_def conn_started_def Let_def)

section \<open>Requests\<close>

text \<open>
  A request as the server gives it to a handler. \<open>hr_bodyErr\<close> is the error that ends the reading of the
  body, if it does not end properly.
\<close>

record srv_request =
  hr_Method :: string
  hr_Proto :: string
  hr_Path :: string
  hr_RequestURI :: string
  hr_Header :: header
  hr_body :: "byte list"
  hr_bodyErr :: "string option"

text \<open>Conversion of bytes to a string, \<open>string(b)\<close>.\<close>

definition string_of_bytes :: "byte list \<Rightarrow> string" where
  "string_of_bytes bs = map (\<lambda>b. char_of (unat b)) bs"

lemma string_of_bytes_of_string [simp]: "string_of_bytes (bytes_of_string s) = s"
proof -
  have "char_of (unat (byte_of_char c)) = c" for c
  proof -
    have "of_char c < (256 :: nat)"
      by simp
    then have "unat (byte_of_char c) = of_char c"
      by (simp add: byte_of_char_def unat_of_nat)
    then show ?thesis
      by simp
  qed
  then show ?thesis
    by (simp add: string_of_bytes_def bytes_of_string_def comp_def)
qed

section \<open>util/util.go\<close>

text \<open>The settings of an \<open>http.Client\<close> that the library chooses.\<close>

record HTTPClient =
  cl_Timeout :: int
  cl_InsecureSkipVerify :: bool

definition CreateHTTPClient :: "int \<Rightarrow> bool \<Rightarrow> HTTPClient" where
  "CreateHTTPClient timeout insecureSkipVerify =
     \<lparr>cl_Timeout = timeout, cl_InsecureSkipVerify = insecureSkipVerify\<rparr>"

end
