(* ===== verification/Rip.thy ===== *)
theory Rip
  imports Logh Compress Go_Http Sync_Map
begin

text \<open>
  The package \<open>rip\<close>, first part: the errors of the root package (\<open>src/error.go\<close>), the response writers
  of the two middlewares and \<open>src/rip/rip.go\<close>. The middlewares themselves are in \<open>Rip_Middleware\<close>.

  A response writer is the connection of \<open>Go_Http\<close> behind any number of \<open>GzipResponseWriter\<close> and
  \<open>LogResponseWriter\<close> wrappers, each with its own state, and the calls go down the wrappers as the
  embedded \<open>http.ResponseWriter\<close> of the code does. A call that panics leaves the state it had reached,
  because \<open>Fail\<close> recovers from it: the functions of \<open>rip.go\<close> return the outcome together with the state.
\<close>

section \<open>error.go\<close>

text \<open>A value of the interface \<open>gobol.Error\<close> by what its methods return; \<open>Error()\<close> may panic.\<close>

record gobol_error =
  ge_Error :: "(string, string) res"
  ge_StatusCode :: int
  ge_Message :: string
  ge_Package :: string
  ge_Function :: string

section \<open>Response writers\<close>

datatype 'z writer =
    Conn conn
  | GzipResponseWriter "'z writer" 'z "string option"
  | LogResponseWriter "'z writer" int int

fun the_conn :: "'z writer \<Rightarrow> conn" where
  "the_conn (Conn c) = c"
| "the_conn (GzipResponseWriter w gz e) = the_conn w"
| "the_conn (LogResponseWriter w st sz) = the_conn w"

text \<open>\<open>Header\<close> returns the map of the connection; changes to it are made with \<open>edit_header\<close>.\<close>

fun Header :: "'z writer \<Rightarrow> header" where
  "Header (Conn c) = cn_header c"
| "Header (GzipResponseWriter w gz e) = Header w"
| "Header (LogResponseWriter w st sz) = Header w"

fun edit_header :: "(header \<Rightarrow> header) \<Rightarrow> 'z writer \<Rightarrow> 'z writer" where
  "edit_header f (Conn c) = Conn (c\<lparr>cn_header := f (cn_header c)\<rparr>)"
| "edit_header f (GzipResponseWriter w gz e) = GzipResponseWriter (edit_header f w) gz e"
| "edit_header f (LogResponseWriter w st sz) = LogResponseWriter (edit_header f w) st sz"

text \<open>
  The methods of the two wrappers, given what the embedded \<open>http.ResponseWriter\<close> does. An error of a
  \<open>gzip.Writer\<close> is kept and returned by every later write.
\<close>

definition GzipResponseWriter_WriteHeader :: "(string, 'z writer) res \<Rightarrow> 'z \<Rightarrow> string option \<Rightarrow> (string, 'z writer) res" where
  [simp]: "GzipResponseWriter_WriteHeader inner gz e = res_bind inner (\<lambda>w. Ok (GzipResponseWriter w gz e))"

definition LogResponseWriter_WriteHeader :: "(string, 'z writer) res \<Rightarrow> int \<Rightarrow> int \<Rightarrow> (string, 'z writer) res" where
  [simp]: "LogResponseWriter_WriteHeader inner s sz = res_bind inner (\<lambda>w. Ok (LogResponseWriter w s sz))"

type_synonym 'z written = "(string, (int \<times> string option) \<times> 'z writer) res"

definition GzipResponseWriter_Write ::
  "'z gzip_lib \<Rightarrow> (byte list \<Rightarrow> 'z written) \<Rightarrow> byte list \<Rightarrow> 'z writer \<Rightarrow> 'z \<Rightarrow> string option \<Rightarrow> 'z written" where
  [simp]: "GzipResponseWriter_Write lib inner b w gz e =
     (case e of
        Some err \<Rightarrow> Ok ((0, Some err), GzipResponseWriter w gz e)
      | None \<Rightarrow>
          (case gz_Write lib b gz of
             Panic \<Rightarrow> Panic
           | Err err \<Rightarrow> Ok ((0, Some err), GzipResponseWriter w gz (Some err))
           | Ok (out, gz) \<Rightarrow>
               if out = [] then Ok ((int (length b), None), GzipResponseWriter w gz None)
               else
                 (case inner out of
                    Ok ((n, None), w) \<Rightarrow> Ok ((int (length b), None), GzipResponseWriter w gz None)
                  | Ok ((n, Some err), w) \<Rightarrow> Ok ((0, Some err), GzipResponseWriter w gz (Some err))
                  | Err err \<Rightarrow> Err err
                  | Panic \<Rightarrow> Panic)))"

definition LogResponseWriter_Write :: "'z written \<Rightarrow> int \<Rightarrow> int \<Rightarrow> 'z written" where
  [simp]: "LogResponseWriter_Write inner st sz =
     (case inner of
        Ok ((n, e), w) \<Rightarrow> Ok ((n, e), LogResponseWriter w (if st = 0 then 200 else st) (sz + n))
      | Err err \<Rightarrow> Err err
      | Panic \<Rightarrow> Panic)"

fun WriteHeader :: "int \<Rightarrow> 'z writer \<Rightarrow> (string, 'z writer) res" where
  "WriteHeader s (Conn c) = res_bind (conn_WriteHeader s c) (\<lambda>c. Ok (Conn c))"
| "WriteHeader s (GzipResponseWriter w gz e) = GzipResponseWriter_WriteHeader (WriteHeader s w) gz e"
| "WriteHeader s (LogResponseWriter w st sz) = LogResponseWriter_WriteHeader (WriteHeader s w) s sz"

text \<open>\<open>Write\<close>: the number of bytes and the error.\<close>

fun Write :: "'z gzip_lib \<Rightarrow> byte list \<Rightarrow> 'z writer \<Rightarrow> 'z written" where
  "Write lib b (Conn c) = (case conn_Write b c of ((n, e), c) \<Rightarrow> Ok ((int n, e), Conn c))"
| "Write lib b (GzipResponseWriter w gz e) = GzipResponseWriter_Write lib (\<lambda>out. Write lib out w) b w gz e"
| "Write lib b (LogResponseWriter w st sz) = LogResponseWriter_Write (Write lib b w) st sz"

lemma the_conn_edit [simp]: "the_conn (edit_header f w) = (the_conn w)\<lparr>cn_header := f (cn_header (the_conn w))\<rparr>"
  by (induction w) simp_all

lemma Header_conn: "Header w = cn_header (the_conn w)"
  by (induction w) simp_all

section \<open>rip.go\<close>

record customError =
  ce_error :: "string option"
  ce_msg :: string
  ce_pkg :: string
  ce_function :: string
  ce_httpCode :: int

text \<open>
  The methods of \<open>customError\<close>. \<open>Error()\<close> is promoted from the embedded error and panics when that is
  nil.
\<close>

definition as_Error :: "customError \<Rightarrow> gobol_error" where
  "as_Error e =
     \<lparr>ge_Error = (case ce_error e of Some t \<Rightarrow> Ok t | None \<Rightarrow> Panic), ge_StatusCode = ce_httpCode e,
      ge_Message = ce_msg e, ge_Package = ce_pkg e, ge_Function = ce_function e\<rparr>"

text \<open>The variables of the package, with those of \<open>logh\<close> and what \<open>log.Println\<close> has printed.\<close>

record ('w, 'l) rip =
  rp_logh :: "('w, 'l) logh"
  rp_logger :: "ContextualLogger option"
  rp_logErrorAsDebug :: bool
  rp_println :: "string list"

definition errBasic :: "string \<Rightarrow> string \<Rightarrow> string \<Rightarrow> int \<Rightarrow> string option \<Rightarrow> gobol_error option" where
  "errBasic pkg function message code e =
     (case e of
        Some t \<Rightarrow> Some (as_Error \<lparr>ce_error = Some t, ce_msg = message, ce_pkg = pkg,
                                  ce_function = function, ce_httpCode = code\<rparr>)
      | None \<Rightarrow> None)"

definition errUnmarshal :: "string \<Rightarrow> string \<Rightarrow> string option \<Rightarrow> gobol_error option" where
  "errUnmarshal pkg function e = errBasic pkg function ''Wrong JSON format'' 400 e"

definition SetLogger :: "bool \<Rightarrow> ('w, 'l) rip \<Rightarrow> (string, ('w, 'l) rip) res" where
  "SetLogger forceErrorToDebugLog s =
     res_bind (CreateContextualLogger [''pkg'', ''rip''])
       (\<lambda>el. Ok (s\<lparr>rp_logger := Some el, rp_logErrorAsDebug := forceErrorToDebugLog\<rparr>))"

text \<open>The event that an error is logged with, nil when its level is not enabled.\<close>

definition log_event ::
  "('w, 'l, 'e) zerolog \<Rightarrow> ContextualLogger \<Rightarrow> ('w, 'l) rip \<Rightarrow> (string, 'e option) res" where
  "log_event z el s =
     (if rp_logErrorAsDebug s
      then (if DebugEnabled (rp_logh s) then ContextualLogger_Debug z (Some el) (rp_logh s) else Ok None)
      else (if ErrorEnabled (rp_logh s) then ContextualLogger_Error z (Some el) (rp_logh s) else Ok None))"

text \<open>\<open>logError\<close>; a nil \<open>gerr\<close> panics when its methods are called.\<close>

definition logError ::
  "('w, 'l, 'e) zerolog \<Rightarrow> gobol_error option \<Rightarrow> ('w, 'l) rip \<Rightarrow> (string, 'e option) res \<times> ('w, 'l) rip" where
  "logError z gerr s =
     (case rp_logger s of
        None \<Rightarrow> (Ok None, s)
      | Some el \<Rightarrow>
          (case log_event z el s of
             Ok (Some ev) \<Rightarrow>
               (case gerr of
                  None \<Rightarrow> (Panic, s)
                | Some g \<Rightarrow>
                    (case zl_Err z (ge_Error g)
                            (zl_Str z ''func'' (ge_Function g) (zl_Str z ''pkg'' (ge_Package g) ev)) of
                       Ok ev' \<Rightarrow>
                         (Ok (Some ev'),
                          s\<lparr>rp_logh := (rp_logh s)\<lparr>zworld := zl_Msg z (ge_Message g) ev' (zworld (rp_logh s))\<rparr>\<rparr>)
                     | Err err \<Rightarrow> (Err err, s)
                     | Panic \<Rightarrow> (Panic, s)))
           | Ok None \<Rightarrow> (Ok None, s)
           | Err err \<Rightarrow> (Err err, s)
           | Panic \<Rightarrow> (Panic, s)))"

text \<open>
  The functions of \<open>rip.go\<close> that write a response. \<open>encoding/json\<close> is a record: \<open>js_Marshal\<close> gives an
  error or the bytes, \<open>js_quote\<close> a string as a JSON string.
\<close>

record 'p json_lib =
  js_Marshal :: "'p \<Rightarrow> string + byte list"
  js_quote :: "string \<Rightarrow> string"

definition w_WriteHeader :: "int \<Rightarrow> ('z writer, unit) io" where
  "w_WriteHeader s = io_of (\<lambda>w. res_bind (WriteHeader s w) (\<lambda>w. Ok ((), w)))"

definition w_Write :: "'z gzip_lib \<Rightarrow> byte list \<Rightarrow> ('z writer, string option) io" where
  "w_Write lib b = io_of (\<lambda>w. res_bind (Write lib b w) (\<lambda>((n, e), w). Ok (e, w)))"

definition w_header :: "(header \<Rightarrow> header) \<Rightarrow> ('z writer, unit) io" where
  "w_header f w = (Ok (), edit_header f w)"

definition SuccessJSON ::
  "'z gzip_lib \<Rightarrow> 'p json_lib \<Rightarrow> int \<Rightarrow> 'p \<Rightarrow> ('z writer, unit) io" where
  "SuccessJSON lib js statusCode payload =
     (case js_Marshal js payload of
        Inl err \<Rightarrow>
          io_bind (w_WriteHeader 500) (\<lambda>_.
          io_bind (w_Write lib (bytes_of_string err)) (\<lambda>_. io_ret ()))
      | Inr b \<Rightarrow>
          io_bind (w_header (hdr_Add ''Content-Type'' ''application/json'')) (\<lambda>_.
          io_bind (w_WriteHeader statusCode) (\<lambda>_.
          io_bind (w_Write lib b) (\<lambda>_. io_ret ()))))"

text \<open>\<open>payload\<close> is a slice that may be nil.\<close>

definition Success :: "'z gzip_lib \<Rightarrow> int \<Rightarrow> byte list option \<Rightarrow> ('z writer, unit) io" where
  "Success lib statusCode payload =
     io_bind (w_WriteHeader statusCode) (\<lambda>_.
     case payload of
       None \<Rightarrow> io_ret ()
     | Some b \<Rightarrow>
         io_bind (w_Write lib b) (\<lambda>e.
         case e of
           None \<Rightarrow> io_ret ()
         | Some err \<Rightarrow> io_bind (w_Write lib (bytes_of_string err)) (\<lambda>_. io_ret ())))"

text \<open>
  \<open>errorJSON\<close>: a field that is nil is omitted; a string in an \<open>interface{}\<close> is not nil even when it is
  empty. \<open>Encode\<close> ends its output with a newline and writes it in one call.
\<close>

definition errorJSON :: "'p json_lib \<Rightarrow> string option \<Rightarrow> string \<Rightarrow> string" where
  "errorJSON js err msg =
     ''{'' @ (case err of Some t \<Rightarrow> ''\"error\":'' @ js_quote js t @ '','' | None \<Rightarrow> []) @
     ''\"message\":'' @ js_quote js msg @ ''}'' @ [CHR 0x0A]"

definition encode_error ::
  "'z gzip_lib \<Rightarrow> 'p json_lib \<Rightarrow> string option \<Rightarrow> string \<Rightarrow> ('z writer, unit) io" where
  "encode_error lib js err msg =
     io_bind (w_Write lib (bytes_of_string (errorJSON js err msg))) (\<lambda>e.
     case e of
       None \<Rightarrow> io_ret ()
     | Some t \<Rightarrow>
         io_bind (w_WriteHeader 500) (\<lambda>_.
         io_bind (w_Write lib (bytes_of_string t)) (\<lambda>_. io_ret ())))"

text \<open>\<open>if ev := logError(gerr); ev == nil { log.Println(gerr.Message()) }\<close>.\<close>

definition log_or_print ::
  "('w, 'l, 'e) zerolog \<Rightarrow> gobol_error option \<Rightarrow> (('w, 'l) rip, unit) io" where
  "log_or_print z gerr =
     io_bind (logError z gerr) (\<lambda>ev s.
     case (ev, gerr) of
       (Some _, _) \<Rightarrow> (Ok (), s)
     | (None, Some g) \<Rightarrow> (Ok (), s\<lparr>rp_println := rp_println s @ [ge_Message g]\<rparr>)
     | (None, None) \<Rightarrow> (Panic, s))"

definition Fail_body ::
  "('w, 'l, 'e) zerolog \<Rightarrow> 'z gzip_lib \<Rightarrow> 'p json_lib \<Rightarrow> gobol_error option \<Rightarrow>
     (('w, 'l) rip \<times> 'z writer, unit) io" where
  "Fail_body z lib js gerr =
     io_bind (io_fst (log_or_print z gerr)) (\<lambda>_.
     case gerr of
       None \<Rightarrow> (\<lambda>s. (Panic, s))
     | Some g \<Rightarrow>
         io_bind (if ge_StatusCode g < 500
                  then (\<lambda>s. (res_bind (ge_Error g) (\<lambda>t. Ok (t = [] \<and> ge_Message g = [])), s))
                  else io_ret False) (\<lambda>plain.
         if plain then io_snd (w_WriteHeader (ge_StatusCode g))
         else
           io_bind (\<lambda>s. (ge_Error g, s)) (\<lambda>t.
           io_bind (io_snd (w_WriteHeader (ge_StatusCode g))) (\<lambda>_.
           io_snd (encode_error lib js (Some t) (ge_Message g))))))"

text \<open>The deferred function of \<open>Fail\<close>, run after a panic.\<close>

definition Fail_recovered ::
  "('w, 'l, 'e) zerolog \<Rightarrow> 'z gzip_lib \<Rightarrow> 'p json_lib \<Rightarrow> gobol_error option \<Rightarrow>
     (('w, 'l) rip \<times> 'z writer, unit) io" where
  "Fail_recovered z lib js gerr =
     io_bind (io_fst (log_or_print z gerr)) (\<lambda>_.
     case gerr of
       None \<Rightarrow> (\<lambda>s. (Panic, s))
     | Some g \<Rightarrow>
         if ge_StatusCode g < 500 \<and> ge_Message g = [] then io_snd (w_WriteHeader (ge_StatusCode g))
         else
           io_bind (io_snd (w_WriteHeader (ge_StatusCode g))) (\<lambda>_.
           io_snd (encode_error lib js None (ge_Message g))))"

definition Fail ::
  "('w, 'l, 'e) zerolog \<Rightarrow> 'z gzip_lib \<Rightarrow> 'p json_lib \<Rightarrow> gobol_error option \<Rightarrow>
     (('w, 'l) rip \<times> 'z writer, unit) io" where
  "Fail z lib js gerr = io_recover (Fail_body z lib js gerr) (Fail_recovered z lib js gerr)"

section \<open>FromJSON\<close>

text \<open>
  A \<open>Validator\<close> of type \<open>'t\<close>: \<open>va_Decode\<close> is \<open>Decode(t)\<close> on a stream (its bytes and the error at its end),
  which returns the error and the value as it left it.
\<close>

record 't validator =
  va_Decode :: "byte list \<times> string option \<Rightarrow> 't \<Rightarrow> string option \<times> 't"
  va_Validate :: "'t \<Rightarrow> gobol_error option"

text \<open>
  The gzip reader on a stream that ends with an error of its own: the reader passes this error on where it would
  have found the end of the stream, be it within the compressed data or behind it.
\<close>

definition gz_reader :: "'z gzip_lib \<Rightarrow> byte list \<times> string option \<Rightarrow> string + (byte list \<times> string option)" where
  "gz_reader lib st =
     (case snd st of
        None \<Rightarrow> gz_decode lib (fst st)
      | Some e \<Rightarrow>
          (let at_end = (\<lambda>err. if err = ''EOF'' \<or> err = ''unexpected EOF'' then e else err)
           in case gz_decode lib (fst st) of
                Inl err \<Rightarrow> Inl (at_end err)
              | Inr (out, None) \<Rightarrow> Inr (out, Some e)
              | Inr (out, Some err) \<Rightarrow> Inr (out, Some (at_end err))))"

text \<open>The error, the value, and whether the body has been closed.\<close>

definition FromJSON ::
  "'z gzip_lib \<Rightarrow> 't validator \<Rightarrow> srv_request \<Rightarrow> 't \<Rightarrow> gobol_error option \<times> 't \<times> bool" where
  "FromJSON lib va r t =
     (if hdr_Get (hr_Header r) ''Content-Encoding'' = ''gzip'' then
        (case gz_reader lib (hr_body r, hr_bodyErr r) of
           Inl err \<Rightarrow> (errUnmarshal ''rip'' ''FromJSON'' (Some err), t, False)
         | Inr reader \<Rightarrow>
             (case va_Decode va reader t of
                (Some err, t) \<Rightarrow> (errUnmarshal ''rip'' ''FromJSON'' (Some err), t, False)
              | (None, t) \<Rightarrow> (va_Validate va t, t, True)))
      else
        (case va_Decode va (hr_body r, hr_bodyErr r) t of
           (Some err, t) \<Rightarrow> (errUnmarshal ''rip'' ''FromJSON'' (Some err), t, False)
         | (None, t) \<Rightarrow> (va_Validate va t, t, True)))"

section \<open>Logging an error\<close>

text \<open>The logger of the package: not set, or made by \<open>SetLogger\<close>.\<close>

definition logger_set :: "('w, 'l) rip \<Rightarrow> bool" where
  "logger_set s \<longleftrightarrow> rp_logger s = Some \<lparr>numKeyValues = 2, keyValues = [''pkg'', ''rip'']\<rparr>"

definition logger_ok :: "('w, 'l) rip \<Rightarrow> bool" where
  "logger_ok s \<longleftrightarrow> rp_logger s = None \<or> logger_set s"

text \<open>An error event would be logged: the logger is set and the event function that is used is enabled.\<close>

definition logs_errors :: "('w, 'l, 'e) zerolog \<Rightarrow> ('w, 'l) rip \<Rightarrow> bool" where
  "logs_errors z s \<longleftrightarrow> rp_logger s \<noteq> None \<and>
     (if rp_logErrorAsDebug s then DebugEnabled (rp_logh s) \<and> Debug z (rp_logh s) \<noteq> None
      else ErrorEnabled (rp_logh s) \<and> Error z (rp_logh s) \<noteq> None)"

lemma SetLogger_logger_set: "SetLogger b s = Ok s' \<Longrightarrow> logger_set s' \<and> rp_logErrorAsDebug s' = b"
  by (auto simp: SetLogger_def CreateContextualLogger_def logger_set_def)

lemma logError_silent: "\<not> logs_errors z s \<Longrightarrow> logError z gerr s = (Ok None, s)"
  by (auto simp: logError_def logs_errors_def log_event_def contextual_defs split: option.splits)

context zerolog_contract
begin

lemma context_event:
  assumes "logger_set s" and "zl_Enabled z ev"
  shows "\<exists>ev'. addContext z (rp_logger s) (Some ev) = Ok (Some ev') \<and> zl_Enabled z ev'"
proof -
  have "CreateContextualLogger [''pkg'', ''rip''] = Ok \<lparr>numKeyValues = 2, keyValues = [''pkg'', ''rip'']\<rparr>"
    by (simp add: CreateContextualLogger_def)
  from addContext_fields [OF this assms(2)] show ?thesis
    using assms(1) by (auto simp: logger_set_def)
qed

lemma error_event:
  assumes "logger_ok s" and "logs_errors z s"
  obtains el ev where "rp_logger s = Some el"
    and "log_event z el s = Ok (Some ev)" and "zl_Enabled z ev"
proof -
  have set: "logger_set s"
    using assms by (auto simp: logger_ok_def logs_errors_def)
  have "\<exists>ev. addContext z (rp_logger s) (Debug z (rp_logh s)) = Ok (Some ev) \<and> zl_Enabled z ev" if "Debug z (rp_logh s) \<noteq> None"
    using that context_event [OF set] by (auto simp: Debug_def if_enabled_def split: if_splits)
  moreover have "\<exists>ev. addContext z (rp_logger s) (Error z (rp_logh s)) = Ok (Some ev) \<and> zl_Enabled z ev" if "Error z (rp_logh s) \<noteq> None"
    using that context_event [OF set] by (auto simp: Error_def if_enabled_def split: if_splits)
  ultimately show thesis
    using assms(2) set that
    by (auto simp: logs_errors_def logger_set_def log_event_def contextual_defs split: if_splits)
qed

text \<open>An error that can print itself is logged and the state of the package is otherwise the same.\<close>

lemma logError_returns:
  assumes "logger_ok s" and "ge_Error g = Ok t"
  shows "\<exists>ev w. logError z (Some g) s = (Ok ev, s\<lparr>rp_logh := (rp_logh s)\<lparr>zworld := w\<rparr>\<rparr>)"
proof (cases "logs_errors z s")
  case True
  then obtain el ev where "rp_logger s = Some el"
    and "log_event z el s = Ok (Some ev)"
    by (rule error_event [OF assms(1)])
  then show ?thesis
    using assms(2) by (auto simp: logError_def Err_text)
next
  case False
  then show ?thesis
    by (simp add: logError_silent) (metis logh.surjective logh.update_convs(1) rip.surjective rip.update_convs(1))
qed

lemma logError_panics:
  assumes "logger_ok s" and "logs_errors z s" and "ge_Error g = Panic"
  shows "logError z (Some g) s = (Panic, s)"
proof -
  obtain el ev where "rp_logger s = Some el"
    and "log_event z el s = Ok (Some ev)" and "zl_Enabled z ev"
    by (rule error_event [OF assms(1,2)])
  then show ?thesis
    using assms(3) by (auto simp: logError_def Err_panic Str_enabled)
qed

lemma log_or_print_returns:
  assumes "logger_ok s" and "ge_Error g = Ok t"
  shows "\<exists>s'. log_or_print z (Some g) s = (Ok (), s')"
  using logError_returns [OF assms]
  by (auto simp: log_or_print_def io_simps split: option.splits)

lemma log_or_print_panics:
  "logger_ok s \<Longrightarrow> logs_errors z s \<Longrightarrow> ge_Error g = Panic \<Longrightarrow> log_or_print z (Some g) s = (Panic, s)"
  by (simp add: log_or_print_def io_simps logError_panics)

end

lemma log_or_print_silent:
  "\<not> logs_errors z s \<Longrightarrow>
     log_or_print z (Some g) s = (Ok (), s\<lparr>rp_println := rp_println s @ [ge_Message g]\<rparr>)"
  by (simp add: log_or_print_def io_simps logError_silent)

section \<open>Writing to a connection\<close>

text \<open>A connection on which nothing has been written and on which any body can be.\<close>

definition fresh :: "conn \<Rightarrow> bool" where
  "fresh c \<longleftrightarrow> cn_wrote c = None \<and> content_length (hdr_Get (cn_header c) ''Content-Length'') = None \<and>
     \<not> cn_broken c \<and> cn_body c = []"

lemma fresh_WriteHeader:
  "cn_wrote c = None \<Longrightarrow> 100 \<le> code \<Longrightarrow> code \<le> 999 \<Longrightarrow>
     w_WriteHeader code (Conn c) = (Ok (), Conn (conn_started code c))"
  by (simp add: w_WriteHeader_def io_simps conn_WriteHeader_def)

lemma started_Write:
  assumes "fresh c" and "body_allowed code" and "b \<noteq> []"
  shows "w_Write lib b (Conn (conn_started code c)) =
    (Ok None, Conn ((conn_started code c)\<lparr>cn_written := cn_written c + length b, cn_body := b\<rparr>))"
  using assms
  by (simp add: w_Write_def io_simps conn_Write_def conn_started_def conn_status_def fresh_def Let_def)

lemma errorJSON_not_Nil [simp]: "errorJSON js err msg \<noteq> []"
  by (simp add: errorJSON_def)

lemma bytes_of_string_Nil_iff [simp]: "bytes_of_string s = [] \<longleftrightarrow> s = []"
  by (simp add: bytes_of_string_def)

lemma encode_error_started:
  assumes "fresh c" and "body_allowed code"
  shows "encode_error lib js err msg (Conn (conn_started code c)) =
    (Ok (), Conn ((conn_started code c)\<lparr>
       cn_written := cn_written c + length (errorJSON js err msg),
       cn_body := bytes_of_string (errorJSON js err msg)\<rparr>))"
  using assms by (simp add: encode_error_def io_simps started_Write)

text \<open>The response to an error: the body is empty for a client error without any text.\<close>

definition error_body :: "'p json_lib \<Rightarrow> int \<Rightarrow> string option \<Rightarrow> string \<Rightarrow> byte list" where
  "error_body js code err msg =
     (if code < 500 \<and> (err = None \<or> err = Some []) \<and> msg = [] then []
      else bytes_of_string (errorJSON js err msg))"

definition responded :: "conn \<Rightarrow> int \<Rightarrow> byte list \<Rightarrow> conn \<Rightarrow> bool" where
  "responded c code b c' \<longleftrightarrow> cn_wrote c' = Some (code, cn_header c) \<and> cn_body c' = b"

lemma respond_plain:
  assumes "fresh c" and "100 \<le> code" and "code \<le> 999"
  shows "\<exists>c'. w_WriteHeader code (Conn c) = (Ok (), Conn c') \<and> responded c code [] c'"
  using assms by (simp add: fresh_WriteHeader fresh_def responded_def conn_started_def)

lemma respond_json:
  assumes "fresh c" and "body_allowed code" and "code \<le> 999"
  shows "\<exists>c'. io_bind (io_snd (w_WriteHeader code)) (\<lambda>_. io_snd (encode_error lib js err msg)) (s, Conn c) =
      (Ok (), (s, Conn c')) \<and> responded c code (bytes_of_string (errorJSON js err msg)) c'"
proof -
  have "cn_wrote c = None" "100 \<le> code"
    using assms by (auto simp: fresh_def body_allowed_def)
  then show ?thesis
    using assms(3) by (simp add: io_bind_def io_snd_def fresh_WriteHeader
        encode_error_started [OF assms(1,2)] responded_def)
qed

section \<open>Properties of Fail\<close>

lemma Fail_body_tail:
  fixes lib :: "'z gzip_lib"
  assumes "fresh c" and "body_allowed (ge_StatusCode g)" and "ge_StatusCode g \<le> 999" and "ge_Error g = Ok t"
    and "log_or_print z (Some g) s = (Ok (), s')"
  shows "\<exists>c'. Fail_body z lib js (Some g) (s, Conn c) = (Ok (), (s', Conn c')) \<and>
    responded c (ge_StatusCode g) (error_body js (ge_StatusCode g) (Some t) (ge_Message g)) c'"
proof -
  have code: "100 \<le> ge_StatusCode g"
    using assms(2) by (simp add: body_allowed_def)
  obtain c1 where plain: "w_WriteHeader (ge_StatusCode g) (Conn c :: 'z writer) = (Ok (), Conn c1)"
      "responded c (ge_StatusCode g) [] c1"
    using respond_plain [OF assms(1) code assms(3)] by blast
  obtain c2 where json:
      "io_bind (io_snd (w_WriteHeader (ge_StatusCode g))) (\<lambda>_. io_snd (encode_error lib js (Some t) (ge_Message g)))
         (s', Conn c) = (Ok (), (s', Conn c2))"
      "responded c (ge_StatusCode g) (bytes_of_string (errorJSON js (Some t) (ge_Message g))) c2"
    using respond_json [OF assms(1-3), of lib js "Some t" "ge_Message g" s'] by blast
  have log: "io_fst (log_or_print z (Some g)) (s, Conn c :: 'z writer) = (Ok (), (s', Conn c))"
    by (rule io_part_eq(1)) (rule assms(5))
  show ?thesis
    using plain json assms(4)
    by (simp add: Fail_body_def io_bind_eq log io_ret_def io_part_eq(2) error_body_def)
qed

lemma Fail_recovered_tail:
  fixes lib :: "'z gzip_lib"
  assumes "fresh c" and "body_allowed (ge_StatusCode g)" and "ge_StatusCode g \<le> 999"
    and "log_or_print z (Some g) s = (Ok (), s')"
  shows "\<exists>c'. Fail_recovered z lib js (Some g) (s, Conn c) = (Ok (), (s', Conn c')) \<and>
    responded c (ge_StatusCode g) (error_body js (ge_StatusCode g) None (ge_Message g)) c'"
proof -
  have code: "100 \<le> ge_StatusCode g"
    using assms(2) by (simp add: body_allowed_def)
  obtain c1 where plain: "w_WriteHeader (ge_StatusCode g) (Conn c :: 'z writer) = (Ok (), Conn c1)"
      "responded c (ge_StatusCode g) [] c1"
    using respond_plain [OF assms(1) code assms(3)] by blast
  obtain c2 where json:
      "io_bind (io_snd (w_WriteHeader (ge_StatusCode g))) (\<lambda>_. io_snd (encode_error lib js None (ge_Message g)))
         (s', Conn c) = (Ok (), (s', Conn c2))"
      "responded c (ge_StatusCode g) (bytes_of_string (errorJSON js None (ge_Message g))) c2"
    using respond_json [OF assms(1-3), of lib js None "ge_Message g" s'] by blast
  have log: "io_fst (log_or_print z (Some g)) (s, Conn c :: 'z writer) = (Ok (), (s', Conn c))"
    by (rule io_part_eq(1)) (rule assms(4))
  show ?thesis
    using plain json
    by (simp add: Fail_recovered_def io_bind_eq log io_part_eq(2) error_body_def)
qed

text \<open>
  C17: On a fresh connection, \<open>Fail\<close> with an error whose \<open>Error()\<close> returns answers with the status code of the
  error, the headers set so far, and the JSON object with the error and the message; the body is empty
  exactly when the code is below 500 and both texts are empty. It returns whether or not logging is
  configured.
\<close>

theorem fail_response:
  assumes "zerolog_contract z glob flds" and "logger_ok s" and "fresh c"
    and "body_allowed (ge_StatusCode g)" and "ge_StatusCode g \<le> 999" and "ge_Error g = Ok t"
  shows "\<exists>s' c'. Fail z lib js (Some g) (s, Conn c) = (Ok (), (s', Conn c')) \<and>
    responded c (ge_StatusCode g) (error_body js (ge_StatusCode g) (Some t) (ge_Message g)) c'"
proof -
  obtain s' where log: "log_or_print z (Some g) s = (Ok (), s')"
    using zerolog_contract.log_or_print_returns [OF assms(1,2,6)] by blast
  show ?thesis
    using Fail_body_tail [OF assms(3-6) log, of lib js] by (auto simp: Fail_def io_recover_def)
qed

text \<open>
  An error without an embedded error, whose \<open>Error()\<close> panics, is answered too as long as errors are not
  logged: \<open>Fail\<close> recovers and sends the status code with the message alone. The message has then been
  printed twice.
\<close>

theorem fail_nil_error_recovered:
  assumes "\<not> logs_errors z s" and "fresh c"
    and "body_allowed (ge_StatusCode g)" and "ge_StatusCode g \<le> 999" and "ge_Error g = Panic"
  shows "\<exists>c'. Fail z lib js (Some g) (s, Conn c) =
      (Ok (), (s\<lparr>rp_println := rp_println s @ [ge_Message g, ge_Message g]\<rparr>, Conn c')) \<and>
    responded c (ge_StatusCode g) (error_body js (ge_StatusCode g) None (ge_Message g)) c'"
proof -
  let ?s1 = "s\<lparr>rp_println := rp_println s @ [ge_Message g]\<rparr>"
  have body: "Fail_body z lib js (Some g) (s, Conn c) = (Panic, (?s1, Conn c))"
    using assms(5) by (simp add: Fail_body_def io_simps log_or_print_silent [OF assms(1)])
  have "\<not> logs_errors z ?s1"
    using assms(1) by (auto simp: logs_errors_def split: if_splits)
  from log_or_print_silent [OF this, of g]
  have "log_or_print z (Some g) ?s1 = (Ok (), s\<lparr>rp_println := rp_println s @ [ge_Message g, ge_Message g]\<rparr>)"
    by simp
  from Fail_recovered_tail [OF assms(2-4) this, of lib js] body show ?thesis
    by (auto simp: Fail_def io_recover_def)
qed

text \<open>
  C32: Once the logger is set and the level of error events is enabled, the same error makes \<open>Fail\<close> itself
  panic: the deferred function logs the error again before it answers, which panics again, so nothing is
  written to the client.
\<close>

theorem fail_nil_error_logged_panics:
  assumes "zerolog_contract z glob flds" and "logger_ok s" and "logs_errors z s" and "ge_Error g = Panic"
  shows "Fail z lib js (Some g) (s, w) = (Panic, (s, w))"
  using zerolog_contract.log_or_print_panics [OF assms]
  by (simp add: Fail_def Fail_body_def Fail_recovered_def io_simps)

text \<open>Concrete values for the witnesses.\<close>

definition rip_example :: "(zl_world, log_writer) rip" where
  "rip_example = \<lparr>rp_logh = ConfigureGlobalLogger zl_std INFO JSON zl_init, rp_logger = None,
     rp_logErrorAsDebug = False, rp_println = []\<rparr>"

definition rip_logging :: "(zl_world, log_writer) rip" where
  "rip_logging = rip_example\<lparr>rp_logger := Some \<lparr>numKeyValues = 2, keyValues = [''pkg'', ''rip'']\<rparr>\<rparr>"

definition js_example :: "string json_lib" where
  "js_example = \<lparr>js_Marshal = (\<lambda>s. Inr (bytes_of_string (''\"'' @ s @ ''\"''))), js_quote = (\<lambda>s. ''\"'' @ s @ ''\"'')\<rparr>"

definition err_example :: "string option \<Rightarrow> gobol_error" where
  "err_example e = as_Error \<lparr>ce_error = e, ce_msg = ''not found'', ce_pkg = ''api'', ce_function = ''Get'', ce_httpCode = 404\<rparr>"

lemma fresh_conn_new: "fresh conn_new"
  by (simp add: fresh_def conn_new_def content_length_def)

lemma err_example_simps [simp]:
  "ge_StatusCode (err_example e) = 404" "ge_Message (err_example e) = ''not found''"
  "ge_Error (err_example (Some t)) = Ok t" "ge_Error (err_example None) = Panic"
  by (simp_all add: err_example_def as_Error_def)

lemma example_logger: "logger_ok rip_example" "\<not> logs_errors z rip_example"
  "logger_ok rip_logging" "logs_errors zl_std rip_logging"
proof -
  show "logger_ok rip_example" "\<not> logs_errors z rip_example" "logger_ok rip_logging"
    by (simp_all add: logger_ok_def logger_set_def logs_errors_def rip_logging_def rip_example_def)
  have "zl_std.at_level (rp_logh rip_logging) InfoLevel"
    using zl_std.configure_at_level [of INFO JSON zl_init]
    by (simp add: rip_logging_def rip_example_def threshold_def level_switch_def)
  then show "logs_errors zl_std rip_logging"
    using zl_std.at_level_events [of "rp_logh rip_logging" InfoLevel]
    by (auto simp: logs_errors_def zl_std.at_level_def rip_logging_def rip_example_def less_eq_zlevel_def)
qed

theorem fail_response_witness:
  "\<exists>s' c'. Fail zl_std stored_lib js_example (Some (err_example (Some ''no such id''))) (rip_logging, Conn conn_new) =
      (Ok (), (s', Conn c')) \<and>
    cn_body c' = bytes_of_string (''{\"error\":\"no such id\",\"message\":\"not found\"}'' @ [CHR 0x0A])"
proof -
  have "body_allowed (ge_StatusCode (err_example (Some ''no such id'')))"
    "ge_StatusCode (err_example (Some ''no such id'')) \<le> 999"
    "ge_Error (err_example (Some ''no such id'')) = Ok ''no such id''"
    by (simp_all add: body_allowed_def)
  from fail_response [OF zl_std.zerolog_contract_axioms example_logger(3) fresh_conn_new this,
      of stored_lib js_example]
  show ?thesis
    by (auto simp: responded_def error_body_def errorJSON_def js_example_def)
qed

theorem fail_nil_error_recovered_witness:
  "\<exists>c'. Fail zl_std stored_lib js_example (Some (err_example None)) (rip_example, Conn conn_new) =
      (Ok (), (rip_example\<lparr>rp_println := [''not found'', ''not found'']\<rparr>, Conn c')) \<and>
    cn_body c' = bytes_of_string (''{\"message\":\"not found\"}'' @ [CHR 0x0A])"
proof -
  have "body_allowed (ge_StatusCode (err_example None))" "ge_StatusCode (err_example None) \<le> 999"
    "ge_Error (err_example None) = Panic"
    by (simp_all add: body_allowed_def)
  from fail_nil_error_recovered [OF example_logger(2) fresh_conn_new this, of zl_std stored_lib js_example]
  show ?thesis
    by (auto simp: responded_def error_body_def errorJSON_def js_example_def rip_example_def)
qed

theorem fail_nil_error_logged_panics_witness:
  "Fail zl_std stored_lib js_example (Some (err_example None)) (rip_logging, Conn conn_new) =
     (Panic, (rip_logging, Conn conn_new))"
  by (rule fail_nil_error_logged_panics [OF zl_std.zerolog_contract_axioms example_logger(3,4)]) simp

text \<open>
  C33: \<open>FromJSON\<close> treats a compressed request like the plain one: a body compressed with gzip and marked
  with \<open>Content-Encoding: gzip\<close> gives the same error, the same decoded value and the same state of the
  body as the original bytes without that header, also when the reading of both bodies ends with the same error.
\<close>

theorem from_json_gzip:
  assumes "gzip_contract lib plain sent opn" and "ZipBytes lib body = Ok zipped"
    and "hdr_Get (hr_Header r) ''Content-Encoding'' = ''gzip''" and "hr_body r = zipped"
    and "hdr_Get (hr_Header r') ''Content-Encoding'' \<noteq> ''gzip''" and "hr_body r' = body" and "hr_bodyErr r' = hr_bodyErr r"
  shows "FromJSON lib va r t = FromJSON lib va r' t"
proof -
  have "gz_decode lib zipped = Inr (body, None)"
    using gzip_contract.zip_ok [OF assms(1), of body] assms(2) by auto
  then show ?thesis
    using assms(3-7) by (cases "hr_bodyErr r") (simp_all add: FromJSON_def gz_reader_def)
qed

definition request_example :: "header \<Rightarrow> byte list \<Rightarrow> srv_request" where
  "request_example h b = \<lparr>hr_Method = ''POST'', hr_Proto = ''HTTP/1.1'', hr_Path = ''/api'', hr_RequestURI = ''/api'',
     hr_Header = h, hr_body = b, hr_bodyErr = None\<rparr>"

theorem from_json_gzip_witness:
  "\<exists>zipped. ZipBytes stored_lib [123, 125] = Ok zipped \<and>
    (\<forall>va t. FromJSON stored_lib va (request_example (hdr_Set ''Content-Encoding'' ''gzip'' []) zipped) (t :: nat) =
      FromJSON stored_lib va (request_example [] [123, 125]) t)"
proof -
  obtain zipped where "ZipBytes stored_lib [123, 125] = Ok zipped"
    using stored.zip_ok by blast
  then show ?thesis
    using from_json_gzip [OF stored.gzip_contract_axioms, of "[123, 125]" zipped
        "request_example (hdr_Set ''Content-Encoding'' ''gzip'' []) zipped" "request_example [] [123, 125]"]
    by (auto simp: request_example_def)
qed

end
