(* ===== verification/Rip_Middleware.thy ===== *)
theory Rip_Middleware
  imports Rip Snitch
begin

text \<open>
  The package \<open>rip\<close>, second part: \<open>src/rip/gzip_middleware.go\<close>, \<open>src/rip/log_middleware.go\<close> and
  \<open>src/rip/router.go\<close>.

  A handler takes the request and the state it works on, the response writer and the map of user tags
  in the request's context, and returns them or panics. The application's handlers are programs: the
  calls they make on the writer, in order, each depending on the results of the calls before. The
  router (\<open>httprouter\<close>) and the CORS handler are parameters.
\<close>

section \<open>Handlers\<close>

text \<open>The value of \<open>statsTagskey\<close> in the context: a \<open>*sync.Map\<close>, if there is one.\<close>

type_synonym tag_ctx = "(string, string) sync_map option"

type_synonym 'z handler = "srv_request \<Rightarrow> 'z writer \<times> tag_ctx \<Rightarrow> (string, 'z writer \<times> tag_ctx) res"

text \<open>
  The calls of an application's handler: it may edit the headers, choose a status, write, add tags, end or
  panic.
\<close>

datatype prog =
    Finish
  | Abort
  | CallHeader "header \<Rightarrow> header" prog
  | CallWriteHeader int prog
  | CallWrite "byte list" "int \<times> string option \<Rightarrow> prog"
  | CallAddStatsMap tag_list prog

text \<open>\<open>AddStatsMap\<close>: without a map in the context the tags are ignored.\<close>

definition AddStatsMap :: "tag_list \<Rightarrow> tag_ctx \<Rightarrow> tag_ctx" where
  "AddStatsMap tags ctx =
     (case ctx of Some m \<Rightarrow> Some (fold (\<lambda>(k, v). sm_store k v) tags m) | None \<Rightarrow> None)"

primrec run_prog :: "'z gzip_lib \<Rightarrow> prog \<Rightarrow> 'z writer \<times> tag_ctx \<Rightarrow> (string, 'z writer \<times> tag_ctx) res" where
  "run_prog lib Finish st = Ok st"
| "run_prog lib Abort st = Panic"
| "run_prog lib (CallHeader f p) st = run_prog lib p (edit_header f (fst st), snd st)"
| "run_prog lib (CallWriteHeader s p) st =
     res_bind (WriteHeader s (fst st)) (\<lambda>w. run_prog lib p (w, snd st))"
| "run_prog lib (CallWrite b k) st =
     res_bind (Write lib b (fst st)) (\<lambda>(r, w). run_prog lib (k r) (w, snd st))"
| "run_prog lib (CallAddStatsMap tags p) st = run_prog lib p (fst st, AddStatsMap tags (snd st))"

section \<open>gzip_middleware.go\<close>

record 'z GzipHandler =
  gh_pool :: "'z list"
  gh_level :: int
  gh_next :: "'z handler"

definition NewGzipMiddleware :: "int \<Rightarrow> 'z handler \<Rightarrow> 'z GzipHandler" where
  "NewGzipMiddleware level nxt = \<lparr>gh_pool = [], gh_level = level, gh_next = nxt\<rparr>"

text \<open>
  \<open>pool.Get\<close>: a pooled writer or a new one; the function \<open>New\<close> panics on an invalid level. A handler that
  panics leaves the pool without its writer, as \<open>sync.Pool\<close> may drop a writer at any time.
\<close>

definition pool_Get :: "'z gzip_lib \<Rightarrow> 'z GzipHandler \<Rightarrow> (string, 'z \<times> 'z list) res" where
  "pool_Get lib h =
     (case gh_pool h of
        z # zs \<Rightarrow> Ok (z, zs)
      | [] \<Rightarrow> (case gz_NewWriterLevel lib (gh_level h) of Some z \<Rightarrow> Ok (z, []) | None \<Rightarrow> Panic))"

definition contains :: "string \<Rightarrow> string \<Rightarrow> bool" where
  "contains s sub \<longleftrightarrow> (\<exists>i\<in>set [0..<Suc (length s)]. take (length sub) (drop i s) = sub)"

text \<open>\<open>gz.Close()\<close>, whose error is ignored; a writer that has failed writes nothing.\<close>

definition gzip_finish :: "'z gzip_lib \<Rightarrow> 'z writer \<Rightarrow> 'z \<Rightarrow> string option \<Rightarrow> (string, 'z writer) res" where
  "gzip_finish lib w gz e =
     (case e of
        Some _ \<Rightarrow> Ok w
      | None \<Rightarrow>
          (case gz_Close lib gz of
             Ok out \<Rightarrow> res_bind (Write lib out w) (\<lambda>(_, w). Ok w)
           | Err _ \<Rightarrow> Ok w
           | Panic \<Rightarrow> Panic))"

definition gzip_passes :: "srv_request \<Rightarrow> 'z writer \<Rightarrow> bool" where
  "gzip_passes r w \<longleftrightarrow>
     \<not> contains (hdr_Get (hr_Header r) ''Accept-Encoding'') ''gzip'' \<or>
     hdr_Get (hr_Header r) ''Sec-WebSocket-Key'' \<noteq> [] \<or>
     hdr_Get (Header w) ''Content-Encoding'' = ''gzip''"

definition GzipHandler_ServeHTTP ::
  "'z gzip_lib \<Rightarrow> 'z GzipHandler \<Rightarrow> srv_request \<Rightarrow> 'z writer \<times> tag_ctx \<Rightarrow>
     (string, 'z GzipHandler \<times> 'z writer \<times> tag_ctx) res" where
  "GzipHandler_ServeHTTP lib h r st =
     (if gzip_passes r (fst st) then res_bind (gh_next h r st) (\<lambda>st. Ok (h, st))
      else
        res_bind (pool_Get lib h) (\<lambda>(gz, pool).
        let w = edit_header (hdr_Set ''Content-Encoding'' ''gzip'') (fst st);
            w = edit_header (hdr_Set ''Vary'' ''Accept-Encoding'') w in
        res_bind (gh_next h r (GzipResponseWriter w (gz_Reset lib gz) None, snd st)) (\<lambda>(gzw, ctx).
        case gzw of
          GzipResponseWriter w gz e \<Rightarrow>
            res_bind (gzip_finish lib (edit_header (hdr_Del ''Content-Length'') w) gz e) (\<lambda>w.
            Ok (h\<lparr>gh_pool := gz # pool\<rparr>, w, ctx))
        | _ \<Rightarrow> Panic)))"

section \<open>router.go\<close>

text \<open>
  \<open>httprouter\<close> finds the handler of a method and a path (a parameter \<open>routes\<close>), or says whether the path
  is known under another method; the two handlers that \<open>NewCustomRouter\<close> installs answer those cases.
\<close>

datatype route = Found prog | OtherMethod | Unknown

definition MethodNotAllowed :: prog where
  "MethodNotAllowed = CallWriteHeader 405 Finish"

definition NotFound :: prog where
  "NotFound = CallWriteHeader 404 Finish"

definition NewCustomRouter :: "(srv_request \<Rightarrow> route) \<Rightarrow> srv_request \<Rightarrow> prog" where
  "NewCustomRouter routes r =
     (case routes r of Found p \<Rightarrow> p | OtherMethod \<Rightarrow> MethodNotAllowed | Unknown \<Rightarrow> NotFound)"

section \<open>log_middleware.go\<close>

record 'z LogHandler =
  lh_service :: string
  lh_system :: string
  lh_next :: "'z handler"
  lh_allowCORS :: bool
  lh_connectionStatsTags :: tag_list

definition NewLogMiddleware ::
  "('z handler \<Rightarrow> 'z handler) \<Rightarrow> string \<Rightarrow> string \<Rightarrow> 'z handler \<Rightarrow> bool \<Rightarrow> 'z LogHandler" where
  "NewLogMiddleware cors service system nxt allowCORS =
     \<lparr>lh_service = service, lh_system = system, lh_next = (if allowCORS then cors nxt else nxt),
      lh_allowCORS = allowCORS, lh_connectionStatsTags = [(''type'', ''tcp''), (''source'', ''http'')]\<rparr>"

text \<open>The state of the statistics and of the package's loggers.\<close>

type_synonym ('w, 'l) mw_state = "Stats \<times> ('w, 'l) rip"

text \<open>
  \<open>logger.Error().Str(...).Err(err).Send()\<close> under \<open>logh.ErrorEnabled\<close>; a logger that was not set is a nil
  pointer.
\<close>

definition send_error ::
  "('w, 'l, 'e) zerolog \<Rightarrow> (string \<times> string) list \<Rightarrow> string \<Rightarrow> (('w, 'l) rip, unit) io" where
  "send_error z flds err s =
     (if ErrorEnabled (rp_logh s) then
        (case ContextualLogger_Error z (rp_logger s) (rp_logh s) of
           Ok (Some ev) \<Rightarrow>
             (case zl_Err z (Ok err) (fold (\<lambda>(k, v). zl_Str z k v) flds ev) of
                Ok ev \<Rightarrow> (Ok (), s\<lparr>rp_logh := (rp_logh s)\<lparr>zworld := zl_Msg z [] ev (zworld (rp_logh s))\<rparr>\<rparr>)
              | Err e \<Rightarrow> (Err e, s)
              | Panic \<Rightarrow> (Panic, s))
         | Ok None \<Rightarrow> (Ok (), s)
         | Err e \<Rightarrow> (Err e, s)
         | Panic \<Rightarrow> (Panic, s))
      else (Ok (), s))"

definition increment ::
  "('w, 'l, 'e) zerolog \<Rightarrow> (string \<Rightarrow> string option) \<Rightarrow> string \<Rightarrow> tag_list \<Rightarrow> (('w, 'l) mw_state, unit) io" where
  "increment z parse metric tags st =
     (case Increment parse metric tags ''@every 1m'' False True (fst st) of
        (None, stats) \<Rightarrow> (Ok (), (stats, snd st))
      | (Some err, stats) \<Rightarrow>
          io_bind (io_snd (logError z (Some (as_Error \<lparr>ce_error = None, ce_msg = err, ce_pkg = ''log_middleware'',
             ce_function = ''increment'', ce_httpCode = 0\<rparr>)))) (\<lambda>_. io_ret ()) (stats, snd st))"

definition valueAdd ::
  "('w, 'l, 'e) zerolog \<Rightarrow> (string \<Rightarrow> string option) \<Rightarrow> string \<Rightarrow> tag_list \<Rightarrow> float64 \<Rightarrow>
     (('w, 'l) mw_state, unit) io" where
  "valueAdd z parse metric tags v st =
     (case stats_ValueAdd parse metric tags ''avg'' ''@every 1m'' False False v (fst st) of
        (None, stats) \<Rightarrow> (Ok (), (stats, snd st))
      | (Some err, stats) \<Rightarrow>
          io_snd (send_error z [(''metric'', metric), (''pkg'', ''log_middleware''), (''func'', ''valueAdd'')] err)
            (stats, snd st))"

definition incrementHTTPConn ::
  "('w, 'l, 'e) zerolog \<Rightarrow> (string \<Rightarrow> string option) \<Rightarrow> 'z LogHandler \<Rightarrow> (('w, 'l) mw_state, unit) io" where
  "incrementHTTPConn z parse h st =
     (case Increment parse ''network.connection'' (lh_connectionStatsTags h) ''@every 10s'' False True (fst st) of
        (None, stats) \<Rightarrow> (Ok (), (stats, snd st))
      | (Some err, stats) \<Rightarrow>
          io_snd (send_error z [(''pkg'', ''log_middleware''), (''func'', ''incrementHTTPConn'')] err) (stats, snd st))"

definition request_id_header :: "string \<Rightarrow> string" where
  "request_id_header name = ''X-REQUEST-'' @ name @ ''-ID''"

definition add_request_ids :: "'z LogHandler \<Rightarrow> string \<Rightarrow> header \<Rightarrow> header" where
  "add_request_ids h rid hs =
     (let hs = hdr_Add (request_id_header (lh_service h)) rid hs
      in if hdr_Get hs (request_id_header (lh_system h)) = []
         then hdr_Add (request_id_header (lh_system h)) rid hs else hs)"

text \<open>The tags of a request: those of the user replace the ones of the handler.\<close>

definition request_tags :: "srv_request \<Rightarrow> int \<Rightarrow> (string, string) sync_map \<Rightarrow> tag_list" where
  "request_tags r status user =
     (let tags = [(''protocol'', hr_Proto r), (''method'', hr_Method r), (''status'', itoa status)];
          tags = (if status \<noteq> 404 \<and> status \<noteq> 405 then AList.update ''path'' (hr_Path r) tags else tags)
      in sm_range (\<lambda>k v tags. (AList.update k v tags, True)) user tags)"

text \<open>
  \<open>ServeHTTP\<close> for a request that gets the id \<open>rid\<close> and takes \<open>d\<close> nanoseconds. The goroutine of
  \<open>incrementHTTPConn\<close> is a step of its own (\<open>serve_all\<close>). The next handler works in a new context with an empty map.
\<close>

definition LogHandler_ServeHTTP ::
  "('w, 'l, 'e) zerolog \<Rightarrow> (string \<Rightarrow> string option) \<Rightarrow> 'z LogHandler \<Rightarrow> string \<Rightarrow> int \<Rightarrow> srv_request \<Rightarrow>
     'z writer \<Rightarrow> ('w, 'l) mw_state \<Rightarrow> (string, 'z writer) res \<times> ('w, 'l) mw_state" where
  "LogHandler_ServeHTTP z parse h rid d r w st =
     (case lh_next h r (LogResponseWriter (edit_header (add_request_ids h rid) w) 0 0, Some sm_empty) of
        Ok (LogResponseWriter w status sz, ctx) \<Rightarrow>
          (let tags = request_tags r status (case ctx of Some m \<Rightarrow> m | None \<Rightarrow> sm_empty)
           in io_bind (increment z parse ''request.count'' tags) (\<lambda>_.
              io_bind (valueAdd z parse ''request.duration'' tags (f64_div (f64_of_int d) (f64_of_int 1000000))) (\<lambda>_.
              io_ret w)) st)
      | Ok _ \<Rightarrow> (Panic, st)
      | Err e \<Rightarrow> (Err e, st)
      | Panic \<Rightarrow> (Panic, st))"

section \<open>The compressed response\<close>

text \<open>
  A handler whose statuses allow a body and that never declares a \<open>Content-Length\<close>.
\<close>

primrec body_prog :: "prog \<Rightarrow> bool" where
  "body_prog Finish = True"
| "body_prog Abort = True"
| "body_prog (CallHeader f p) =
     ((\<forall>h. hdr_Get h ''Content-Length'' = [] \<longrightarrow> hdr_Get (f h) ''Content-Length'' = []) \<and> body_prog p)"
| "body_prog (CallWriteHeader s p) = (body_allowed s \<and> s \<le> 999 \<and> body_prog p)"
| "body_prog (CallWrite b k) = (\<forall>r. body_prog (k r))"
| "body_prog (CallAddStatsMap tags p) = body_prog p"

text \<open>The state of a connection on which every write succeeds.\<close>

definition writable :: "conn \<Rightarrow> bool" where
  "writable c \<longleftrightarrow> \<not> cn_broken c \<and> hdr_Get (cn_header c) ''Content-Length'' = [] \<and>
     (case cn_wrote c of Some (s, _) \<Rightarrow> body_allowed s \<and> cn_length c = None | None \<Rightarrow> cn_body c = [])"

lemma content_length_Nil [simp]: "content_length [] = None"
  by (simp add: content_length_def)

lemma body_allowed_200 [simp]: "body_allowed 200"
  by (simp add: body_allowed_def)

lemma writable_header:
  "writable c \<Longrightarrow> (hdr_Get (cn_header c) ''Content-Length'' = [] \<Longrightarrow> hdr_Get (f (cn_header c)) ''Content-Length'' = []) \<Longrightarrow>
     writable (c\<lparr>cn_header := f (cn_header c)\<rparr>)"
  by (auto simp: writable_def split: option.splits)

lemma conn_status_header [simp]: "conn_status (c\<lparr>cn_header := h\<rparr>) = conn_status c"
  by (simp add: conn_status_def)

lemma writable_WriteHeader:
  assumes "writable c" and "body_allowed s" and "s \<le> 999"
  shows "\<exists>c'. conn_WriteHeader s c = Ok c' \<and> writable c' \<and> cn_body c' = cn_body c \<and>
    cn_wrote c' \<noteq> None \<and> conn_status c' = (if cn_wrote c = None then s else conn_status c)"
  using assms
  by (auto simp: conn_WriteHeader_def writable_def conn_started_def body_allowed_def conn_status_def
      split: option.splits)

lemma writable_Write:
  assumes "writable c"
  shows "\<exists>c'. conn_Write b c = ((length b, None), c') \<and> writable c' \<and> cn_body c' = cn_body c @ b \<and>
    cn_wrote c' \<noteq> None \<and> conn_status c' = conn_status c"
  using assms
  by (auto simp: conn_Write_def writable_def conn_started_def conn_status_def Let_def split: option.splits)

context gzip_contract
begin

text \<open>
  The simulation: a plain connection, and a compressing writer over another one, after the same calls.
\<close>

definition gzip_sim :: "conn \<Rightarrow> 'z writer \<Rightarrow> bool" where
  "gzip_sim cp w \<longleftrightarrow> (\<exists>cz gz. w = GzipResponseWriter (Conn cz) gz None \<and> inv gz \<and> writable cp \<and> writable cz \<and>
     plain gz = cn_body cp \<and> sent gz = cn_body cz \<and> conn_status cz = conn_status cp \<and>
     (cn_wrote cz = None) = (cn_wrote cp = None))"

lemma sim_WriteHeader:
  assumes "gzip_sim cp w" and "body_allowed s" and "s \<le> 999"
  shows "\<exists>cp' w'. conn_WriteHeader s cp = Ok cp' \<and> WriteHeader s w = Ok w' \<and> gzip_sim cp' w'"
proof -
  obtain cz gz where w: "w = GzipResponseWriter (Conn cz) gz None" "inv gz" "writable cp" "writable cz"
      "plain gz = cn_body cp" "sent gz = cn_body cz" "conn_status cz = conn_status cp"
      "(cn_wrote cz = None) = (cn_wrote cp = None)"
    using assms(1) by (auto simp: gzip_sim_def)
  show ?thesis
    using writable_WriteHeader [OF w(3) assms(2,3)] writable_WriteHeader [OF w(4) assms(2,3)] w
    by (auto simp: gzip_sim_def)
qed

lemma sim_Write:
  assumes "gzip_sim cp w"
  shows "\<exists>cp' w'. conn_Write b cp = ((length b, None), cp') \<and>
    Write lib b w = Ok ((int (length b), None), w') \<and> gzip_sim cp' w'"
proof -
  obtain cz gz where w: "w = GzipResponseWriter (Conn cz) gz None" "inv gz" "writable cp" "writable cz"
      "plain gz = cn_body cp" "sent gz = cn_body cz" "conn_status cz = conn_status cp"
      "(cn_wrote cz = None) = (cn_wrote cp = None)"
    using assms(1) by (auto simp: gzip_sim_def)
  obtain out gz' where gz: "gz_Write lib b gz = Ok (out, gz')" "inv gz'" "plain gz' = plain gz @ b"
      "sent gz' = sent gz @ out" "sent gz' \<noteq> []"
    using write_ok [OF w(2)] by blast
  obtain cp' where cp': "conn_Write b cp = ((length b, None), cp')" "writable cp'"
      "cn_body cp' = cn_body cp @ b" "cn_wrote cp' \<noteq> None" "conn_status cp' = conn_status cp"
    using writable_Write [OF w(3)] by blast
  obtain cz' where cz': "conn_Write out cz = ((length out, None), cz')" "writable cz'"
      "cn_body cz' = cn_body cz @ out" "cn_wrote cz' \<noteq> None" "conn_status cz' = conn_status cz"
    using writable_Write [OF w(4)] by blast
  show ?thesis
  proof (cases "out = []")
    case True
    then have "cn_wrote cz \<noteq> None"
      using gz(4,5) w(4,6) by (auto simp: writable_def split: option.splits)
    with True show ?thesis
      using w gz cp' by (auto simp: gzip_sim_def)
  next
    case False
    then show ?thesis
      using w gz cp' cz' by (auto simp: gzip_sim_def)
  qed
qed

lemma sim_header:
  assumes "gzip_sim cp w" and "\<And>h. hdr_Get h ''Content-Length'' = [] \<Longrightarrow> hdr_Get (f h) ''Content-Length'' = []"
  shows "gzip_sim (cp\<lparr>cn_header := f (cn_header cp)\<rparr>) (edit_header f w)"
  using assms by (auto simp: gzip_sim_def intro!: writable_header)

lemma sim_run:
  assumes "body_prog p" and "gzip_sim cp w"
  shows "case run_prog lib p (Conn cp, ctx) of
      Ok (w', ctx') \<Rightarrow> \<exists>cp' wz. w' = Conn cp' \<and> run_prog lib p (w, ctx) = Ok (wz, ctx') \<and> gzip_sim cp' wz
    | Err e \<Rightarrow> False
    | Panic \<Rightarrow> run_prog lib p (w, ctx) = Panic"
  using assms
proof (induction p arbitrary: cp w ctx)
  case (CallHeader f p)
  then show ?case
    using CallHeader.IH [OF _ sim_header [OF CallHeader.prems(2)], of f ctx]
    by (auto split: res.splits)
next
  case (CallWriteHeader s p)
  then obtain cp' w' where "conn_WriteHeader s cp = Ok cp'" "WriteHeader s w = Ok w'" "gzip_sim cp' w'"
    using sim_WriteHeader [of cp w s] by auto
  then show ?case
    using CallWriteHeader.IH [of cp' w' ctx] CallWriteHeader.prems(1) by (auto split: res.splits)
next
  case (CallWrite b k)
  then obtain cp' w' where "conn_Write b cp = ((length b, None), cp')"
      "Write lib b w = Ok ((int (length b), None), w')" "gzip_sim cp' w'"
    using sim_Write [of cp w b] by auto
  then show ?case
    using CallWrite.IH [of "k (int (length b), None)" cp' w' ctx] CallWrite.prems(1)
    by (auto split: res.splits)
next
  case (CallAddStatsMap tags p)
  have "body_prog p"
    using CallAddStatsMap.prems(1) by simp
  from CallAddStatsMap.IH [OF this CallAddStatsMap.prems(2), of "AddStatsMap tags ctx"] show ?case
    by (auto split: res.splits)
qed auto

lemma sim_finish:
  assumes "gzip_sim cp w"
  obtains cz gz c' where "w = GzipResponseWriter (Conn cz) gz None"
    and "gzip_finish lib (edit_header (hdr_Del ''Content-Length'') (Conn cz)) gz None = Ok (Conn c')"
    and "gz_decode lib (cn_body c') = Inr (cn_body cp, None)"
    and "conn_status c' = conn_status cp" and "cn_wrote c' \<noteq> None"
proof -
  obtain cz gz where w: "w = GzipResponseWriter (Conn cz) gz None" "inv gz" "writable cz"
      "plain gz = cn_body cp" "sent gz = cn_body cz" "conn_status cz = conn_status cp"
    using assms(1) by (auto simp: gzip_sim_def)
  obtain out where out: "gz_Close lib gz = Ok out" "gz_decode lib (sent gz @ out) = Inr (plain gz, None)"
    using close_ok [OF w(2)] by blast
  let ?cz = "cz\<lparr>cn_header := hdr_Del ''Content-Length'' (cn_header cz)\<rparr>"
  have "writable ?cz"
    using w(3) by (auto simp: writable_def split: option.splits)
  from writable_Write [OF this, of out] obtain c' where c': "conn_Write out ?cz = ((length out, None), c')"
      "cn_body c' = cn_body cz @ out" "cn_wrote c' \<noteq> None" "conn_status c' = conn_status cz"
    by (auto simp: conn_status_def)
  show thesis
    using w out c' by (intro that [of cz gz c']) (auto simp: gzip_finish_def)
qed

lemma sim_returns:
  "body_prog p \<Longrightarrow> gzip_sim cp w \<Longrightarrow> run_prog lib p (Conn cp, ctx) = Ok (Conn cp', ctx') \<Longrightarrow>
     \<exists>wz. run_prog lib p (w, ctx) = Ok (wz, ctx') \<and> gzip_sim cp' wz"
  using sim_run [of p cp w ctx] by auto

end

lemma gzip_serve:
  fixes lib :: "'z gzip_lib"
  assumes "\<not> gzip_passes r (Conn c :: 'z writer)" and "pool_Get lib h = Ok (gz, pool)"
    and "gh_next h r (GzipResponseWriter (Conn (c\<lparr>cn_header :=
        hdr_Set ''Vary'' ''Accept-Encoding'' (hdr_Set ''Content-Encoding'' ''gzip'' (cn_header c))\<rparr>)) (gz_Reset lib gz) None, ctx)
      = Ok (GzipResponseWriter w gz' e, ctx')"
    and "gzip_finish lib (edit_header (hdr_Del ''Content-Length'') w) gz' e = Ok w'"
  shows "GzipHandler_ServeHTTP lib h r (Conn c, ctx) = Ok (h\<lparr>gh_pool := gz' # pool\<rparr>, w', ctx')"
  using assms by (simp add: GzipHandler_ServeHTTP_def Let_def)

text \<open>
  C16: Compression does not change what a client sees. For a handler whose statuses allow a body and that
  declares no length, on a connection where nothing has been written: if it returns on the plain
  connection, then it returns behind the gzip middleware, the status is the same, and the body
  decompresses to exactly the plain body.
\<close>

theorem gzip_transparent:
  fixes lib :: "'z gzip_lib"
  assumes "gzip_contract lib plain sent opn" and "\<not> gzip_passes r (Conn c :: 'z writer)"
    and "pool_Get lib h = Ok (gz, pool)" and "gh_next h r = run_prog lib p" and "body_prog p"
    and "writable c" and "cn_wrote c = None"
    and "run_prog lib p (Conn c, ctx) = Ok (Conn cp, ctx')"
  shows "\<exists>h' cz. GzipHandler_ServeHTTP lib h r (Conn c, ctx) = Ok (h', Conn cz, ctx') \<and>
    conn_status cz = conn_status cp \<and> gz_decode lib (cn_body cz) = Inr (cn_body cp, None)"
proof -
  let ?f = "\<lambda>hd. hdr_Set ''Vary'' ''Accept-Encoding'' (hdr_Set ''Content-Encoding'' ''gzip'' hd)"
  let ?c1 = "c\<lparr>cn_header := ?f (cn_header c)\<rparr>"
  let ?w = "GzipResponseWriter (Conn ?c1) (gz_Reset lib gz) None"
  have "writable ?c1"
    using assms(6) by (rule writable_header [where f = ?f]) (simp add: canon_def token_char_def lower_def upper_def)
  then have "gzip_contract.gzip_sim plain sent opn c ?w"
    using assms(6,7) gzip_contract.reset_ok [OF assms(1)]
    by (auto simp: gzip_contract.gzip_sim_def [OF assms(1)] writable_def split: option.splits)
  from gzip_contract.sim_returns [OF assms(1,5) this assms(8)] obtain wz where
    wz: "run_prog lib p (?w, ctx) = Ok (wz, ctx')" "gzip_contract.gzip_sim plain sent opn cp wz"
    by blast
  obtain cz gz' c' where fin: "wz = GzipResponseWriter (Conn cz) gz' None"
      "gzip_finish lib (edit_header (hdr_Del ''Content-Length'') (Conn cz)) gz' None = Ok (Conn c')"
      "gz_decode lib (cn_body c') = Inr (cn_body cp, None)" "conn_status c' = conn_status cp"
    using gzip_contract.sim_finish [OF assms(1) wz(2)] by metis
  have "GzipHandler_ServeHTTP lib h r (Conn c, ctx) = Ok (h\<lparr>gh_pool := gz' # pool\<rparr>, Conn c', ctx')"
    using wz(1) fin(1,2) by (intro gzip_serve [OF assms(2,3)]) (auto simp: assms(4))
  with fin(3,4) show ?thesis by blast
qed

text \<open>Once the status line is fixed no call of a handler changes it, behind any wrappers.\<close>

lemma WriteHeader_fixed:
  "cn_wrote (the_conn w) = Some sh \<Longrightarrow> WriteHeader s w = Ok w' \<Longrightarrow> cn_wrote (the_conn w') = Some sh"
  by (induction w arbitrary: w') (auto simp: res_bind_Ok_iff conn_fixed)

lemma Write_fixed:
  "cn_wrote (the_conn w) = Some sh \<Longrightarrow> Write lib b w = Ok (r, w') \<Longrightarrow> cn_wrote (the_conn w') = Some sh"
proof (induction w arbitrary: b r w')
  case (Conn c)
  then show ?case
    using conn_fixed(2) [of c sh b] by (auto split: prod.splits)
next
  case (GzipResponseWriter w gz e)
  from GzipResponseWriter.prems show ?case
    by (auto split: option.splits res.splits prod.splits if_splits intro: GzipResponseWriter.IH)
next
  case (LogResponseWriter w st sz)
  from LogResponseWriter.prems show ?case
    by (auto split: res.splits prod.splits intro: LogResponseWriter.IH)
qed

lemma run_fixed:
  "cn_wrote (the_conn (fst st)) = Some sh \<Longrightarrow> run_prog lib p st = Ok st' \<Longrightarrow>
     cn_wrote (the_conn (fst st')) = Some sh"
proof (induction p arbitrary: st)
  case (CallHeader f p)
  from CallHeader.prems show ?case
    by (intro CallHeader.IH [of "(edit_header f (fst st), snd st)"]) auto
next
  case (CallWriteHeader s p)
  from CallWriteHeader.prems(2) obtain w where
    w: "WriteHeader s (fst st) = Ok w" "run_prog lib p (w, snd st) = Ok st'"
    by (auto simp: res_bind_Ok_iff)
  show ?case
    using CallWriteHeader.IH [OF _ w(2)] WriteHeader_fixed [OF CallWriteHeader.prems(1) w(1)] by simp
next
  case (CallWrite b k)
  from CallWrite.prems(2) obtain r w where
    w: "Write lib b (fst st) = Ok (r, w)" "run_prog lib (k r) (w, snd st) = Ok st'"
    by (auto simp: res_bind_Ok_iff)
  show ?case
    using CallWrite.IH [OF _ _ w(2)] Write_fixed [OF CallWrite.prems(1) w(1)] by simp
next
  case (CallAddStatsMap tags p)
  from CallAddStatsMap.prems show ?case
    by (intro CallAddStatsMap.IH [of "(fst st, AddStatsMap tags (snd st))"]) auto
qed auto

lemma gzip_finish_fixed:
  "cn_wrote (the_conn w) = Some sh \<Longrightarrow> gzip_finish lib w gz e = Ok w' \<Longrightarrow> cn_wrote (the_conn w') = Some sh"
  by (auto simp: gzip_finish_def res_bind_Ok_iff dest: Write_fixed split: option.splits res.splits)

lemma gzip_serve_inv:
  assumes "\<not> gzip_passes r w" and "GzipHandler_ServeHTTP lib h r (w, ctx) = Ok (h', w', ctx')"
  obtains gz pool w1 gz1 e where "pool_Get lib h = Ok (gz, pool)"
    and "gh_next h r (GzipResponseWriter (edit_header (hdr_Set ''Vary'' ''Accept-Encoding'')
        (edit_header (hdr_Set ''Content-Encoding'' ''gzip'') w)) (gz_Reset lib gz) None, ctx) =
      Ok (GzipResponseWriter w1 gz1 e, ctx')"
    and "gzip_finish lib (edit_header (hdr_Del ''Content-Length'') w1) gz1 e = Ok w'"
proof -
  obtain gz pool gzw ctx1 where gzw: "pool_Get lib h = Ok (gz, pool)"
      "gh_next h r (GzipResponseWriter (edit_header (hdr_Set ''Vary'' ''Accept-Encoding'')
        (edit_header (hdr_Set ''Content-Encoding'' ''gzip'') w)) (gz_Reset lib gz) None, ctx) = Ok (gzw, ctx1)"
      "(case gzw of GzipResponseWriter w gz e \<Rightarrow>
          res_bind (gzip_finish lib (edit_header (hdr_Del ''Content-Length'') w) gz e)
            (\<lambda>w. Ok (h\<lparr>gh_pool := gz # pool\<rparr>, w, ctx1))
        | _ \<Rightarrow> Panic) = Ok (h', w', ctx')"
    using assms by (auto simp: GzipHandler_ServeHTTP_def Let_def res_bind_Ok_iff)
  then show thesis
    using that by (cases gzw) (auto simp: res_bind_Ok_iff)
qed

text \<open>
  A \<open>Content-Length\<close> that the handler sets before it fixes the status is sent as it is with the compressed
  body: the middleware deletes the header only after the handler has returned, when the headers have gone.
\<close>

theorem gzip_declared_length_kept:
  fixes lib :: "'z gzip_lib"
  assumes "\<not> gzip_passes r (Conn c :: 'z writer)" and "cn_wrote c = None" and "100 \<le> code" and "code \<le> 999"
    and "gh_next h r = run_prog lib (CallHeader (hdr_Set ''Content-Length'' n) (CallWriteHeader code p))"
    and "GzipHandler_ServeHTTP lib h r (Conn c, ctx) = Ok (h', w', ctx')"
  shows "\<exists>hs. cn_wrote (the_conn w') = Some (code, hs) \<and> hdr_Get hs ''Content-Length'' = n \<and>
    hdr_Get hs ''Content-Encoding'' = ''gzip''"
proof -
  obtain gz pool w1 gz1 e where run:
      "gh_next h r (GzipResponseWriter (edit_header (hdr_Set ''Vary'' ''Accept-Encoding'')
        (edit_header (hdr_Set ''Content-Encoding'' ''gzip'') (Conn c))) (gz_Reset lib gz) None, ctx) =
        Ok (GzipResponseWriter w1 gz1 e, ctx')"
      "gzip_finish lib (edit_header (hdr_Del ''Content-Length'') w1) gz1 e = Ok w'"
    by (rule gzip_serve_inv [OF assms(1,6)])
  let ?hs = "hdr_Set ''Content-Length'' n (hdr_Set ''Vary'' ''Accept-Encoding''
      (hdr_Set ''Content-Encoding'' ''gzip'' (cn_header c)))"
  have "cn_wrote (the_conn w1) = Some (code, ?hs)"
  proof -
    have "run_prog lib p (GzipResponseWriter (Conn (conn_started code (c\<lparr>cn_header := ?hs\<rparr>))) (gz_Reset lib gz) None, ctx) =
        Ok (GzipResponseWriter w1 gz1 e, ctx')"
      using run(1) assms(2-4) by (simp add: assms(5) conn_WriteHeader_def)
    from run_fixed [OF _ this, of "(code, ?hs)"] show ?thesis
      by simp
  qed
  then have "cn_wrote (the_conn w') = Some (code, ?hs)"
    using gzip_finish_fixed [OF _ run(2), of "(code, ?hs)"] by simp
  then show ?thesis
    by (simp add: canon_def token_char_def lower_def upper_def)
qed

definition gzip_request :: srv_request where
  "gzip_request = request_example (hdr_Set ''Accept-Encoding'' ''gzip'' []) []"

lemma gzip_request_compressed: "\<not> gzip_passes gzip_request (Conn conn_new :: 'z writer)"
  by (simp add: gzip_passes_def gzip_request_def request_example_def conn_new_def contains_def canon_def
      token_char_def upper_def lower_def)

lemma conn_new_writable: "writable conn_new" "cn_wrote conn_new = None" "cn_header conn_new = []"
  by (simp_all add: writable_def conn_new_def)

definition gzip_example :: "prog \<Rightarrow> stored_writer GzipHandler" where
  "gzip_example p = NewGzipMiddleware 6 (\<lambda>r. run_prog stored_lib p)"

lemma gzip_example_simps:
  "pool_Get stored_lib (gzip_example p) = Ok (sw_new, [])" "gh_next (gzip_example p) r = run_prog stored_lib p"
  by (simp_all add: pool_Get_def gzip_example_def NewGzipMiddleware_def stored_lib_def)

theorem gzip_transparent_witness:
  "\<exists>h' cz. GzipHandler_ServeHTTP stored_lib (gzip_example (CallWriteHeader 201 (CallWrite [104, 105] (\<lambda>_. Finish))))
      gzip_request (Conn conn_new, None) = Ok (h', Conn cz, None) \<and> conn_status cz = 201 \<and>
    sw_decode (cn_body cz) = Inr ([104, 105], None)"
proof -
  let ?p = "CallWriteHeader 201 (CallWrite [104, 105] (\<lambda>_. Finish))"
  have "body_prog ?p"
    by (simp add: body_allowed_def)
  moreover have "run_prog stored_lib ?p (Conn conn_new, None) =
      Ok (Conn \<lparr>cn_header = [], cn_wrote = Some (201, []), cn_length = None, cn_written = 2,
                cn_body = [104, 105], cn_broken = False\<rparr>, None)"
    by (simp add: conn_WriteHeader_def conn_Write_def conn_started_def conn_status_def conn_new_def body_allowed_def
        Let_def)
  ultimately show ?thesis
    using gzip_transparent [OF stored.gzip_contract_axioms gzip_request_compressed gzip_example_simps
        _ conn_new_writable(1,2), of ?p None]
    by (simp add: conn_status_def stored_lib_def)
qed

lemma stored_Write_total: "\<exists>r w'. Write stored_lib b w = Ok (r, w')"
proof (induction w arbitrary: b)
  case (GzipResponseWriter w gz e)
  obtain out gz' where gz: "gz_Write stored_lib b gz = Ok (out, gz')"
    by (simp add: stored_lib_def sw_write_def Let_def)
  show ?case
    using GzipResponseWriter.IH [of out] gz by (auto split: option.splits)
next
  case (LogResponseWriter w st sz)
  obtain n e w' where "Write stored_lib b w = Ok ((n, e), w')"
    using LogResponseWriter.IH [of b] by auto
  then show ?case
    by simp
qed (auto split: prod.splits)

lemma stored_gzip_Write:
  "\<exists>r w1 gz1 e1. Write stored_lib b (GzipResponseWriter w gz e) = Ok (r, GzipResponseWriter w1 gz1 e1)"
proof -
  obtain r w' where "Write stored_lib b (GzipResponseWriter w gz e) = Ok (r, w')"
    using stored_Write_total by blast
  moreover from this have "\<exists>w1 gz1 e1. w' = GzipResponseWriter w1 gz1 e1"
    by (auto split: option.splits res.splits prod.splits if_splits)
  ultimately show ?thesis by blast
qed

lemma stored_finish_total: "\<exists>w'. gzip_finish stored_lib w gz e = Ok w'"
proof (cases e)
  case None
  obtain out where out: "gz_Close stored_lib gz = Ok out"
    by (simp add: stored_lib_def sw_close_def)
  show ?thesis
    using stored_Write_total [of out w] out None by (auto simp: gzip_finish_def)
qed (simp add: gzip_finish_def)

theorem gzip_declared_length_kept_witness:
  "\<exists>h' w' ctx' hs. GzipHandler_ServeHTTP stored_lib
      (gzip_example (CallHeader (hdr_Set ''Content-Length'' ''2'') (CallWriteHeader 200 (CallWrite [104, 105] (\<lambda>_. Finish)))))
      gzip_request (Conn conn_new, None) = Ok (h', w', ctx') \<and>
    cn_wrote (the_conn w') = Some (200, hs) \<and> hdr_Get hs ''Content-Length'' = ''2''"
proof -
  let ?p = "CallWrite [104, 105] (\<lambda>_. Finish)"
  let ?h = "gzip_example (CallHeader (hdr_Set ''Content-Length'' ''2'') (CallWriteHeader 200 ?p))"
  have "\<exists>x. GzipHandler_ServeHTTP stored_lib ?h gzip_request (Conn conn_new, None) = Ok x"
  proof -
    let ?w = "GzipResponseWriter (Conn (conn_started 200 (conn_new\<lparr>cn_header := hdr_Set ''Content-Length'' ''2''
        (hdr_Set ''Vary'' ''Accept-Encoding'' (hdr_Set ''Content-Encoding'' ''gzip'' []))\<rparr>))) (gz_Reset stored_lib sw_new) None"
    obtain r w1 gz1 e1 where wr: "Write stored_lib [104, 105] ?w = Ok (r, GzipResponseWriter w1 gz1 e1)"
      using stored_gzip_Write by blast
    obtain w2 where "gzip_finish stored_lib (edit_header (hdr_Del ''Content-Length'') w1) gz1 e1 = Ok w2"
      using stored_finish_total by blast
    with wr show ?thesis
      by (simp add: GzipHandler_ServeHTTP_def gzip_request_compressed gzip_example_simps conn_WriteHeader_def
          Let_def conn_new_writable del: Write.simps)
  qed
  then obtain h' w' ctx' where run: "GzipHandler_ServeHTTP stored_lib ?h gzip_request (Conn conn_new, None) = Ok (h', w', ctx')"
    by (metis prod_cases3)
  from gzip_declared_length_kept [OF gzip_request_compressed conn_new_writable(2) _ _ gzip_example_simps(2) run]
  show ?thesis
    using run by auto
qed

section \<open>The recorded status\<close>

text \<open>A handler that chooses a status at most once, and before it writes; \<open>f\<close> tells that it is fixed.\<close>

primrec one_header :: "prog \<Rightarrow> bool \<Rightarrow> bool" where
  "one_header Finish f = True"
| "one_header Abort f = True"
| "one_header (CallHeader g p) f = one_header p f"
| "one_header (CallWriteHeader s p) f = (\<not> f \<and> one_header p True)"
| "one_header (CallWrite b k) f = (\<forall>r. one_header (k r) True)"
| "one_header (CallAddStatsMap tags p) f = one_header p f"

text \<open>What the log middleware should record: the status that was fixed, 0 when none was.\<close>

definition recorded :: "conn \<Rightarrow> int" where
  "recorded c = (case cn_wrote c of Some (s, _) \<Rightarrow> s | None \<Rightarrow> 0)"

definition proper_status :: "conn \<Rightarrow> bool" where
  "proper_status c \<longleftrightarrow> (case cn_wrote c of Some (s, _) \<Rightarrow> 100 \<le> s \<and> s \<le> 999 | None \<Rightarrow> True)"

lemma conn_Write_recorded:
  assumes "conn_Write b c = (r, c')" and "proper_status c"
  shows "cn_wrote c' \<noteq> None \<and> proper_status c' \<and> recorded c' = (if recorded c = 0 then 200 else recorded c)"
  using assms
  by (auto simp: conn_Write_def recorded_def proper_status_def Let_def
      split: option.splits if_splits)

lemma conn_WriteHeader_recorded:
  assumes "conn_WriteHeader s c = Ok c'" and "cn_wrote c = None"
  shows "cn_wrote c' \<noteq> None \<and> proper_status c' \<and> recorded c' = s"
  using assms by (auto simp: conn_WriteHeader_def recorded_def proper_status_def split: if_splits)

lemma log_run:
  assumes "one_header p (cn_wrote c \<noteq> None)" and "proper_status c"
    and "run_prog lib p (LogResponseWriter (Conn c) (recorded c) sz, ctx) = Ok (w', ctx')"
  shows "\<exists>c' sz'. w' = LogResponseWriter (Conn c') (recorded c') sz'"
  using assms
proof (induction p arbitrary: c sz ctx)
  case (CallHeader f p)
  from CallHeader.prems show ?case
    by (intro CallHeader.IH [of "c\<lparr>cn_header := f (cn_header c)\<rparr>" sz ctx])
      (auto simp: proper_status_def recorded_def)
next
  case (CallWriteHeader s p)
  then obtain c1 where c1: "conn_WriteHeader s c = Ok c1"
      "run_prog lib p (LogResponseWriter (Conn c1) s sz, ctx) = Ok (w', ctx')"
    by (auto simp: res_bind_Ok_iff)
  have "cn_wrote c = None"
    using CallWriteHeader.prems(1) by (simp del: not_None_eq)
  with c1 CallWriteHeader.prems(1) conn_WriteHeader_recorded [OF c1(1)] show ?case
    by (intro CallWriteHeader.IH [of c1 sz ctx]) auto
next
  case (CallWrite b k)
  obtain n e c1 where c1: "conn_Write b c = ((n, e), c1)"
    by (metis prod.collapse)
  with CallWrite.prems(3) have run: "run_prog lib (k (int n, e))
      (LogResponseWriter (Conn c1) (if recorded c = 0 then 200 else recorded c) (sz + int n), ctx) = Ok (w', ctx')"
    by simp
  with CallWrite.prems(1,2) conn_Write_recorded [OF c1 CallWrite.prems(2)] show ?case
    by (intro CallWrite.IH [of "k (int n, e)" c1 "sz + int n" ctx]) auto
next
  case (CallAddStatsMap tags p)
  from CallAddStatsMap.prems show ?case
    by (intro CallAddStatsMap.IH [of c sz "AddStatsMap tags ctx"]) auto
qed auto

section \<open>The statistics of the requests\<close>

text \<open>A point exists for a metric with tags.\<close>

definition has_point :: "Stats \<Rightarrow> string \<Rightarrow> tag_list \<Rightarrow> bool" where
  "has_point st metric tags \<longleftrightarrow> sm_load (st_points st) (keyFromMetricID metric tags) \<noteq> None"

text \<open>One more use of a point: it exists afterwards, no other is lost, and it was made if it was missing.\<close>

definition grown :: "Stats \<Rightarrow> string \<Rightarrow> tag_list \<Rightarrow> Stats \<Rightarrow> bool" where
  "grown st metric tags st' \<longleftrightarrow> has_point st' metric tags \<and> (\<forall>m t. has_point st m t \<longrightarrow> has_point st' m t) \<and>
     length (st_store st') = (if has_point st metric tags then length (st_store st) else Suc (length (st_store st)))"

lemma stats_ValueAdd_grown:
  "parse interval = None \<Longrightarrow> aggregation \<in> set aggregationsContants \<Longrightarrow>
     \<exists>st'. stats_ValueAdd parse metric tags aggregation interval keep nullable v st = (None, st') \<and>
       grown st metric tags st'"
  by (cases "sm_load (st_points st) (keyFromMetricID metric tags)")
    (auto simp: stats_ValueAdd_def getPoint_def grown_def has_point_def at_point_def Let_def)

lemma increment_grown:
  "parse ''@every 1m'' = None \<Longrightarrow>
     \<exists>st'. increment z parse metric tags (st, s) = (Ok (), (st', s)) \<and> grown st metric tags st'"
  using stats_ValueAdd_grown [of parse "''@every 1m''" "''sum''" metric tags False True "f64_of_int 1" st]
  by (auto simp: increment_def Increment_def aggregationsContants_def)

lemma valueAdd_grown:
  "parse ''@every 1m'' = None \<Longrightarrow>
     \<exists>st'. valueAdd z parse metric tags v (st, s) = (Ok (), (st', s)) \<and> grown st metric tags st'"
  using stats_ValueAdd_grown [of parse "''@every 1m''" "''avg''" metric tags False False v st]
  by (auto simp: valueAdd_def aggregationsContants_def)

text \<open>What serving a request does to the statistics once the handler has returned.\<close>

lemma serve_grown:
  assumes "parse ''@every 1m'' = None"
    and "lh_next h r (LogResponseWriter (edit_header (add_request_ids h rid) w) 0 0, Some sm_empty) =
      Ok (LogResponseWriter w' status sz, ctx)"
    and "tags = request_tags r status (case ctx of Some m \<Rightarrow> m | None \<Rightarrow> sm_empty)"
  shows "\<exists>s1 s2. LogHandler_ServeHTTP z parse h rid d r w (stats, s) = (Ok w', (s2, s)) \<and>
    grown stats ''request.count'' tags s1 \<and> grown s1 ''request.duration'' tags s2"
proof -
  obtain s1 where s1: "increment z parse ''request.count'' tags (stats, s) = (Ok (), (s1, s))"
      "grown stats ''request.count'' tags s1"
    using increment_grown [of parse z "''request.count''" tags stats s] assms(1) by blast
  let ?d = "f64_div (f64_of_int d) (f64_of_int 1000000)"
  obtain s2 where s2: "valueAdd z parse ''request.duration'' tags ?d (s1, s) = (Ok (), (s2, s))"
      "grown s1 ''request.duration'' tags s2"
    using valueAdd_grown [of parse z "''request.duration''" tags ?d s1 s] assms(1) by blast
  have "LogHandler_ServeHTTP z parse h rid d r w (stats, s) = (Ok w', (s2, s))"
    using assms(2,3) s1(1) s2(1) by (simp add: LogHandler_ServeHTTP_def Let_def io_bind_eq io_ret_def)
  with s1(2) s2(2) show ?thesis by blast
qed

lemma serve_counts:
  assumes "parse ''@every 1m'' = None"
    and "lh_next h r (LogResponseWriter (edit_header (add_request_ids h rid) w) 0 0, Some sm_empty) =
      Ok (LogResponseWriter w' status sz, Some user)"
  shows "\<exists>stats'. LogHandler_ServeHTTP z parse h rid d r w (stats, s) = (Ok w', (stats', s)) \<and>
    has_point stats' ''request.count'' (request_tags r status user)"
  using serve_grown [where parse = parse and z = z and d = d and stats = stats and s = s, OF assms refl]
  by (auto simp: grown_def)

lemma recorded_status: "recorded c = (if cn_wrote c = None then 0 else conn_status c)"
  by (auto simp: recorded_def conn_status_def split: option.splits)





lemma join_snoc: "join sep (xs @ [m]) = concat (map (\<lambda>t. t @ sep) xs) @ m"
proof (induction xs)
  case (Cons x xs)
  then show ?case by (cases "xs @ [m]") auto
qed simp

lemma keyFromMetricID_inject [simp]: "keyFromMetricID m tags = keyFromMetricID m' tags \<longleftrightarrow> m = m'"
  by (simp add: keyFromMetricID_def join_snoc)



text \<open>
  Whatever the handler does with the status, as long as it chooses one at most once and before it writes: one that
  neither chooses a status nor writes is counted under status 0, although the client gets 200.
\<close>

lemma log_status_recorded:
  fixes lib :: "'z gzip_lib"
  assumes "parse ''@every 1m'' = None" and "lh_next h r = run_prog lib p" and "one_header p False"
    and "cn_wrote c = None"
    and "run_prog lib p (LogResponseWriter (edit_header (add_request_ids h rid) (Conn c)) 0 0, Some sm_empty) = Ok (w', Some user)"
  shows "\<exists>c' stats'. LogHandler_ServeHTTP z parse h rid d r (Conn c) (stats, s) = (Ok (Conn c'), (stats', s)) \<and>
    has_point stats' ''request.count''
      (request_tags r (if cn_wrote c' = None then 0 else conn_status c') user)"
proof -
  let ?c = "c\<lparr>cn_header := add_request_ids h rid (cn_header c)\<rparr>"
  have "recorded ?c = 0" "proper_status ?c" "cn_wrote ?c = None"
    using assms(4) by (simp_all add: recorded_def proper_status_def)
  then obtain c' sz where w': "w' = LogResponseWriter (Conn c') (recorded c') sz"
    using log_run [of p ?c lib 0 "Some sm_empty" w' "Some user"] assms(3,5) by auto
  have "lh_next h r (LogResponseWriter (edit_header (add_request_ids h rid) (Conn c)) 0 0, Some sm_empty) =
      Ok (LogResponseWriter (Conn c') (recorded c') sz, Some user)"
    using assms(2,5) w' by simp
  from serve_counts [where parse = parse, OF assms(1) this] show ?thesis
    unfolding recorded_status by blast
qed

text \<open>
  A handler that writes and calls \<open>WriteHeader\<close> afterwards is counted under the second status, while the
  client got 200 with the first write: the log writer does not know that the call came too late.
\<close>

theorem log_status_superfluous:
  fixes lib :: "'z gzip_lib"
  assumes "parse ''@every 1m'' = None" and "lh_next h r = run_prog lib (CallWrite b (\<lambda>_. CallWriteHeader code Finish))"
    and "cn_wrote c = None"
  shows "\<exists>c' stats'. LogHandler_ServeHTTP z parse h rid d r (Conn c) (stats, s) = (Ok (Conn c'), (stats', s)) \<and>
    conn_status c' = 200 \<and> has_point stats' ''request.count'' (request_tags r code sm_empty)"
proof -
  let ?c = "c\<lparr>cn_header := add_request_ids h rid (cn_header c)\<rparr>"
  obtain n e c' where c': "conn_Write b ?c = ((n, e), c')"
    by (metis prod.collapse)
  have wrote: "\<exists>hs. cn_wrote c' = Some (200, hs)"
    using c' assms(3) by (auto simp: conn_Write_def Let_def split: if_splits)
  then have "conn_WriteHeader code c' = Ok c'"
    using conn_fixed(1) by blast
  then have "lh_next h r (LogResponseWriter (edit_header (add_request_ids h rid) (Conn c)) 0 0, Some sm_empty) =
      Ok (LogResponseWriter (Conn c') code (int n), Some sm_empty)"
    using assms(2) c' by simp
  moreover have "conn_status c' = 200"
    using wrote by (auto simp: conn_status_def)
  ultimately show ?thesis
    using serve_counts [where parse = parse, OF assms(1)] by blast
qed

text \<open>
  What happens to the statistics: requests are served, each on a new connection, and the goroutines of
  \<open>incrementHTTPConn\<close>, one per request, count their connections, in any order.
\<close>

datatype serve_event = Serve string int srv_request | CountConnection

fun serve_all ::
  "('w, 'l, 'e) zerolog \<Rightarrow> (string \<Rightarrow> string option) \<Rightarrow> 'z LogHandler \<Rightarrow> serve_event list \<Rightarrow>
     ('w, 'l) mw_state \<Rightarrow> ('w, 'l) mw_state" where
  "serve_all z parse h [] st = st"
| "serve_all z parse h (Serve rid d r # es) st =
     serve_all z parse h es (snd (LogHandler_ServeHTTP z parse h rid d r (Conn conn_new) st))"
| "serve_all z parse h (CountConnection # es) st = serve_all z parse h es (snd (incrementHTTPConn z parse h st))"

definition point_keys :: "Stats \<Rightarrow> string set" where
  "point_keys st = dom (sm_load (st_points st))"

lemma stats_ValueAdd_keys:
  "point_keys (snd (stats_ValueAdd parse metric tags agg interval keep nullable v st)) \<subseteq>
     insert (keyFromMetricID metric tags) (point_keys st)"
  by (auto simp: stats_ValueAdd_def getPoint_def point_keys_def at_point_def Let_def split: option.splits if_splits)

lemma increment_keys:
  "point_keys (fst (snd (increment z parse metric tags st))) \<subseteq> insert (keyFromMetricID metric tags) (point_keys (fst st))"
  using stats_ValueAdd_keys [of parse metric tags "''sum''" "''@every 1m''" False True "f64_of_int 1" "fst st"]
  by (auto simp: increment_def Increment_def io_bind_def io_snd_def io_ret_def split: option.splits prod.splits res.splits)

lemma valueAdd_keys:
  "point_keys (fst (snd (valueAdd z parse metric tags v st))) \<subseteq> insert (keyFromMetricID metric tags) (point_keys (fst st))"
  using stats_ValueAdd_keys [of parse metric tags "''avg''" "''@every 1m''" False False v "fst st"]
  by (auto simp: valueAdd_def io_snd_def split: option.splits prod.splits)

lemma incrementHTTPConn_keys:
  "point_keys (fst (snd (incrementHTTPConn z parse h st))) \<subseteq>
     insert (keyFromMetricID ''network.connection'' (lh_connectionStatsTags h)) (point_keys (fst st))"
  using stats_ValueAdd_keys [of parse "''network.connection''" "lh_connectionStatsTags h" "''sum''" "''@every 10s''" False True
      "f64_of_int 1" "fst st"]
  by (auto simp: incrementHTTPConn_def Increment_def io_snd_def split: option.splits prod.splits)

definition unknown_tags :: "string \<times> string \<Rightarrow> tag_list" where
  "unknown_tags mp = [(''protocol'', snd mp), (''method'', fst mp), (''status'', itoa 404)]"

lemma serve_unknown_keys:
  assumes "routes r = Unknown" and "lh_next h = (\<lambda>r. run_prog lib (NewCustomRouter routes r))"
    and "tags = unknown_tags (hr_Method r, hr_Proto r)"
  shows "point_keys (fst (snd (LogHandler_ServeHTTP z parse h rid d r (Conn conn_new) st))) \<subseteq>
    point_keys (fst st) \<union> {keyFromMetricID ''request.count'' tags, keyFromMetricID ''request.duration'' tags}"
proof -
  obtain c' where c': "lh_next h r (LogResponseWriter (edit_header (add_request_ids h rid) (Conn conn_new)) 0 0, Some sm_empty) =
      Ok (LogResponseWriter (Conn c') 404 0, Some sm_empty)"
    using assms(1,2) by (simp add: NewCustomRouter_def NotFound_def conn_WriteHeader_def conn_new_def)
  have tags: "request_tags r 404 sm_empty = tags"
    using assms(3) by (simp add: request_tags_def sm_empty_def unknown_tags_def)
  let ?d = "f64_div (f64_of_int d) (f64_of_int 1000000)"
  let ?s1 = "snd (increment z parse ''request.count'' tags st)"
  have "snd (LogHandler_ServeHTTP z parse h rid d r (Conn conn_new) st) \<in>
      {?s1, snd (valueAdd z parse ''request.duration'' tags ?d ?s1)}"
    using c' tags by (auto simp: LogHandler_ServeHTTP_def Let_def io_bind_def io_ret_def split: prod.splits res.splits)
  then show ?thesis
    using increment_keys [of z parse "''request.count''" tags st] valueAdd_keys [of z parse "''request.duration''" tags ?d ?s1]
    by auto
qed

fun event_pairs :: "serve_event list \<Rightarrow> (string \<times> string) set" where
  "event_pairs [] = {}"
| "event_pairs (Serve rid d r # es) = insert (hr_Method r, hr_Proto r) (event_pairs es)"
| "event_pairs (CountConnection # es) = event_pairs es"

definition unknown_keys :: "(string \<times> string) set \<Rightarrow> string set" where
  "unknown_keys P = (\<Union>mp\<in>P. {keyFromMetricID ''request.count'' (unknown_tags mp), keyFromMetricID ''request.duration'' (unknown_tags mp)})"

lemma finite_event_pairs: "finite (event_pairs es)"
  by (induction es rule: event_pairs.induct) simp_all

lemma serve_all_keys:
  assumes "lh_next h = (\<lambda>r. run_prog lib (NewCustomRouter routes r))"
  shows "(\<And>rid d r. Serve rid d r \<in> set es \<Longrightarrow> routes r = Unknown) \<Longrightarrow>
    point_keys (fst (serve_all z parse h es st)) \<subseteq> point_keys (fst st) \<union>
      insert (keyFromMetricID ''network.connection'' (lh_connectionStatsTags h)) (unknown_keys (event_pairs es))"
proof (induction es arbitrary: st)
  case (Cons e es)
  show ?case
  proof (cases e)
    case (Serve rid d r)
    let ?st = "snd (LogHandler_ServeHTTP z parse h rid d r (Conn conn_new) st)"
    have "point_keys (fst ?st) \<subseteq> point_keys (fst st) \<union> unknown_keys (event_pairs (e # es))"
      using serve_unknown_keys [OF _ assms refl, of r z parse rid d st] Cons.prems Serve
      by (fastforce simp: unknown_keys_def)
    moreover have "point_keys (fst (serve_all z parse h es ?st)) \<subseteq> point_keys (fst ?st) \<union>
        insert (keyFromMetricID ''network.connection'' (lh_connectionStatsTags h)) (unknown_keys (event_pairs es))"
      using Cons.prems by (intro Cons.IH) auto
    ultimately show ?thesis
      using Serve by (auto simp: unknown_keys_def)
  next
    case CountConnection
    let ?st = "snd (incrementHTTPConn z parse h st)"
    have "point_keys (fst (serve_all z parse h es ?st)) \<subseteq> point_keys (fst ?st) \<union>
        insert (keyFromMetricID ''network.connection'' (lh_connectionStatsTags h)) (unknown_keys (event_pairs es))"
      using Cons.prems by (intro Cons.IH) auto
    then show ?thesis
      using CountConnection incrementHTTPConn_keys [of z parse h st] by auto
  qed
qed auto

lemma card_unknown_keys: "finite P \<Longrightarrow> card (unknown_keys P) \<le> 2 * card P"
proof (induction P rule: finite_induct)
  case (insert mp P)
  let ?K = "{keyFromMetricID ''request.count'' (unknown_tags mp), keyFromMetricID ''request.duration'' (unknown_tags mp)}"
  have "unknown_keys (insert mp P) = ?K \<union> unknown_keys P" by (simp add: unknown_keys_def)
  moreover have "card (?K \<union> unknown_keys P) \<le> card ?K + card (unknown_keys P)" by (rule card_Un_le)
  moreover have "card ?K \<le> 2" by (simp add: card_insert_if)
  ultimately show ?case using insert by simp
qed (simp add: unknown_keys_def)

text \<open>
  C35: Requests for unknown paths create few points, whatever the paths are: with the path left out of the tags, all
  requests of one method and protocol share the key of the count and the key of the duration. So any number of such
  requests, with the connections that their goroutines count, adds at most two keys for each pair of a
  method and a protocol among them, and one for the connections.
\<close>

theorem unknown_paths_bounded:
  assumes "lh_next h = (\<lambda>r. run_prog lib (NewCustomRouter routes r))"
    and "\<And>rid d r. Serve rid d r \<in> set es \<Longrightarrow> routes r = Unknown"
  shows "card (point_keys (fst (serve_all z parse h es (stats, s))) - point_keys stats) \<le> 1 + 2 * card (event_pairs es)"
proof -
  let ?K = "unknown_keys (event_pairs es)" and ?n = "keyFromMetricID ''network.connection'' (lh_connectionStatsTags h)"
  have fin: "finite ?K" using finite_event_pairs by (simp add: unknown_keys_def)
  have "point_keys (fst (serve_all z parse h es (stats, s))) \<subseteq> point_keys (fst (stats, s)) \<union> insert ?n ?K"
    by (rule serve_all_keys [OF assms(1)]) (rule assms(2))
  then have "point_keys (fst (serve_all z parse h es (stats, s))) - point_keys stats \<subseteq> insert ?n ?K" by auto
  then have "card (point_keys (fst (serve_all z parse h es (stats, s))) - point_keys stats) \<le> card (insert ?n ?K)"
    using fin by (intro card_mono) auto
  also have "\<dots> \<le> 1 + card ?K" using fin by (simp add: card_insert_if)
  also have "\<dots> \<le> 1 + 2 * card (event_pairs es)" using card_unknown_keys [OF finite_event_pairs] by simp
  finally show ?thesis .
qed

text \<open>
  The ids of a request in the response headers: the header of the service gets the new id after any
  values it had; the header of the system gets it only when it had none, so when both names give the same
  header the id is there once.
\<close>

lemma request_ids:
  assumes "rid \<noteq> []" and "hdr_values hs (request_id_header (lh_system h)) = [] \<or>
      hdr_Get hs (request_id_header (lh_system h)) \<noteq> []"
  shows "hdr_values (add_request_ids h rid hs) (request_id_header (lh_service h)) =
      hdr_values hs (request_id_header (lh_service h)) @ [rid]"
    and "canon (request_id_header (lh_service h)) \<noteq> canon (request_id_header (lh_system h)) \<Longrightarrow>
      hdr_values (add_request_ids h rid hs) (request_id_header (lh_system h)) =
        (if hdr_values hs (request_id_header (lh_system h)) = [] then [rid]
         else hdr_values hs (request_id_header (lh_system h)))"
  using assms
  by (auto simp: add_request_ids_def Let_def hdr_Get_def hdr_values_def hdr_Add_def update_conv' split: list.splits)

definition stats_example :: Stats where
  "stats_example = \<lparr>st_address = ''localhost'', st_port = 8080, st_tags = [(''ksid'', ''k'')], st_proto = ''http'',
     st_timeout = 1000, st_postInt = 1000, st_store = [], st_points = sm_empty, st_jobs = [], st_hBuffer = [],
     st_client = True, st_runtime = False, st_terminate = False\<rparr>"

definition log_example :: "prog \<Rightarrow> stored_writer LogHandler" where
  "log_example p = NewLogMiddleware id ''api'' ''web'' (\<lambda>r. run_prog stored_lib p) False"

lemma log_example_next: "lh_next (log_example p) r = run_prog stored_lib p"
  by (simp add: log_example_def NewLogMiddleware_def)



theorem log_status_superfluous_witness:
  "\<exists>c' stats'. LogHandler_ServeHTTP zl_std (\<lambda>_. None) (log_example (CallWrite [104] (\<lambda>_. CallWriteHeader 500 Finish)))
      ''id1'' 5 gzip_request (Conn conn_new) (stats_example, rip_example) = (Ok (Conn c'), (stats', rip_example)) \<and>
    conn_status c' = 200 \<and> has_point stats' ''request.count'' (request_tags gzip_request 500 sm_empty)"
  using log_status_superfluous [where parse = "\<lambda>_. None", OF refl log_example_next conn_new_writable(2)] by blast

theorem unknown_paths_bounded_witness:
  "card (point_keys (fst (serve_all zl_std (\<lambda>_. None)
      (NewLogMiddleware id ''api'' ''web'' (\<lambda>r. run_prog stored_lib (NewCustomRouter (\<lambda>_. Unknown) r)) False)
      [Serve ''1'' 5 (gzip_request\<lparr>hr_Path := ''/a''\<rparr>), CountConnection, Serve ''2'' 7 (gzip_request\<lparr>hr_Path := ''/b''\<rparr>)]
      (stats_example, rip_example))) - point_keys stats_example) \<le> 3"
proof -
  let ?h = "NewLogMiddleware id ''api'' ''web'' (\<lambda>r. run_prog stored_lib (NewCustomRouter (\<lambda>_. Unknown) r)) False"
  have "lh_next ?h = (\<lambda>r. run_prog stored_lib (NewCustomRouter (\<lambda>_. Unknown) r))"
    by (simp add: NewLogMiddleware_def)
  from unknown_paths_bounded [OF this, of "[Serve ''1'' 5 (gzip_request\<lparr>hr_Path := ''/a''\<rparr>), CountConnection,
      Serve ''2'' 7 (gzip_request\<lparr>hr_Path := ''/b''\<rparr>)]" zl_std "\<lambda>_. None" stats_example rip_example]
  show ?thesis by simp
qed

text \<open>
  When the statistics refuse a point, reporting it panics: \<open>increment\<close> wraps the text in a \<open>customError\<close> without
  an embedded error, and \<open>valueAdd\<close> uses a logger that may not have been set.
\<close>

lemma increment_error_panics:
  assumes "zerolog_contract z glob flds" and "logger_ok s" and "logs_errors z s"
    and "Increment parse metric tags ''@every 1m'' False True stats = (Some err, stats')"
  shows "fst (increment z parse metric tags (stats, s)) = Panic"
  using zerolog_contract.logError_panics [OF assms(1-3)] assms(4)
  by (simp add: increment_def io_bind_eq io_part_eq as_Error_def)

lemma valueAdd_error_panics:
  assumes "rp_logger s = None" and "ErrorEnabled (rp_logh s)" and "Error z (rp_logh s) = Some ev"
    and "stats_ValueAdd parse metric tags ''avg'' ''@every 1m'' False False v stats = (Some err, stats')"
  shows "fst (valueAdd z parse metric tags v (stats, s)) = Panic"
  using assms by (simp add: valueAdd_def send_error_def ContextualLogger_Error_def io_snd_def)

end
