(* ===== verification/Httpserver.thy ===== *)
theory Httpserver
  imports Go_Http Go_Channel
begin

text \<open>
  The package \<open>tester/httpserver\<close> (\<open>httpserver.go\<close>, \<open>utils.go\<close>): a server that answers with configured
  responses and puts the requests it got into a channel.

  The listener and the HTTP client are parameters. The response is written to the connection of
  \<open>Go_Http\<close>; a handler that waits for room in the channel has not returned, so its outcome is one of
  three. While \<open>WaitForHTTPServerRequest\<close> sleeps, other goroutines use the channel: what they do to it
  in each second is a function that the loop takes. What the server still gives of the body of a request after
  a long response is a parameter too.
\<close>

section \<open>httpserver.go\<close>

record RequestData =
  rd_URI :: string
  rd_Body :: string
  rd_Method :: string
  rd_Headers :: header

record ResponseData = RequestData +
  rd_Status :: int

record HTTPServer =
  hs_requestChannel :: "RequestData chan"
  hs_responseMap :: "(string \<times> ResponseData) list"
  hs_running :: bool

text \<open>The regular expression \<open>[/]+\<close> replaced by one slash.\<close>

fun one_bar :: "string \<Rightarrow> string" where
  "one_bar (c # d # r) = (if c = CHR ''/'' \<and> d = CHR ''/'' then one_bar (d # r) else c # one_bar (d # r))"
| "one_bar r = r"

definition has_bar :: "string \<Rightarrow> bool" where
  "has_bar name = (case name of c # _ \<Rightarrow> c = CHR ''/'' | [] \<Rightarrow> False)"

definition CleanURI :: "string \<Rightarrow> string" where
  "CleanURI name = one_bar (if \<not> has_bar name then name @ ''/'' else name)"

definition add_response :: "ResponseData \<Rightarrow> (string \<times> ResponseData) list \<Rightarrow> (string \<times> ResponseData) list" where
  "add_response response m =
     (let response = response\<lparr>rd_URI := CleanURI (rd_URI response)\<rparr>
      in AList.update (rd_URI response) response m)"

text \<open>\<open>listen\<close> is \<open>net.Listen\<close> on an address: its error, if any. A channel of negative size panics.\<close>

definition NewHTTPServer ::
  "(string \<Rightarrow> string option) \<Rightarrow> string \<Rightarrow> int \<Rightarrow> int \<Rightarrow> ResponseData list \<Rightarrow> (string, HTTPServer) res" where
  "NewHTTPServer listen host port channelSize responses =
     (if responses = [] then Err ''expected at least one response''
      else if channelSize < 0 then Panic
      else
        (let hs = \<lparr>hs_requestChannel = chan_make (nat channelSize), hs_responseMap = fold add_response responses [],
             hs_running = True\<rparr>
         in case listen (host @ '':'' @ itoa port) of Some err \<Rightarrow> Err err | None \<Rightarrow> Ok hs))"

text \<open>The source is ranged over as a map: the order of its keys is not determined.\<close>

definition CopyHeaders :: "header \<Rightarrow> header \<Rightarrow> header" where
  "CopyHeaders source dest =
     (if source \<noteq> [] then fold (\<lambda>(h, vs) dest. fold (\<lambda>v. hdr_Set h v) vs dest) source dest else dest)"

datatype handled = Answered conn HTTPServer | WaitsForRoom conn HTTPServer | HandlerPanics

definition handler_respond :: "ResponseData \<Rightarrow> srv_request \<Rightarrow> conn \<Rightarrow> (string, conn) res" where
  "handler_respond rd req c =
     (let hs = CopyHeaders (rd_Headers rd) (cn_header c);
          hs = CopyHeaders (hr_Header req) hs
      in res_bind (conn_WriteHeader (rd_Status rd) (c\<lparr>cn_header := hs\<rparr>)) (\<lambda>c.
         Ok (if 0 < length (rd_Body rd) then snd (conn_Write (bytes_of_string (rd_Body rd)) c) else c)))"

text \<open>
  The handler reads the body of the request after it has written the response. The server keeps a response of up
  to 2048 bytes in a buffer, and the body is all there; a longer one is sent on, and then the server may have discarded
  the body. What it still gives is the parameter \<open>late\<close>. The error of the read is ignored.
\<close>

type_synonym late_body = "srv_request \<Rightarrow> conn \<Rightarrow> byte list"

definition body_after_response :: "late_body \<Rightarrow> srv_request \<Rightarrow> conn \<Rightarrow> byte list" where
  "body_after_response late req c = (if 2048 < cn_written c then late req c else hr_body req)"

definition recorded_request :: "late_body \<Rightarrow> srv_request \<Rightarrow> conn \<Rightarrow> RequestData" where
  "recorded_request late req c =
     \<lparr>rd_URI = CleanURI (hr_RequestURI req), rd_Body = string_of_bytes (body_after_response late req c),
      rd_Method = hr_Method req, rd_Headers = hr_Header req\<rparr>"

definition handler :: "late_body \<Rightarrow> srv_request \<Rightarrow> conn \<Rightarrow> HTTPServer \<Rightarrow> handled" where
  "handler late req c hl =
     (let found = map_of (hs_responseMap hl) (CleanURI (hr_RequestURI req))
      in case found of
           Some rd \<Rightarrow>
             if rd_Method rd \<noteq> hr_Method req then
               (case conn_WriteHeader 404 c of Ok c \<Rightarrow> Answered c hl | _ \<Rightarrow> HandlerPanics)
             else
               (case handler_respond rd req c of
                  Ok c \<Rightarrow>
                    (case chan_send (recorded_request late req c) (hs_requestChannel hl) of
                       Sent ch \<Rightarrow> Answered c (hl\<lparr>hs_requestChannel := ch\<rparr>)
                     | SendBlocks \<Rightarrow> WaitsForRoom c hl
                     | SendPanics \<Rightarrow> HandlerPanics)
                | _ \<Rightarrow> HandlerPanics)
         | None \<Rightarrow> (case conn_WriteHeader 404 c of Ok c \<Rightarrow> Answered c hl | _ \<Rightarrow> HandlerPanics))"

text \<open>\<open>Close\<close> stops the listener; the channel stays as it is.\<close>

definition hs_Close :: "HTTPServer \<Rightarrow> HTTPServer" where
  "hs_Close hl = hl\<lparr>hs_running := False\<rparr>"

definition RequestChannel :: "HTTPServer \<Rightarrow> RequestData chan" where
  "RequestChannel hl = hs_requestChannel hl"

text \<open>A response as the client reads it, with the request that it answers.\<close>

record cl_response =
  hp_StatusCode :: int
  hp_Header :: header
  hp_body :: "byte list"
  hp_bodyErr :: "string option"
  hp_RequestURI :: string
  hp_Method :: string

definition ParseResponse :: "cl_response \<Rightarrow> (string, ResponseData) res" where
  "ParseResponse res =
     (case hp_bodyErr res of
        Some err \<Rightarrow> Err err
      | None \<Rightarrow>
          Ok \<lparr>rd_URI = hp_RequestURI res, rd_Body = string_of_bytes (hp_body res), rd_Method = hp_Method res,
              rd_Headers = hp_Header res, rd_Status = hp_StatusCode res\<rparr>)"

section \<open>utils.go\<close>

definition TestServerHost :: string where "TestServerHost = ''localhost''"
definition TestServerPort :: int where "TestServerPort = 18080"
definition maxRequestTimeout :: nat where "maxRequestTimeout = 10"

definition CreateNewTestHTTPServer ::
  "(string \<Rightarrow> string option) \<Rightarrow> ResponseData list \<Rightarrow> (string, HTTPServer) res" where
  "CreateNewTestHTTPServer listen responses =
     (case NewHTTPServer listen TestServerHost TestServerPort 5 responses of Ok s \<Rightarrow> Ok s | _ \<Rightarrow> Panic)"

text \<open>
  The client side of \<open>net/http\<close>: \<open>cl_NewRequest\<close> parses the URL, \<open>cl_Do\<close> sends a request with the client's
  settings and returns the response or an error. \<open>'w\<close> is the world it acts on, with the server.
\<close>

record cl_request =
  cq_Method :: string
  cq_URL :: string
  cq_Body :: "byte list"
  cq_Header :: header

record 'w cl_lib =
  cl_NewRequest :: "string \<Rightarrow> string \<Rightarrow> byte list \<Rightarrow> string + cl_request"
  cl_Do :: "HTTPClient \<Rightarrow> cl_request \<Rightarrow> 'w \<Rightarrow> (string + cl_response) \<times> 'w"

definition request_url :: "RequestData \<Rightarrow> string" where
  "request_url request = ''http://'' @ TestServerHost @ '':'' @ itoa TestServerPort @ ''/'' @ rd_URI request"

definition DoRequest :: "'w cl_lib \<Rightarrow> RequestData \<Rightarrow> ('w, ResponseData) io" where
  "DoRequest cl request w =
     (case cl_NewRequest cl (rd_Method request) (request_url request) (bytes_of_string (rd_Body request)) of
        Inl err \<Rightarrow> (Panic, w)
      | Inr req \<Rightarrow>
          (let req = (if rd_Headers request \<noteq> [] then req\<lparr>cq_Header := CopyHeaders (rd_Headers request) (cq_Header req)\<rparr> else req)
           in case cl_Do cl (CreateHTTPClient 1000000000 True) req w of
                (Inl err, w) \<Rightarrow> (Panic, w)
              | (Inr res, w) \<Rightarrow>
                  (case ParseResponse res of
                     Ok result \<Rightarrow> (Ok (result\<lparr>rd_URI := rd_URI request\<rparr>), w)
                   | _ \<Rightarrow> (Panic, w))))"

text \<open>
  The loop of \<open>WaitForHTTPServerRequest\<close>: \<open>others s\<close> is what happens to the channel during second \<open>s\<close>. It
  returns the request, if any, and the channel.
\<close>

function wait_loop ::
  "(nat \<Rightarrow> RequestData chan \<Rightarrow> RequestData chan) \<Rightarrow> nat \<Rightarrow> RequestData chan \<Rightarrow> RequestData option \<times> RequestData chan" where
  "wait_loop others seconds ch =
     (case chan_recv ch of
        Received r ch' \<Rightarrow> (Some r, ch')
      | _ \<Rightarrow>
          if maxRequestTimeout \<le> seconds + 1 then (None, others seconds ch)
          else wait_loop others (seconds + 1) (others seconds ch))"
  by pat_completeness auto
termination
  by (relation "measure (\<lambda>(others, seconds, ch). maxRequestTimeout - seconds)") (auto simp: maxRequestTimeout_def)

declare wait_loop.simps [simp del]

definition WaitForHTTPServerRequest ::
  "(nat \<Rightarrow> RequestData chan \<Rightarrow> RequestData chan) \<Rightarrow> HTTPServer \<Rightarrow> RequestData option \<times> RequestData chan" where
  "WaitForHTTPServerRequest others server = wait_loop others 0 (RequestChannel server)"

section \<open>URIs\<close>

fun no_double :: "string \<Rightarrow> bool" where
  "no_double (c # d # r) = (\<not> (c = CHR ''/'' \<and> d = CHR ''/'') \<and> no_double (d # r))"
| "no_double _ = True"

lemma has_bar_simps [simp]: "\<not> has_bar []" "has_bar (c # r) \<longleftrightarrow> c = CHR ''/''"
  by (simp_all add: has_bar_def)

lemma one_bar_Cons: "\<exists>r'. one_bar (c # r) = c # r'"
  by (induction "c # r" arbitrary: c r rule: one_bar.induct) auto

lemma no_double_one_bar: "no_double (one_bar s)"
proof (induction s rule: one_bar.induct)
  case (1 c d r)
  then show ?case
    using one_bar_Cons [of d r] by (auto split: if_splits)
qed simp_all

lemma one_bar_id: "no_double s \<Longrightarrow> one_bar s = s"
  by (induction s rule: one_bar.induct) auto

lemma has_bar_one_bar [simp]: "has_bar (one_bar s) = has_bar s"
proof (cases s)
  case (Cons c r)
  then show ?thesis
    using one_bar_Cons [of c r] by (auto simp: has_bar_def)
qed simp

lemma last_one_bar [simp]: "s \<noteq> [] \<Longrightarrow> one_bar s \<noteq> [] \<and> last (one_bar s) = last s"
  by (induction s rule: one_bar.induct) auto

lemma one_bar_bar_end: "s \<noteq> [] \<Longrightarrow> last s = CHR ''/'' \<Longrightarrow> one_bar (s @ ''/'') = one_bar s"
  by (induction s rule: one_bar.induct) (auto split: if_splits)

lemma has_bar_CleanURI: "has_bar (CleanURI u) \<longleftrightarrow> has_bar u \<or> u = []"
  by (cases u) (auto simp: CleanURI_def)

text \<open>
  The URI under which a response is stored and looked up is canonical: \<open>CleanURI\<close> leaves no repeated slash
  and is idempotent. It begins with a slash exactly when the given URI does or is empty; another URI
  gets its slash at the end.
\<close>

theorem CleanURI_canonical:
  "no_double (CleanURI u) \<and> CleanURI (CleanURI u) = CleanURI u \<and> (has_bar (CleanURI u) \<longleftrightarrow> has_bar u \<or> u = [])"
proof -
  have bar: "has_bar (CleanURI u) \<longleftrightarrow> has_bar u \<or> u = []"
    by (rule has_bar_CleanURI)
  have "CleanURI (CleanURI u) = CleanURI u"
  proof (cases "has_bar (CleanURI u)")
    case True
    then show ?thesis
      using one_bar_id [OF no_double_one_bar] by (simp add: CleanURI_def [of "CleanURI u"]) (simp add: CleanURI_def)
  next
    case False
    then have "CleanURI u = one_bar (u @ ''/'')"
      by (auto simp: CleanURI_def split: if_splits)
    then show ?thesis
      using False one_bar_bar_end [of "one_bar (u @ ''/'')"] one_bar_id [OF no_double_one_bar]
      by (simp add: CleanURI_def [of "one_bar (u @ ''/'')"])
  qed
  with bar show ?thesis
    by (simp add: CleanURI_def no_double_one_bar)
qed

section \<open>The configured responses\<close>

lemma lookup_add_response:
  "map_of (add_response r m) k =
     (if CleanURI (rd_URI r) = k then Some (r\<lparr>rd_URI := k\<rparr>) else map_of m k)"
  by (simp add: add_response_def Let_def update_conv')

lemma lookup_responses:
  "map_of (fold add_response rs m) k =
     (case find (\<lambda>r. CleanURI (rd_URI r) = k) (rev rs) of Some r \<Rightarrow> Some (r\<lparr>rd_URI := k\<rparr>) | None \<Rightarrow> map_of m k)"
proof (induction rs rule: rev_induct)
  case (snoc r rs)
  then show ?case
    by (simp add: lookup_add_response)
qed simp

text \<open>The response that a server built from \<open>rs\<close> has for a request: the last one configured for its URI.\<close>

definition configured_response :: "ResponseData list \<Rightarrow> srv_request \<Rightarrow> ResponseData option" where
  "configured_response rs req =
     (case find (\<lambda>r. CleanURI (rd_URI r) = CleanURI (hr_RequestURI req)) (rev rs) of
        Some r \<Rightarrow> if rd_Method r = hr_Method req then Some r else None
      | None \<Rightarrow> None)"

lemma NewHTTPServer_Ok:
  assumes "NewHTTPServer listen host port n rs = Ok hl"
  shows "hs_responseMap hl = fold add_response rs []" "hs_requestChannel hl = chan_make (nat n)"
  using assms by (auto simp: NewHTTPServer_def Let_def split: if_splits option.splits)

lemma handler_respond_URI [simp]: "handler_respond (rd\<lparr>rd_URI := u\<rparr>) req c = handler_respond rd req c"
  by (simp add: handler_respond_def cong: if_cong)

lemma handler_unmatched:
  assumes "hs_responseMap hl = fold add_response rs []" and "configured_response rs req = None"
    and "cn_wrote c = None"
  shows "handler late req c hl = Answered (conn_started 404 c) hl"
  using assms by (auto simp: handler_def lookup_responses configured_response_def conn_WriteHeader_def
      split: option.splits if_splits)

lemma handler_matched:
  assumes "hs_responseMap hl = fold add_response rs []" and "configured_response rs req = Some rd"
    and "handler_respond rd req c = Ok c'"
  shows "handler late req c hl =
    (case chan_send (recorded_request late req c') (hs_requestChannel hl) of
       Sent ch \<Rightarrow> Answered c' (hl\<lparr>hs_requestChannel := ch\<rparr>)
     | SendBlocks \<Rightarrow> WaitsForRoom c' hl
     | SendPanics \<Rightarrow> HandlerPanics)"
  using assms by (auto simp: handler_def lookup_responses configured_response_def
      split: option.splits if_splits)

text \<open>How many bytes the handler has handed to the server.\<close>

lemma handler_respond_written:
  assumes "handler_respond rd req c = Ok c'" and "cn_written c = 0"
  shows "cn_written c' \<le> length (rd_Body rd)"
  using assms
  by (auto simp: handler_respond_def conn_WriteHeader_def conn_Write_def conn_started_def Let_def bytes_of_string_def
      split: if_splits)

text \<open>
  C18: What a client gets from a server built from the responses \<open>rs\<close>. The response that counts is the last one
  configured for the cleaned URI. If there is none, or it is for another method, the answer is 404 and nothing is
  recorded, even if an earlier response was for the method. Otherwise the status and the body are the configured
  ones (when the headers declare no length), and the request is recorded at the end of the
  channel, if there is room: its cleaned URI, its method, its headers and, when the response has at most 2048
  bytes, its body.
\<close>

theorem handler_answers:
  assumes "NewHTTPServer listen host port n rs = Ok hl0" and "hs_responseMap hl = hs_responseMap hl0"
    and "cn_wrote c = None" and "\<not> cn_broken c" and "cn_body c = []" and "chan_room (hs_requestChannel hl) > 0"
    and "\<And>rd. configured_response rs req = Some rd \<Longrightarrow> 100 \<le> rd_Status rd \<and> rd_Status rd \<le> 999 \<and>
      (rd_Body rd \<noteq> [] \<longrightarrow> body_allowed (rd_Status rd) \<and>
        content_length (hdr_Get (CopyHeaders (hr_Header req) (CopyHeaders (rd_Headers rd) (cn_header c))) ''Content-Length'') = None)"
    and "cn_written c = 0"
  shows "case configured_response rs req of
      None \<Rightarrow> \<exists>c'. handler late req c hl = Answered c' hl \<and> conn_status c' = 404 \<and> cn_body c' = []
    | Some rd \<Rightarrow> \<exists>c' hl' r. handler late req c hl = Answered c' hl' \<and> conn_status c' = rd_Status rd \<and>
        cn_body c' = bytes_of_string (rd_Body rd) \<and> ch_buf (hs_requestChannel hl') = ch_buf (hs_requestChannel hl) @ [r] \<and>
        rd_URI r = CleanURI (hr_RequestURI req) \<and> rd_Method r = hr_Method req \<and> rd_Headers r = hr_Header req \<and>
        (length (rd_Body rd) \<le> 2048 \<longrightarrow> rd_Body r = string_of_bytes (hr_body req))"
proof (cases "configured_response rs req")
  case None
  then show ?thesis
    using handler_unmatched [of hl rs req c] NewHTTPServer_Ok [OF assms(1)] assms(2,3,5)
    by (simp add: conn_status_def)
next
  case (Some rd)
  note ok = assms(7) [OF Some]
  have "\<exists>c'. handler_respond rd req c = Ok c' \<and> conn_status c' = rd_Status rd \<and>
      cn_body c' = bytes_of_string (rd_Body rd)"
    using ok assms(3-5)
    by (auto simp: handler_respond_def conn_WriteHeader_def conn_Write_def conn_started_def conn_status_def Let_def)
  then obtain c' where c': "handler_respond rd req c = Ok c'" "conn_status c' = rd_Status rd"
      "cn_body c' = bytes_of_string (rd_Body rd)" by blast
  let ?r = "recorded_request late req c'"
  obtain ch where "chan_send ?r (hs_requestChannel hl) = Sent ch" "ch_buf ch = ch_buf (hs_requestChannel hl) @ [?r]"
    using assms(6) by (auto simp: chan_send_def chan_room_def split: if_splits)
  moreover have "length (rd_Body rd) \<le> 2048 \<longrightarrow> rd_Body ?r = string_of_bytes (hr_body req)"
    using handler_respond_written [OF c'(1) assms(8)] by (simp add: recorded_request_def body_after_response_def)
  ultimately show ?thesis
    using handler_matched [of hl rs req rd c c' late] Some NewHTTPServer_Ok [OF assms(1)] assms(2) c'
    by (auto simp: recorded_request_def)
qed

text \<open>
  A response that is longer makes the server send it on before the body of the request is read: the request may
  be recorded without its body.
\<close>

lemma handler_long_response_loses_body:
  assumes "hs_responseMap hl = fold add_response rs []" and "configured_response rs req = Some rd"
    and "handler_respond rd req c = Ok c'" and "2048 < cn_written c'" and "late req c' = []"
    and "chan_room (hs_requestChannel hl) > 0"
  shows "\<exists>hl'. handler late req c hl = Answered c' hl' \<and> rd_Body (last (ch_buf (hs_requestChannel hl'))) = []"
proof -
  obtain ch where "chan_send (recorded_request late req c') (hs_requestChannel hl) = Sent ch"
      "ch_buf ch = ch_buf (hs_requestChannel hl) @ [recorded_request late req c']"
    using assms(6) by (auto simp: chan_send_def chan_room_def split: if_splits)
  then show ?thesis
    using handler_matched [OF assms(1-3), of late] assms(4,5)
    by (simp add: recorded_request_def body_after_response_def string_of_bytes_def)
qed

section \<open>Headers\<close>

definition canonical_keys :: "header \<Rightarrow> bool" where
  "canonical_keys h \<longleftrightarrow> distinct (map fst h) \<and> (\<forall>k\<in>fst ` set h. canon k = k)"

lemma fold_hdr_Set:
  "hdr_values (fold (\<lambda>v. hdr_Set h v) vs dest) k =
     (if canon h = canon k \<and> vs \<noteq> [] then [last vs] else hdr_values dest k)"
  by (induction vs arbitrary: dest) auto

lemma fold_copy:
  "canonical_keys source \<Longrightarrow>
     hdr_values (fold (\<lambda>(h, vs) dest. fold (\<lambda>v. hdr_Set h v) vs dest) source dest) k =
       (if hdr_values source k = [] then hdr_values dest k else [last (hdr_values source k)])"
proof (induction source arbitrary: dest)
  case (Cons p source)
  obtain h vs where p: "p = (h, vs)"
    by (cases p)
  have "canonical_keys source" and h: "canon h = h" "h \<notin> fst ` set source"
    using Cons.prems p by (auto simp: canonical_keys_def)
  moreover have "h = canon k \<Longrightarrow> hdr_values source k = []"
    using h by (simp add: hdr_values_def map_of_eq_None_iff [THEN iffD2])
  moreover have "hdr_values (p # source) k = (if h = canon k then vs else hdr_values source k)"
    by (simp add: hdr_values_def p)
  ultimately show ?case
    using Cons.IH [of "fold (\<lambda>v. hdr_Set h v) vs dest"] p by (auto simp: fold_hdr_Set)
qed simp

text \<open>
  \<open>CopyHeaders\<close> replaces, under each key of the source that has a value, what the destination had, and keeps
  only the last of several values.
\<close>

theorem CopyHeaders_last:
  assumes "canonical_keys source"
  shows "hdr_values (CopyHeaders source dest) k =
    (if hdr_values source k = [] then hdr_values dest k else [last (hdr_values source k)])"
  using fold_copy [OF assms] by (auto simp: CopyHeaders_def)

theorem CopyHeaders_last_witness:
  "hdr_values (CopyHeaders [(''Accept'', [''text/html'', ''text/plain''])] []) ''accept'' = [''text/plain'']"
proof -
  have key: "canon ''accept'' = ''Accept''" "canon ''Accept'' = ''Accept''"
    by code_simp+
  show ?thesis
    using CopyHeaders_last [of "[(''Accept'', [''text/html'', ''text/plain''])]" "[]" "''accept''"]
    by (simp add: canonical_keys_def hdr_values_def [of _ "''accept''"] key)
qed

text \<open>
  The headers of the request are copied over the configured ones, \<open>Content-Length\<close> included: when the request
  declares a length shorter than the configured body, the body cannot be written and the client gets the
  configured status without a body.
\<close>

theorem handler_echoes_length:
  assumes "hs_responseMap hl = fold add_response rs []" and "configured_response rs req = Some rd"
    and "canonical_keys (hr_Header req)" and "hdr_values (hr_Header req) ''Content-Length'' = [t]"
    and "content_length t = Some m" and "m < length (rd_Body rd)"
    and "body_allowed (rd_Status rd)" and "rd_Status rd \<le> 999"
    and "cn_wrote c = None" and "cn_body c = []" and "chan_room (hs_requestChannel hl) > 0"
  shows "\<exists>c' hl'. handler late req c hl = Answered c' hl' \<and> conn_status c' = rd_Status rd \<and> cn_body c' = []"
proof -
  let ?hs = "CopyHeaders (hr_Header req) (CopyHeaders (rd_Headers rd) (cn_header c))"
  have "hdr_values ?hs ''Content-Length'' = [t]"
    using fold_copy [OF assms(3)] assms(4) by (auto simp: CopyHeaders_def)
  then have len: "content_length (hdr_Get ?hs ''Content-Length'') = Some m"
    using assms(5) by (simp add: hdr_Get_def)
  have "\<exists>c'. handler_respond rd req c = Ok c' \<and> conn_status c' = rd_Status rd \<and> cn_body c' = []"
    using len assms(6-10)
    by (auto simp: handler_respond_def conn_WriteHeader_def conn_Write_def conn_started_def conn_status_def
        body_allowed_def Let_def)
  then obtain c' where c': "handler_respond rd req c = Ok c'" "conn_status c' = rd_Status rd" "cn_body c' = []" by blast
  obtain ch where "chan_send (recorded_request late req c') (hs_requestChannel hl) = Sent ch"
    using assms(11) by (auto simp: chan_send_def chan_room_def split: if_splits)
  with handler_matched [OF assms(1,2) c'(1), of late] c'(2,3) show ?thesis by simp
qed

text \<open>
  A response configured with a non-empty URI that does not begin with a slash is never sent: \<open>CleanURI\<close>
  appends the slash instead of putting it in front, and the URI of a request begins with one.
\<close>

theorem relative_uri_unreachable:
  assumes "\<not> has_bar (rd_URI rd)" and "rd_URI rd \<noteq> []" and "has_bar (hr_RequestURI req)"
  shows "configured_response rs req \<noteq> Some rd"
proof
  assume "configured_response rs req = Some rd"
  then have "CleanURI (rd_URI rd) = CleanURI (hr_RequestURI req)"
    by (auto simp: configured_response_def find_Some_iff split: option.splits if_splits)
  then show False
    using has_bar_CleanURI [of "rd_URI rd"] has_bar_CleanURI [of "hr_RequestURI req"] assms by simp
qed

section \<open>Waiting for a request\<close>

text \<open>The channel at the check of each second when nothing is received.\<close>

primrec chan_at :: "(nat \<Rightarrow> RequestData chan \<Rightarrow> RequestData chan) \<Rightarrow> RequestData chan \<Rightarrow> nat \<Rightarrow> RequestData chan" where
  "chan_at others ch 0 = ch"
| "chan_at others ch (Suc s) = others s (chan_at others ch s)"

lemma wait_loop_first:
  "s < maxRequestTimeout \<Longrightarrow> fst (wait_loop others s (chan_at others ch s)) =
     map_option (\<lambda>k. hd (ch_buf (chan_at others ch k)))
       (find (\<lambda>k. ch_buf (chan_at others ch k) \<noteq> []) [s..<maxRequestTimeout])"
proof (induction "maxRequestTimeout - s" arbitrary: s rule: less_induct)
  case less
  have upt: "[s..<maxRequestTimeout] = s # [Suc s..<maxRequestTimeout]"
    using less.prems by (rule upt_conv_Cons)
  show ?case
  proof (cases "ch_buf (chan_at others ch s)")
    case (Cons r buf)
    then show ?thesis
      by (simp add: wait_loop.simps [of others s] chan_recv_def upt)
  next
    case Nil
    show ?thesis
    proof (cases "maxRequestTimeout \<le> Suc s")
      case True
      then show ?thesis
        using Nil by (simp add: wait_loop.simps [of others s] chan_recv_def upt)
    next
      case False
      then have "fst (wait_loop others (Suc s) (chan_at others ch (Suc s))) =
          map_option (\<lambda>k. hd (ch_buf (chan_at others ch k)))
            (find (\<lambda>k. ch_buf (chan_at others ch k) \<noteq> []) [Suc s..<maxRequestTimeout])"
        by (intro less.hyps) auto
      then show ?thesis
        using Nil False by (simp add: wait_loop.simps [of others s] chan_recv_def upt)
    qed
  qed
qed

text \<open>
  C37: \<open>WaitForHTTPServerRequest\<close> ends after at most ten checks of the channel, one per second, whatever other
  goroutines do to it meanwhile: it returns the oldest request at the first check that finds one, and
  nil when none of the ten does.
\<close>

theorem wait_first_request:
  "fst (WaitForHTTPServerRequest others server) =
     map_option (\<lambda>k. hd (ch_buf (chan_at others (hs_requestChannel server) k)))
       (find (\<lambda>k. ch_buf (chan_at others (hs_requestChannel server) k) \<noteq> []) [0..<10])"
  using wait_loop_first [of 0 others "hs_requestChannel server"]
  by (simp add: WaitForHTTPServerRequest_def RequestChannel_def maxRequestTimeout_def)

text \<open>
  C36: What was sent is what is received: a request that the server answers with an empty channel, on a new
  connection and with a configured body of at most 2048 bytes, is the one that \<open>WaitForHTTPServerRequest\<close> returns, at its first check, with the method, the body and the headers that were
  sent and the cleaned URI, and the channel is empty again.
\<close>

theorem request_roundtrip:
  assumes "hs_responseMap hl = fold add_response rs []" and "configured_response rs req = Some rd"
    and "100 \<le> rd_Status rd" and "rd_Status rd \<le> 999"
    and "ch_buf (hs_requestChannel hl) = []" and "chan_room (hs_requestChannel hl) > 0"
    and "hr_body req = bytes_of_string b" and "cn_wrote c = None"
    and "cn_written c = 0" and "length (rd_Body rd) \<le> 2048"
  shows "\<exists>c' hl' ch. handler late req c hl = Answered c' hl' \<and>
    WaitForHTTPServerRequest others hl' =
      (Some \<lparr>rd_URI = CleanURI (hr_RequestURI req), rd_Body = b, rd_Method = hr_Method req, rd_Headers = hr_Header req\<rparr>, ch) \<and>
    ch_buf ch = []"
proof -
  obtain c' where c': "handler_respond rd req c = Ok c'"
    using assms(3,4,8) by (simp add: handler_respond_def conn_WriteHeader_def Let_def)
  moreover have "body_after_response late req c' = bytes_of_string b"
    using handler_respond_written [OF c' assms(9)] assms(7,10) by (simp add: body_after_response_def)
  moreover obtain ch where "chan_send (recorded_request late req c') (hs_requestChannel hl) = Sent ch"
      "ch_buf ch = [recorded_request late req c']"
    using assms(5,6) by (auto simp: chan_send_def chan_room_def split: if_splits)
  ultimately show ?thesis
    using handler_matched [OF assms(1,2), of c c' late]
    by (simp add: WaitForHTTPServerRequest_def RequestChannel_def wait_loop.simps chan_recv_def recorded_request_def)
qed

section \<open>Witnesses\<close>

definition example_response :: ResponseData where
  "example_response = \<lparr>rd_URI = ''/test'', rd_Body = ''test body'', rd_Method = ''GET'',
     rd_Headers = [(''Content-Type'', [''text/plain''])], rd_Status = 200\<rparr>"

definition example_server :: HTTPServer where
  "example_server = \<lparr>hs_requestChannel = chan_make 5, hs_responseMap = fold add_response [example_response] [], hs_running = True\<rparr>"

definition example_request :: "header \<Rightarrow> srv_request" where
  "example_request hs = \<lparr>hr_Method = ''GET'', hr_Proto = ''HTTP/1.1'', hr_Path = ''/test'', hr_RequestURI = ''//test'',
     hr_Header = hs, hr_body = bytes_of_string ''hi'', hr_bodyErr = None\<rparr>"

lemma example_response_simps:
  "rd_Status example_response = 200" "rd_Body example_response = ''test body''" "rd_URI example_response = ''/test''"
  by (simp_all add: example_response_def)

lemma example_matches: "configured_response [example_response] (example_request hs) = Some example_response"
  by (simp add: configured_response_def example_response_def example_request_def CleanURI_def)

lemma example_server_new: "NewHTTPServer (\<lambda>_. None) ''localhost'' 18080 5 [example_response] = Ok example_server"
  by (simp add: NewHTTPServer_def example_server_def)

lemma example_server_simps:
  "hs_responseMap example_server = fold add_response [example_response] []"
  "ch_buf (hs_requestChannel example_server) = []" "chan_room (hs_requestChannel example_server) > 0"
  by (simp_all add: example_server_def chan_make_def chan_room_def)

theorem handler_answers_witness:
  "\<exists>c' hl' r. handler (\<lambda>_ _. []) (example_request []) conn_new example_server = Answered c' hl' \<and> conn_status c' = 200 \<and>
    cn_body c' = bytes_of_string ''test body'' \<and> ch_buf (hs_requestChannel hl') = [r] \<and> rd_Body r = ''hi''"
proof -
  have "canon ''Content-Type'' \<noteq> canon ''Content-Length''"
    by code_simp
  then have "content_length (hdr_Get (CopyHeaders (hr_Header (example_request [])) (CopyHeaders (rd_Headers example_response)
      (cn_header conn_new))) ''Content-Length'') = None"
    by (simp add: example_request_def example_response_def conn_new_def CopyHeaders_def content_length_def)
  moreover have "cn_wrote conn_new = None" "\<not> cn_broken conn_new" "cn_body conn_new = []" "body_allowed 200" "cn_written conn_new = 0"
    by (simp_all add: conn_new_def body_allowed_def)
  ultimately show ?thesis
    using handler_answers [OF example_server_new refl, of conn_new "example_request []" "\<lambda>_ _. []"] example_server_simps(3)
    by (auto simp: example_matches example_response_simps example_server_simps(2)) (auto simp: example_request_def)
qed

theorem handler_echoes_length_witness:
  "\<exists>c' hl'. handler (\<lambda>_ _. []) (example_request [(''Content-Length'', [''2''])]) conn_new example_server = Answered c' hl' \<and>
    conn_status c' = 200 \<and> cn_body c' = []"
proof -
  have key: "canon ''Content-Length'' = ''Content-Length''"
    by code_simp
  have "content_length ''2'' = Some 2"
    by (simp add: content_length_def digit_value_def)
  moreover from key have "canonical_keys (hr_Header (example_request [(''Content-Length'', [''2''])]))"
    "hdr_values (hr_Header (example_request [(''Content-Length'', [''2''])])) ''Content-Length'' = [''2'']"
    by (simp_all add: example_request_def canonical_keys_def hdr_values_def)
  moreover have "cn_wrote conn_new = None" "cn_body conn_new = []" "body_allowed 200"
    by (simp_all add: conn_new_def body_allowed_def)
  ultimately show ?thesis
    using handler_echoes_length [OF example_server_simps(1) example_matches, of "[(''Content-Length'', [''2''])]" "''2''" 2 conn_new "\<lambda>_ _. []"]
      example_server_simps(3)
    by (simp add: example_response_simps)
qed

theorem relative_uri_unreachable_witness:
  "configured_response [example_response\<lparr>rd_URI := ''test''\<rparr>] (example_request []) \<noteq> Some (example_response\<lparr>rd_URI := ''test''\<rparr>)"
  by (rule relative_uri_unreachable) (simp_all add: example_response_def example_request_def)

theorem request_roundtrip_witness:
  "\<exists>c' hl' ch. handler (\<lambda>_ _. []) (example_request []) conn_new example_server = Answered c' hl' \<and>
    WaitForHTTPServerRequest (\<lambda>_ ch. ch) hl' =
      (Some \<lparr>rd_URI = ''/test'', rd_Body = ''hi'', rd_Method = ''GET'', rd_Headers = []\<rparr>, ch) \<and> ch_buf ch = []"
  using request_roundtrip [OF example_server_simps(1) example_matches _ _ example_server_simps(2,3),
      of "[]" "''hi''" conn_new "\<lambda>_ _. []" "\<lambda>_ ch. ch"]
  by (simp add: example_request_def example_response_def conn_new_def CleanURI_def)

end
