(* ===== verification/Files.thy ===== *)
theory Files
  imports Compress Logh
begin

text \<open>
  The package \<open>files\<close>: \<open>src/files/file_ops.go\<close>, \<open>src/files/scanner.go\<close>, \<open>src/files/structs.go\<close>.

  The file system is a map from paths to regular files and folders together with the number of open
  handles; \<open>fs_fault\<close> is the error that the system returns for an operation on a path, so that every
  error branch can be taken. One \<open>Read\<close> of an \<open>os.File\<close> gives at most \<open>maxRW\<close> bytes. A directory tree
  is a datatype whose entries come in the order in which \<open>filepath.Walk\<close> visits them.
\<close>

section \<open>The operating system\<close>

datatype node = Regular "byte list" int | Folder

datatype os_op = OpOpen | OpStat | OpRead | OpCreate | OpWrite | OpRemove

record fs =
  fs_nodes :: "string \<Rightarrow> node option"
  fs_fault :: "os_op \<Rightarrow> string \<Rightarrow> string option"
  fs_handles :: nat

text \<open>The largest read and write of Go's \<open>internal/poll\<close>.\<close>

definition maxRW :: nat where "maxRW = 2 ^ 30"

record FileInfo =
  fi_Size :: nat
  fi_IsDir :: bool
  fi_ModTime :: int

definition node_info :: "node \<Rightarrow> FileInfo" where
  "node_info n =
     (case n of
        Regular b t \<Rightarrow> \<lparr>fi_Size = length b, fi_IsDir = False, fi_ModTime = t\<rparr>
      | Folder \<Rightarrow> \<lparr>fi_Size = 4096, fi_IsDir = True, fi_ModTime = 0\<rparr>)"

definition os_Open :: "string \<Rightarrow> fs \<Rightarrow> (string, node \<times> fs) res" where
  "os_Open p s =
     (case fs_fault s OpOpen p of
        Some err \<Rightarrow> Err err
      | None \<Rightarrow>
          (case fs_nodes s p of
             None \<Rightarrow> Err (''open '' @ p @ '': no such file or directory'')
           | Some n \<Rightarrow> Ok (n, s\<lparr>fs_handles := Suc (fs_handles s)\<rparr>)))"

definition os_Close :: "fs \<Rightarrow> fs" where
  "os_Close s = s\<lparr>fs_handles := fs_handles s - 1\<rparr>"

definition os_Stat :: "string \<Rightarrow> node \<Rightarrow> fs \<Rightarrow> (string, FileInfo) res" where
  "os_Stat p n s = (case fs_fault s OpStat p of Some err \<Rightarrow> Err err | None \<Rightarrow> Ok (node_info n))"

text \<open>\<open>Read\<close> into a buffer of \<open>k\<close> bytes.\<close>

definition os_Read :: "string \<Rightarrow> node \<Rightarrow> nat \<Rightarrow> fs \<Rightarrow> (string, byte list) res" where
  "os_Read p n k s =
     (case fs_fault s OpRead p of
        Some err \<Rightarrow> Err err
      | None \<Rightarrow>
          (case n of
             Folder \<Rightarrow> Err (''read '' @ p @ '': is a directory'')
           | Regular b _ \<Rightarrow> if k \<noteq> 0 \<and> b = [] then Err ''EOF'' else Ok (take (min k maxRW) b)))"

definition os_Create :: "int \<Rightarrow> string \<Rightarrow> fs \<Rightarrow> (string, fs) res" where
  "os_Create now p s =
     (case fs_fault s OpCreate p of
        Some err \<Rightarrow> Err err
      | None \<Rightarrow>
          if fs_nodes s p = Some Folder then Err (''open '' @ p @ '': is a directory'')
          else Ok (s\<lparr>fs_nodes := (fs_nodes s)(p \<mapsto> Regular [] now), fs_handles := Suc (fs_handles s)\<rparr>))"

text \<open>Writing at the end of an open file.\<close>

definition os_Append :: "string \<Rightarrow> byte list \<Rightarrow> fs \<Rightarrow> (string, fs) res" where
  "os_Append p b s =
     (case fs_fault s OpWrite p of
        Some err \<Rightarrow> Err err
      | None \<Rightarrow>
          (case fs_nodes s p of
             Some (Regular c t) \<Rightarrow> Ok (s\<lparr>fs_nodes := (fs_nodes s)(p \<mapsto> Regular (c @ b) t)\<rparr>)
           | _ \<Rightarrow> Ok s))"

definition os_Remove :: "string \<Rightarrow> fs \<Rightarrow> (string, fs) res" where
  "os_Remove p s =
     (case fs_fault s OpRemove p of
        Some err \<Rightarrow> Err err
      | None \<Rightarrow>
          (case fs_nodes s p of
             None \<Rightarrow> Err (''remove '' @ p @ '': no such file or directory'')
           | Some _ \<Rightarrow> Ok (s\<lparr>fs_nodes := (fs_nodes s)(p := None)\<rparr>)))"

section \<open>file_ops.go\<close>

definition GZExtension :: string where "GZExtension = ''.gz''"

definition GetFileInfo :: "string \<Rightarrow> (fs, FileInfo) io" where
  "GetFileInfo filePath s =
     (case os_Open filePath s of
        Ok (input, s) \<Rightarrow>
          (case os_Stat filePath input s of
             Ok fileInfo \<Rightarrow> (Ok fileInfo, os_Close s)
           | Err err \<Rightarrow> (Err err, os_Close s)
           | Panic \<Rightarrow> (Panic, os_Close s))
      | Err err \<Rightarrow> (Err err, s)
      | Panic \<Rightarrow> (Panic, s))"

text \<open>The buffer has the size of the file; what one read does not fill stays zero.\<close>

definition ReadFileBytes :: "string \<Rightarrow> (fs, byte list) io" where
  "ReadFileBytes filePath s =
     (case os_Open filePath s of
        Ok (input, s) \<Rightarrow>
          (case os_Stat filePath input s of
             Ok fileInfo \<Rightarrow>
               if fi_Size fileInfo = 0 then (Err (''file '' @ filePath @ '' has zero length''), os_Close s)
               else
                 (case os_Read filePath input (fi_Size fileInfo) s of
                    Ok b \<Rightarrow> (Ok (b @ replicate (fi_Size fileInfo - length b) 0), os_Close s)
                  | Err err \<Rightarrow> (Err err, os_Close s)
                  | Panic \<Rightarrow> (Panic, os_Close s))
           | Err err \<Rightarrow> (Err err, os_Close s)
           | Panic \<Rightarrow> (Panic, os_Close s))
      | Err err \<Rightarrow> (Err err, s)
      | Panic \<Rightarrow> (Panic, s))"

text \<open>The part of a path after the last slash, \<open>array[len(array)-1]\<close>.\<close>

definition base_name :: "string \<Rightarrow> string" where
  "base_name p = rev (takeWhile (\<lambda>c. c \<noteq> CHR ''/'') (rev p))"

definition GzipFile :: "'z gzip_lib \<Rightarrow> int \<Rightarrow> string \<Rightarrow> string \<Rightarrow> (fs, unit) io" where
  "GzipFile lib now filePath outputPath s0 =
     (case os_Create now outputPath s0 of
        Ok s \<Rightarrow>
          (case ReadFileBytes filePath s of
             (Ok fileBuffer, s) \<Rightarrow>
               (let zw = gz_SetHeader lib (base_name filePath) now (gz_NewWriter lib)
                in case gz_Write lib fileBuffer zw of
                     Ok (out, zw) \<Rightarrow>
                       (case os_Append outputPath out s of
                          Ok s \<Rightarrow>
                            (case gz_Close lib zw of
                               Ok out \<Rightarrow>
                                 (case os_Append outputPath out s of
                                    Ok s \<Rightarrow> (Ok (), os_Close s)
                                  | Err err \<Rightarrow> (Err err, os_Close s)
                                  | Panic \<Rightarrow> (Panic, os_Close s))
                             | Err err \<Rightarrow> (Err err, os_Close s)
                             | Panic \<Rightarrow> (Panic, os_Close s))
                        | Err err \<Rightarrow> (Err err, os_Close s)
                        | Panic \<Rightarrow> (Panic, os_Close s))
                   | Err err \<Rightarrow> (Err err, os_Close s)
                   | Panic \<Rightarrow> (Panic, os_Close s))
           | (Err err, s) \<Rightarrow> (Err err, os_Close s)
           | (Panic, s) \<Rightarrow> (Panic, os_Close s))
      | Err err \<Rightarrow> (Err err, s0)
      | Panic \<Rightarrow> (Panic, s0))"

text \<open>
  \<open>GzipDecompressFile\<close>: the input is not closed. \<open>io.Copy\<close> writes what can be decoded before it fails, and
  its error, of reading or of writing, becomes nil. After a copy up to the end of the stream \<open>zr.Close()\<close>
  returns nil.
\<close>

definition GzipDecompressFile :: "'z gzip_lib \<Rightarrow> int \<Rightarrow> string \<Rightarrow> string \<Rightarrow> (fs, unit) io" where
  "GzipDecompressFile lib now filePath outputPath s0 =
     (case os_Open filePath s0 of
        Ok (input, s) \<Rightarrow>
          (case (case os_Read filePath input 1 s of
                   Ok _ \<Rightarrow> (case input of Regular b _ \<Rightarrow> gz_decode lib b | Folder \<Rightarrow> Inl ''is a directory'')
                 | Err err \<Rightarrow> Inl err
                 | Panic \<Rightarrow> Inl '''') of
             Inl err \<Rightarrow> (Err err, s)
           | Inr (decoded, ending) \<Rightarrow>
               (case os_Create now outputPath s of
                  Ok s \<Rightarrow>
                    (case os_Append outputPath decoded s of
                       Ok s \<Rightarrow> (Ok (), os_Close s)
                     | _ \<Rightarrow> (Ok (), os_Close s))
                | Err err \<Rightarrow> (Err err, s)
                | Panic \<Rightarrow> (Panic, s)))
      | Err err \<Rightarrow> (Err err, s0)
      | Panic \<Rightarrow> (Panic, s0))"

definition DeleteFile :: "string \<Rightarrow> (fs, unit) io" where
  "DeleteFile filePath s =
     (case os_Remove filePath s of Ok s \<Rightarrow> (Ok (), s) | Err err \<Rightarrow> (Err err, s) | Panic \<Rightarrow> (Panic, s))"

section \<open>Properties of the file operations\<close>

text \<open>No operation on a path fails by itself.\<close>

definition no_faults :: "fs \<Rightarrow> bool" where
  "no_faults s \<longleftrightarrow> (\<forall>op p. fs_fault s op p = None)"

lemma os_frame [simp]:
  "fs_fault (os_Close s) = fs_fault s" "fs_nodes (os_Close s) = fs_nodes s"
  by (simp_all add: os_Close_def)

lemma ReadFileBytes_frame:
  "fs_nodes (snd (ReadFileBytes p s)) = fs_nodes s" "fs_fault (snd (ReadFileBytes p s)) = fs_fault s"
  "fs_handles (snd (ReadFileBytes p s)) = fs_handles s"
  by (auto simp: ReadFileBytes_def os_Open_def os_Close_def split: option.splits res.splits)

lemma os_Append_frame:
  "os_Append p b s = Ok s' \<Longrightarrow> fs_handles s' = fs_handles s \<and> fs_fault s' = fs_fault s"
  by (auto simp: os_Append_def split: option.splits node.splits)

text \<open>
  \<open>ReadFileBytes\<close> on a readable regular file that is not empty gives its bytes, but only the first
  \<open>2 ^ 30\<close> of them: it reads once and does not look at the number of bytes read, so the rest of a larger
  file comes back as zeros, without an error.
\<close>

theorem ReadFileBytes_content:
  assumes "no_faults s" and "fs_nodes s p = Some (Regular b t)" and "b \<noteq> []"
  shows "fst (ReadFileBytes p s) = Ok (take maxRW b @ replicate (length b - maxRW) 0)"
  using assms
  by (auto simp: ReadFileBytes_def os_Open_def os_Stat_def os_Read_def node_info_def no_faults_def min_def)

text \<open>
  C39: \<open>GetFileInfo\<close>, \<open>ReadFileBytes\<close> and \<open>GzipFile\<close> leave no file open, on success and on every error;
  \<open>GzipDecompressFile\<close> leaves its input open whenever it could open it.
\<close>

theorem handles_balanced:
  "fs_handles (snd (GetFileInfo p s)) = fs_handles s \<and>
   fs_handles (snd (ReadFileBytes p s)) = fs_handles s \<and>
   fs_handles (snd (GzipFile lib now p q s)) = fs_handles s \<and>
   fs_handles (snd (GzipDecompressFile lib now p q s)) =
     (if \<exists>x. os_Open p s = Ok x then Suc (fs_handles s) else fs_handles s)"
proof (intro conjI)
  show "fs_handles (snd (GetFileInfo p s)) = fs_handles s"
    by (auto simp: GetFileInfo_def os_Open_def os_Close_def split: option.splits res.splits)
  show "fs_handles (snd (ReadFileBytes p s)) = fs_handles s"
    by (rule ReadFileBytes_frame)
  show "fs_handles (snd (GzipFile lib now p q s)) = fs_handles s"
  proof (cases "os_Create now q s")
    case (Ok s1)
    then have "fs_handles s1 = Suc (fs_handles s)"
      by (auto simp: os_Create_def split: option.splits if_splits)
    with Ok show ?thesis
      using ReadFileBytes_frame(3) [of p s1]
      by (auto simp: GzipFile_def os_Close_def Let_def split: res.splits prod.splits dest!: os_Append_frame)
  qed (auto simp: GzipFile_def)
  show "fs_handles (snd (GzipDecompressFile lib now p q s)) =
     (if \<exists>x. os_Open p s = Ok x then Suc (fs_handles s) else fs_handles s)"
  proof (cases "os_Open p s")
    case (Ok x)
    then obtain n s1 where x: "x = (n, s1)" "fs_handles s1 = Suc (fs_handles s)"
      by (auto simp: os_Open_def split: option.splits)
    have "os_Create now q s1 = Ok s2 \<Longrightarrow> fs_handles s2 = Suc (Suc (fs_handles s))" for s2
      using x(2) by (auto simp: os_Create_def split: option.splits if_splits)
    with Ok x show ?thesis
      by (auto simp: GzipDecompressFile_def os_Close_def split: res.splits sum.splits prod.splits dest!: os_Append_frame)
  qed (auto simp: GzipDecompressFile_def)
qed

lemma GzipFile_output:
  fixes lib :: "'z gzip_lib"
  assumes "gzip_contract lib plain sent opn" and "no_faults s" and "fs_nodes s p = Some (Regular b t)"
    and "b \<noteq> []" and "length b \<le> maxRW" and "p \<noteq> q" and "fs_nodes s q \<noteq> Some Folder" and "ascii_name (base_name p)"
  shows "\<exists>z s'. GzipFile lib now p q s = (Ok (), s') \<and> gz_decode lib z = Inr (b, None) \<and> z \<noteq> [] \<and>
    fs_nodes s' = (fs_nodes s)(q \<mapsto> Regular z now) \<and> fs_fault s' = fs_fault s"
proof -
  let ?s1 = "s\<lparr>fs_nodes := (fs_nodes s)(q \<mapsto> Regular [] now), fs_handles := Suc (fs_handles s)\<rparr>"
  have create: "os_Create now q s = Ok ?s1"
    using assms(2,7) by (simp add: os_Create_def no_faults_def)
  have faults: "no_faults ?s1" "fs_nodes ?s1 p = Some (Regular b t)"
    using assms(2,3,6) by (simp_all add: no_faults_def)
  have "fst (ReadFileBytes p ?s1) = Ok b"
    using assms(4,5) faults
    by (auto simp: ReadFileBytes_def os_Open_def os_Stat_def os_Read_def node_info_def no_faults_def min_def)
  then obtain s2 where read: "ReadFileBytes p ?s1 = (Ok b, s2)"
      "fs_nodes s2 = fs_nodes ?s1" "fs_fault s2 = fs_fault s"
    using ReadFileBytes_frame [of p ?s1] by (cases "ReadFileBytes p ?s1") auto
  let ?zw = "gz_SetHeader lib (base_name p) now (gz_NewWriter lib)"
  have zw: "opn ?zw" "plain ?zw = []" "sent ?zw = []"
    using gzip_contract.header_ok [OF assms(1) _ _ assms(8), of "gz_NewWriter lib"]
      gzip_contract.new_ok [OF assms(1)] by auto
  obtain o1 z1 where w: "gz_Write lib b ?zw = Ok (o1, z1)" "opn z1" "plain z1 = b" "sent z1 = o1"
    using gzip_contract.write_ok [OF assms(1) zw(1), of b] zw by auto
  obtain o2 where c: "gz_Close lib z1 = Ok o2" "o2 \<noteq> []" "gz_decode lib (o1 @ o2) = Inr (b, None)"
    using gzip_contract.close_ok [OF assms(1) w(2)] w(3,4) by auto
  have "fs_fault s2 OpWrite q = None"
    using read(3) assms(2) by (simp add: no_faults_def)
  then have "\<exists>s'. GzipFile lib now p q s = (Ok (), s') \<and> fs_nodes s' = (fs_nodes s)(q \<mapsto> Regular (o1 @ o2) now) \<and>
      fs_fault s' = fs_fault s"
    using create read w(1) c(1) by (simp add: GzipFile_def Let_def os_Append_def)
  then show ?thesis
    using c(2,3) by auto
qed

text \<open>
  C19: Compressing a file and decompressing the result restores it: when the system reports no error, the paths
  differ and the file is not empty, of at most \<open>2 ^ 30\<close> bytes and with an ASCII name, both calls return nil, the last file
  has exactly the bytes of the first, and the first is unchanged.
\<close>

theorem gzip_file_roundtrip:
  assumes "gzip_contract lib plain sent opn" and "no_faults s" and "fs_nodes s p = Some (Regular b t)"
    and "b \<noteq> []" and "length b \<le> maxRW" and "p \<noteq> q" and "q \<noteq> r" and "p \<noteq> r"
    and "fs_nodes s q \<noteq> Some Folder" and "fs_nodes s r \<noteq> Some Folder" and "ascii_name (base_name p)"
  shows "\<exists>s1 s2. GzipFile lib now p q s = (Ok (), s1) \<and> GzipDecompressFile lib now' q r s1 = (Ok (), s2) \<and>
    fs_nodes s2 r = Some (Regular b now') \<and> fs_nodes s2 p = Some (Regular b t)"
proof -
  obtain z s1 where z: "GzipFile lib now p q s = (Ok (), s1)" "gz_decode lib z = Inr (b, None)" "z \<noteq> []"
      "fs_nodes s1 = (fs_nodes s)(q \<mapsto> Regular z now)" "fs_fault s1 = fs_fault s"
    using GzipFile_output [OF assms(1-6,9,11)] by blast
  then show ?thesis
    using assms(2,3,6-8,10)
    by (simp add: GzipDecompressFile_def os_Open_def os_Read_def os_Create_def os_Append_def no_faults_def)
qed

text \<open>
  Compressing a file onto itself destroys it: the output is created, and so emptied, before the input is
  read; the call then fails because the file has no bytes.
\<close>

theorem gzip_file_same_path:
  assumes "no_faults s" and "fs_nodes s p \<noteq> Some Folder"
  shows "\<exists>s'. GzipFile lib now p p s = (Err (''file '' @ p @ '' has zero length''), s') \<and>
    fs_nodes s' p = Some (Regular [] now)"
  using assms
  by (simp add: GzipFile_def os_Create_def ReadFileBytes_def os_Open_def os_Stat_def node_info_def no_faults_def)

text \<open>
  C38: \<open>GzipDecompressFile\<close> returns nil on a stream that ends badly, for instance one that was cut off: the error
  of \<open>io.Copy\<close> is dropped, and the output holds only the part that could be decoded.
\<close>

theorem gzip_decompress_hides_error:
  assumes "no_faults s" and "fs_nodes s p = Some (Regular z t)" and "z \<noteq> []" and "p \<noteq> q"
    and "fs_nodes s q \<noteq> Some Folder" and "gz_decode lib z = Inr (decoded, Some err)"
  shows "\<exists>s'. GzipDecompressFile lib now p q s = (Ok (), s') \<and> fs_nodes s' q = Some (Regular decoded now)"
  using assms
  by (simp add: GzipDecompressFile_def os_Open_def os_Read_def os_Create_def os_Append_def no_faults_def)

definition fs_example :: "(string \<Rightarrow> node option) \<Rightarrow> fs" where
  "fs_example m = \<lparr>fs_nodes = m, fs_fault = (\<lambda>_ _. None), fs_handles = 0\<rparr>"

lemma fs_example_simps: "no_faults (fs_example m)" "fs_nodes (fs_example m) = m"
  by (simp_all add: fs_example_def no_faults_def)

lemma maxRW_small: "2 \<le> maxRW"
  by (simp add: maxRW_def)

theorem ReadFileBytes_content_witness:
  "fst (ReadFileBytes ''a'' (fs_example [''a'' \<mapsto> Regular [1, 2] 0])) = Ok [1, 2]"
  using ReadFileBytes_content [of "fs_example [''a'' \<mapsto> Regular [1, 2] 0]" "''a''" "[1, 2]" 0] maxRW_small
  by (simp add: fs_example_simps)

theorem gzip_file_roundtrip_witness:
  "\<exists>s1 s2. GzipFile stored_lib 7 ''d/a'' ''b'' (fs_example [''d/a'' \<mapsto> Regular [1, 2] 0]) = (Ok (), s1) \<and>
    GzipDecompressFile stored_lib 8 ''b'' ''c'' s1 = (Ok (), s2) \<and> fs_nodes s2 ''c'' = Some (Regular [1, 2] 8)"
  using gzip_file_roundtrip [OF stored.gzip_contract_axioms, of "fs_example [''d/a'' \<mapsto> Regular [1, 2] 0]" "''d/a''" "[1, 2]" 0
      "''b''" "''c''" 7 8] maxRW_small
  by (auto simp: fs_example_simps ascii_name_def base_name_def)

theorem gzip_file_same_path_witness:
  "\<exists>s'. GzipFile stored_lib 7 ''a'' ''a'' (fs_example [''a'' \<mapsto> Regular [1, 2] 0]) = (Err ''file a has zero length'', s') \<and>
    fs_nodes s' ''a'' = Some (Regular [] 7)"
  using gzip_file_same_path [of "fs_example [''a'' \<mapsto> Regular [1, 2] 0]" "''a''" stored_lib 7]
  by (simp add: fs_example_simps)

text \<open>A stream that was cut off after its first block.\<close>

definition cut_stream :: "byte list" where
  "cut_stream = gz_header [] 0 @ stored_block False [104, 105]"

lemma cut_stream_decode: "gz_decode stored_lib cut_stream = Inr ([104, 105], Some ''unexpected EOF'')"
  using read_stored_block [of "[104, 105]" "[]" "[]"]
  by (simp add: stored_lib_def cut_stream_def decode_header ascii_name_def)

theorem gzip_decompress_hides_error_witness:
  "\<exists>s'. GzipDecompressFile stored_lib 9 ''a'' ''b'' (fs_example [''a'' \<mapsto> Regular cut_stream 0]) = (Ok (), s') \<and>
    fs_nodes s' ''b'' = Some (Regular [104, 105] 9)"
  using gzip_decompress_hides_error [OF fs_example_simps(1), of "[''a'' \<mapsto> Regular cut_stream 0]" "''a''" cut_stream 0 "''b''"
      stored_lib, OF _ _ _ _ cut_stream_decode]
  by (simp add: fs_example_simps cut_stream_def)

section \<open>structs.go and scanner.go\<close>

record File =
  f_Name :: string
  f_Path :: string
  f_Size :: int
  f_LastModification :: int
  f_Ignored :: bool

record ScanResult =
  sr_Files :: "File list"
  sr_Ignored :: "File list"
  sr_Errors :: "string list"

record Scanner =
  sc_fileRegexp :: "string \<Rightarrow> bool"
  sc_minFileSize :: int
  sc_filesFound :: "File list"
  sc_ignoredFiles :: "File list"
  sc_errorsFound :: "string list"
  sc_loggers :: ContextualLogger

text \<open>\<open>compile\<close> is \<open>regexp.Compile\<close>, with a regular expression as the function \<open>MatchString\<close>; \<open>MustCompile\<close> panics.\<close>

definition NewScanner :: "(string \<Rightarrow> (string \<Rightarrow> bool) option) \<Rightarrow> string \<Rightarrow> int \<Rightarrow> (string, Scanner) res" where
  "NewScanner compile fileRegexp minFileSize =
     res_bind (CreateContextualLogger [''pkg'', ''files/scanner'']) (\<lambda>el.
     case compile fileRegexp of
       Some re \<Rightarrow> Ok \<lparr>sc_fileRegexp = re, sc_minFileSize = minFileSize, sc_filesFound = [], sc_ignoredFiles = [],
                      sc_errorsFound = [], sc_loggers = el\<rparr>
     | None \<Rightarrow> Panic)"

text \<open>The \<open>os.FileInfo\<close> of a visited entry.\<close>

record entry_info =
  ei_Name :: string
  ei_Size :: int
  ei_ModTime :: int
  ei_IsDir :: bool

definition visit :: "string \<Rightarrow> entry_info \<Rightarrow> string option \<Rightarrow> Scanner \<Rightarrow> string option \<times> Scanner" where
  "visit path f err s =
     (case err of
        Some e \<Rightarrow> (Some e, s\<lparr>sc_errorsFound := sc_errorsFound s @ [e]\<rparr>)
      | None \<Rightarrow>
          if ei_IsDir f then (None, s)
          else
            (let file = \<lparr>f_Name = ei_Name f, f_Path = path, f_Size = ei_Size f, f_LastModification = ei_ModTime f,
                         f_Ignored = False\<rparr>
             in if sc_fileRegexp s path then
                  (if f_Size file < sc_minFileSize s
                   then (None, s\<lparr>sc_ignoredFiles := sc_ignoredFiles s @ [file\<lparr>f_Ignored := True\<rparr>]\<rparr>)
                   else (None, s\<lparr>sc_filesFound := sc_filesFound s @ [file\<lparr>f_Ignored := False\<rparr>]\<rparr>))
                else (None, s\<lparr>sc_ignoredFiles := sc_ignoredFiles s @ [file\<lparr>f_Ignored := True\<rparr>]\<rparr>)))"

text \<open>
  What \<open>filepath.Walk\<close> finds under a path: \<open>Leaf\<close> is any entry that is not a directory; a directory has the
  error of reading its names, if any, and its entries in lexical order; \<open>Lost\<close> is an entry whose
  \<open>Lstat\<close> fails.
\<close>

datatype tree =
    Leaf entry_info
  | Dir entry_info "string option" "(string \<times> tree) list"
  | Lost string

definition no_info :: entry_info where
  "no_info = \<lparr>ei_Name = [], ei_Size = 0, ei_ModTime = 0, ei_IsDir = False\<rparr>"

text \<open>
  \<open>filepath.Walk\<close> with a function that never returns \<open>SkipDir\<close>: the first error ends the walk. \<open>jn\<close> is
  \<open>filepath.Join\<close>.
\<close>

fun walk ::
  "(string \<Rightarrow> string \<Rightarrow> string) \<Rightarrow> (string \<Rightarrow> entry_info \<Rightarrow> string option \<Rightarrow> 's \<Rightarrow> string option \<times> 's) \<Rightarrow>
     string \<Rightarrow> tree \<Rightarrow> 's \<Rightarrow> string option \<times> 's"
  and walk_names ::
  "(string \<Rightarrow> string \<Rightarrow> string) \<Rightarrow> (string \<Rightarrow> entry_info \<Rightarrow> string option \<Rightarrow> 's \<Rightarrow> string option \<times> 's) \<Rightarrow>
     string \<Rightarrow> (string \<times> tree) list \<Rightarrow> 's \<Rightarrow> string option \<times> 's" where
  "walk jn fn path (Leaf f) s = fn path f None s"
| "walk jn fn path (Lost e) s = fn path no_info (Some e) s"
| "walk jn fn path (Dir f (Some e) names) s = fn path f (Some e) s"
| "walk jn fn path (Dir f None names) s =
     (case fn path f None s of
        (Some e, s) \<Rightarrow> (Some e, s)
      | (None, s) \<Rightarrow> walk_names jn fn path names s)"
| "walk_names jn fn path [] s = (None, s)"
| "walk_names jn fn path ((name, t) # names) s =
     (case walk jn fn (jn path name) t s of
        (Some e, s) \<Rightarrow> (Some e, s)
      | (None, s) \<Rightarrow> walk_names jn fn path names s)"

definition Scan :: "(string \<Rightarrow> string \<Rightarrow> string) \<Rightarrow> string \<Rightarrow> tree \<Rightarrow> Scanner \<Rightarrow> (ScanResult \<times> string option) \<times> Scanner" where
  "Scan jn directoryRoot t s0 =
     (let s = s0\<lparr>sc_filesFound := [], sc_ignoredFiles := [], sc_errorsFound := []\<rparr>
      in case walk jn visit directoryRoot t s of
           (err, s) \<Rightarrow>
             ((\<lparr>sr_Files = sc_filesFound s, sr_Ignored = sc_ignoredFiles s, sr_Errors = sc_errorsFound s\<rparr>, err), s))"

section \<open>Properties of the scanner\<close>

text \<open>The entries of a tree in the order of the walk: a file, or the error at which the walk ends.\<close>

fun entries :: "(string \<Rightarrow> string \<Rightarrow> string) \<Rightarrow> string \<Rightarrow> tree \<Rightarrow> (string + File) list"
  and entries_names :: "(string \<Rightarrow> string \<Rightarrow> string) \<Rightarrow> string \<Rightarrow> (string \<times> tree) list \<Rightarrow> (string + File) list" where
  "entries jn path (Leaf f) =
     (if ei_IsDir f then []
      else [Inr \<lparr>f_Name = ei_Name f, f_Path = path, f_Size = ei_Size f, f_LastModification = ei_ModTime f, f_Ignored = False\<rparr>])"
| "entries jn path (Lost e) = [Inl e]"
| "entries jn path (Dir f (Some e) names) = [Inl e]"
| "entries jn path (Dir f None names) = entries_names jn path names"
| "entries_names jn path [] = []"
| "entries_names jn path ((name, t) # names) = entries jn (jn path name) t @ entries_names jn path names"

text \<open>The directories of a tree say that they are directories.\<close>

fun dirs_ok :: "tree \<Rightarrow> bool" and dirs_ok_names :: "(string \<times> tree) list \<Rightarrow> bool" where
  "dirs_ok (Leaf f) = True"
| "dirs_ok (Lost e) = True"
| "dirs_ok (Dir f e names) = (ei_IsDir f \<and> dirs_ok_names names)"
| "dirs_ok_names [] = True"
| "dirs_ok_names ((name, t) # names) = (dirs_ok t \<and> dirs_ok_names names)"

definition wanted :: "Scanner \<Rightarrow> File \<Rightarrow> bool" where
  "wanted s f \<longleftrightarrow> sc_fileRegexp s (f_Path f) \<and> sc_minFileSize s \<le> f_Size f"

text \<open>The scanner after a list of entries.\<close>

fun scan_entries :: "(string + File) list \<Rightarrow> Scanner \<Rightarrow> string option \<times> Scanner" where
  "scan_entries [] s = (None, s)"
| "scan_entries (Inl e # es) s = (Some e, s\<lparr>sc_errorsFound := sc_errorsFound s @ [e]\<rparr>)"
| "scan_entries (Inr f # es) s =
     scan_entries es
       (if wanted s f then s\<lparr>sc_filesFound := sc_filesFound s @ [f\<lparr>f_Ignored := False\<rparr>]\<rparr>
        else s\<lparr>sc_ignoredFiles := sc_ignoredFiles s @ [f\<lparr>f_Ignored := True\<rparr>]\<rparr>)"

lemma scan_entries_append:
  "scan_entries (es @ fs) s =
     (case scan_entries es s of (Some e, s) \<Rightarrow> (Some e, s) | (None, s) \<Rightarrow> scan_entries fs s)"
  by (induction es s rule: scan_entries.induct) auto

lemma walk_entries:
  "dirs_ok t \<Longrightarrow> walk jn visit path t s = scan_entries (entries jn path t) s"
  "dirs_ok_names names \<Longrightarrow> walk_names jn visit path names s = scan_entries (entries_names jn path names) s"
proof (induction jn "visit" path t s and jn "visit" path names s rule: walk_walk_names.induct)
  case (1 jn path f s)
  then show ?case
    by (auto simp: visit_def wanted_def Let_def)
next
  case (4 jn path f names s)
  then show ?case
    by (simp add: visit_def)
qed (auto simp: visit_def scan_entries_append split: option.splits prod.splits)

text \<open>The files before the first error, and that error.\<close>

fun files_before :: "(string + File) list \<Rightarrow> File list" where
  "files_before (Inr f # es) = f # files_before es"
| "files_before _ = []"

fun first_error :: "(string + File) list \<Rightarrow> string option" where
  "first_error (Inr f # es) = first_error es"
| "first_error (Inl e # es) = Some e"
| "first_error [] = None"

lemma scan_entries_result:
  "scan_entries es s = (r, s') \<Longrightarrow> r = first_error es \<and>
     sc_filesFound s' = sc_filesFound s @ map (\<lambda>f. f\<lparr>f_Ignored := False\<rparr>) (filter (wanted s) (files_before es)) \<and>
     sc_ignoredFiles s' = sc_ignoredFiles s @ map (\<lambda>f. f\<lparr>f_Ignored := True\<rparr>) (filter (\<lambda>f. \<not> wanted s f) (files_before es)) \<and>
     sc_errorsFound s' = sc_errorsFound s @ (case first_error es of Some e \<Rightarrow> [e] | None \<Rightarrow> [])"
proof (induction es s rule: scan_entries.induct)
  case (3 f es s)
  have "wanted (if wanted s f then s\<lparr>sc_filesFound := a\<rparr> else s\<lparr>sc_ignoredFiles := b\<rparr>) = wanted s" for a b
    by (auto simp: wanted_def fun_eq_iff)
  then show ?case
    using 3 by (auto split: if_splits)
qed auto

text \<open>
  C20: \<open>Scan\<close> sorts every file that the walk reaches, in the order of the walk, into exactly one of two lists: the
  files whose path matches and whose size is at least the minimum, and the ignored ones. The walk ends at
  the first error, which is returned and is the only one listed. The results of an earlier scan do not show.
\<close>

theorem scan_partitions:
  assumes "dirs_ok t"
  shows "\<exists>s'. Scan jn root t s =
    ((\<lparr>sr_Files = map (\<lambda>f. f\<lparr>f_Ignored := False\<rparr>) (filter (wanted s) (files_before (entries jn root t))),
       sr_Ignored = map (\<lambda>f. f\<lparr>f_Ignored := True\<rparr>) (filter (\<lambda>f. \<not> wanted s f) (files_before (entries jn root t))),
       sr_Errors = (case first_error (entries jn root t) of Some e \<Rightarrow> [e] | None \<Rightarrow> [])\<rparr>,
      first_error (entries jn root t)), s')"
proof -
  let ?s = "s\<lparr>sc_filesFound := [], sc_ignoredFiles := [], sc_errorsFound := []\<rparr>"
  obtain r s' where run: "scan_entries (entries jn root t) ?s = (r, s')"
    by (cases "scan_entries (entries jn root t) ?s")
  moreover have "wanted ?s = wanted s"
    by (auto simp: wanted_def fun_eq_iff)
  ultimately show ?thesis
    using scan_entries_result [OF run] walk_entries(1) [OF assms] by (simp add: Scan_def)
qed

definition tree_example :: tree where
  "tree_example =
     Dir \<lparr>ei_Name = ''r'', ei_Size = 0, ei_ModTime = 0, ei_IsDir = True\<rparr> None
       [(''a'', Leaf \<lparr>ei_Name = ''a'', ei_Size = 10, ei_ModTime = 1, ei_IsDir = False\<rparr>),
        (''b'', Leaf \<lparr>ei_Name = ''b'', ei_Size = 1, ei_ModTime = 2, ei_IsDir = False\<rparr>)]"

definition scanner_example :: Scanner where
  "scanner_example = \<lparr>sc_fileRegexp = (\<lambda>_. True), sc_minFileSize = 5, sc_filesFound = [], sc_ignoredFiles = [],
     sc_errorsFound = [], sc_loggers = \<lparr>numKeyValues = 2, keyValues = [''pkg'', ''files/scanner'']\<rparr>\<rparr>"

theorem scan_partitions_witness:
  "(case Scan (\<lambda>p n. p @ ''/'' @ n) ''r'' tree_example scanner_example of
      ((r, err), _) \<Rightarrow> map f_Path (sr_Files r) = [''r/a''] \<and> map f_Path (sr_Ignored r) = [''r/b''] \<and> err = None)"
proof -
  have "dirs_ok tree_example"
    by (simp add: tree_example_def)
  from scan_partitions [OF this, of "\<lambda>p n. p @ ''/'' @ n" "''r''" scanner_example] show ?thesis
    by (auto simp: tree_example_def scanner_example_def wanted_def)
qed

end
