(* ===== verification/Solar.thy ===== *)
theory Solar
  imports Sync_Map Logh
begin

text \<open>
  The package \<open>solar\<close>: \<open>src/solar/solr_service.go\<close>, \<open>solr_admin.go\<close>, \<open>solr_search.go\<close>.

  The Solr client (\<open>github.com/uol/go-solr\<close>) is a record of functions on a state of the world \<open>'w\<close>: each
  call returns, fails or panics. \<open>'si\<close> is a \<open>*solr.SolrInterface\<close>, \<open>'sch\<close> a \<open>*solr.Schema\<close>, \<open>'q\<close> a query,
  \<open>'r\<close> a result, \<open>'doc\<close> a document. The state of a call is the service, whose cache of interfaces it may
  fill, with the world. \<open>defer ss.recoverFromFailure()\<close> turns a panic into the zero values of the
  results: a nil error, a nil result.

  The operations as functions are calls that nothing disturbs. For calls at the same time \<open>getSolrInterface\<close>
  is cut at its accesses to the cache (\<open>get_step\<close>), and \<open>solar_step\<close> interleaves them.
\<close>

section \<open>The Solr client\<close>

type_synonym url_values = "(string \<times> string) list"

text \<open>Values of a decoded response, as far as they are looked at.\<close>

datatype jvalue = JString string | JList "jvalue list" | JOther

record admin_response =
  ar_Status :: int
  ar_Response :: "string \<Rightarrow> jvalue option"

record Field =
  fd_Name :: string
  fd_FieldType :: string
  fd_MultiValued :: bool
  fd_Stored :: bool
  fd_Indexed :: bool
  fd_DocValues :: bool

record AddField =
  af_Field :: Field

record ('si, 'sch, 'q, 'r, 'doc, 'w) solr =
  sl_NewCollectionsAdmin :: "string \<Rightarrow> string option"
  sl_NewSolrInterface :: "string \<Rightarrow> string \<Rightarrow> ('w, 'si) io"
  sl_Add :: "'si \<Rightarrow> 'doc list \<Rightarrow> int \<Rightarrow> url_values \<Rightarrow> ('w, unit) io"
  sl_Delete :: "'si \<Rightarrow> (string \<times> string) list \<Rightarrow> url_values \<Rightarrow> ('w, bool \<times> string) io"
  sl_Schema :: "'si \<Rightarrow> ('w, 'sch) io"
  sl_Post :: "'sch \<Rightarrow> string \<Rightarrow> AddField \<Rightarrow> ('w, unit) io"
  sl_Action :: "string \<Rightarrow> string \<Rightarrow> url_values option \<Rightarrow> ('w, admin_response) io"
  sl_NewQuery :: 'q
  sl_Q :: "string \<Rightarrow> 'q \<Rightarrow> 'q"
  sl_FieldList :: "string \<Rightarrow> 'q \<Rightarrow> 'q"
  sl_Start :: "int \<Rightarrow> 'q \<Rightarrow> 'q"
  sl_Rows :: "int \<Rightarrow> 'q \<Rightarrow> 'q"
  sl_FilterQuery :: "string \<Rightarrow> 'q \<Rightarrow> 'q"
  sl_AddFacet :: "string \<Rightarrow> 'q \<Rightarrow> 'q"
  sl_AddChildFacet :: "string \<Rightarrow> 'q \<Rightarrow> 'q"
  sl_SetFacetMinCount :: "int \<Rightarrow> 'q \<Rightarrow> 'q"
  sl_SetParam :: "string \<Rightarrow> string \<Rightarrow> 'q \<Rightarrow> 'q"
  sl_Result :: "'si \<Rightarrow> 'q \<Rightarrow> ('w, 'r) io"
  sl_BlockJoinFaceting :: "'si \<Rightarrow> 'q \<Rightarrow> ('w, 'r) io"

section \<open>solr_service.go\<close>

record 'si SolrService =
  ss_url :: string
  ss_loggers :: ContextualLogger
  ss_solrInterfaceCache :: "(string, 'si) sync_map"

type_synonym ('si, 'w) sstate = "'si SolrService \<times> 'w"

text \<open>A call that returns with an error ends the caller with that error: \<open>if err != nil { return err }\<close>.\<close>

definition recoverFromFailure :: "'a \<Rightarrow> ('s, 'a) io \<Rightarrow> ('s, 'a) io" where
  "recoverFromFailure zero m = io_recover m (io_ret zero)"

definition NewSolrService ::
  "('si, 'sch, 'q, 'r, 'doc, 'w) solr \<Rightarrow> string \<Rightarrow> (string, 'si SolrService) res" where
  "NewSolrService sl url =
     (case sl_NewCollectionsAdmin sl url of
        Some err \<Rightarrow> Err err
      | None \<Rightarrow>
          res_bind (CreateContextualLogger [''pkg'', ''solar'']) (\<lambda>el.
          Ok \<lparr>ss_url = url, ss_loggers = el, ss_solrInterfaceCache = sm_empty\<rparr>))"

definition getSolrInterface ::
  "('si, 'sch, 'q, 'r, 'doc, 'w) solr \<Rightarrow> string \<Rightarrow> (('si, 'w) sstate, 'si) io" where
  "getSolrInterface sl collection st =
     (case sm_load (ss_solrInterfaceCache (fst st)) collection of
        Some si \<Rightarrow> (Ok si, st)
      | None \<Rightarrow>
          (case sl_NewSolrInterface sl (ss_url (fst st)) collection (snd st) of
             (Ok si, w) \<Rightarrow>
               (Ok si, ((fst st)\<lparr>ss_solrInterfaceCache := sm_store collection si (ss_solrInterfaceCache (fst st))\<rparr>, w))
           | (Err err, w) \<Rightarrow> (Err err, (fst st, w))
           | (Panic, w) \<Rightarrow> (Panic, (fst st, w))))"

definition cCommit :: string where "cCommit = ''commit''"
definition cTrue :: string where "cTrue = ''true''"
definition cEmpty :: string where "cEmpty = ''''"
definition cQuery :: string where "cQuery = ''query''"

definition commit_params :: "bool \<Rightarrow> url_values" where
  "commit_params commit = (if commit then [(cCommit, cTrue)] else [])"

definition AddDocument ::
  "('si, 'sch, 'q, 'r, 'doc, 'w) solr \<Rightarrow> string \<Rightarrow> bool \<Rightarrow> 'doc option \<Rightarrow> (('si, 'w) sstate, unit) io" where
  "AddDocument sl collection commit doc =
     recoverFromFailure ()
       (case doc of
          None \<Rightarrow> (\<lambda>st. (Err ''document is null'', st))
        | Some d \<Rightarrow>
            io_bind (getSolrInterface sl collection) (\<lambda>si.
            io_snd (sl_Add sl si [d] 0 (commit_params commit))))"

definition AddDocuments ::
  "('si, 'sch, 'q, 'r, 'doc, 'w) solr \<Rightarrow> string \<Rightarrow> bool \<Rightarrow> 'doc list \<Rightarrow> (('si, 'w) sstate, unit) io" where
  "AddDocuments sl collection commit docs =
     recoverFromFailure ()
       (if docs = [] then (\<lambda>st. (Err ''no documents to add'', st))
        else
          io_bind (getSolrInterface sl collection) (\<lambda>si.
          io_snd (sl_Add sl si docs 0 (commit_params commit))))"

definition DeleteDocumentByQuery ::
  "('si, 'sch, 'q, 'r, 'doc, 'w) solr \<Rightarrow> string \<Rightarrow> bool \<Rightarrow> string \<Rightarrow> (('si, 'w) sstate, unit) io" where
  "DeleteDocumentByQuery sl collection commit query =
     recoverFromFailure ()
       (if query = cEmpty then (\<lambda>st. (Err ''query not informed, no document will be deleted'', st))
        else
          io_bind (getSolrInterface sl collection) (\<lambda>si.
          io_bind (io_snd (sl_Delete sl si [(cQuery, query)] (commit_params commit))) (\<lambda>(success, result).
          if \<not> success then (\<lambda>st. (Err (''error deleting documents: '' @ result), st)) else io_ret ())))"

definition DeleteDocumentByID ::
  "('si, 'sch, 'q, 'r, 'doc, 'w) solr \<Rightarrow> string \<Rightarrow> bool \<Rightarrow> string \<Rightarrow> (('si, 'w) sstate, unit) io" where
  "DeleteDocumentByID sl collection commit docid =
     recoverFromFailure ()
       (if docid = cEmpty then (\<lambda>st. (Err ''document id not informed, no document will be deleted'', st))
        else DeleteDocumentByQuery sl collection commit (''id:'' @ docid))"

section \<open>solr_admin.go\<close>

definition getSchema ::
  "('si, 'sch, 'q, 'r, 'doc, 'w) solr \<Rightarrow> string \<Rightarrow> (('si, 'w) sstate, 'sch) io" where
  "getSchema sl collection =
     io_bind (getSolrInterface sl collection) (\<lambda>si. io_snd (sl_Schema sl si))"

definition AddNewField ::
  "('si, 'sch, 'q, 'r, 'doc, 'w) solr \<Rightarrow> string \<Rightarrow> string \<Rightarrow> string \<Rightarrow> bool \<Rightarrow> bool \<Rightarrow> bool \<Rightarrow> bool \<Rightarrow>
     (('si, 'w) sstate, unit) io" where
  "AddNewField sl collection name fieldType multiValued stored indexed docValues =
     io_bind (getSchema sl collection) (\<lambda>schema.
     io_snd (sl_Post sl schema ''''
       \<lparr>af_Field = \<lparr>fd_Name = name, fd_FieldType = fieldType, fd_MultiValued = multiValued, fd_Stored = stored,
                   fd_Indexed = indexed, fd_DocValues = docValues\<rparr>\<rparr>))"

text \<open>An action of the collections API; a status other than 0 is an error with the text \<open>failure\<close>.\<close>

definition admin_action ::
  "('si, 'sch, 'q, 'r, 'doc, 'w) solr \<Rightarrow> string \<Rightarrow> url_values option \<Rightarrow> string \<Rightarrow> (('si, 'w) sstate, admin_response) io" where
  "admin_action sl action params failure st =
     io_bind (io_snd (sl_Action sl (ss_url (fst st)) action params)) (\<lambda>r.
     if ar_Status r \<noteq> 0 then (\<lambda>st. (Err failure, st)) else io_ret r) st"

definition CreateCollection ::
  "('si, 'sch, 'q, 'r, 'doc, 'w) solr \<Rightarrow> string \<Rightarrow> string \<Rightarrow> int \<Rightarrow> int \<Rightarrow> (('si, 'w) sstate, unit) io" where
  "CreateCollection sl collection configSet numShards replicationFactor =
     io_bind (admin_action sl ''CREATE''
       (Some ([(''name'', collection), (''numShards'', itoa numShards), (''replicationFactor'', itoa replicationFactor),
               (''waitForFinalState'', ''true'')] @
              (if configSet \<noteq> [] then [(''collection.configName'', configSet)] else [])))
       ''collection creation failed'') (\<lambda>_. io_ret ())"

definition DeleteCollection ::
  "('si, 'sch, 'q, 'r, 'doc, 'w) solr \<Rightarrow> string \<Rightarrow> (('si, 'w) sstate, unit) io" where
  "DeleteCollection sl collection =
     io_bind (admin_action sl ''DELETE'' (Some [(''name'', collection)]) ''collection remove failed'') (\<lambda>_. io_ret ())"

text \<open>The type assertions \<open>.([]interface{})\<close> and \<open>.(string)\<close> panic on another value.\<close>

fun strings :: "jvalue list \<Rightarrow> (string, string list) res" where
  "strings [] = Ok []"
| "strings (JString c # vs) = res_bind (strings vs) (\<lambda>cs. Ok (c # cs))"
| "strings (_ # vs) = Panic"

definition ListCollections :: "('si, 'sch, 'q, 'r, 'doc, 'w) solr \<Rightarrow> (('si, 'w) sstate, string list) io" where
  "ListCollections sl =
     io_bind (admin_action sl ''LIST'' None ''list collections failed'') (\<lambda>r st.
     (case ar_Response r ''collections'' of
        Some (JList vs) \<Rightarrow> strings vs
      | _ \<Rightarrow> Panic, st))"

section \<open>solr_search.go\<close>

text \<open>
  The methods of a query only set its parameters and do not panic, so that the deferred recoveries of the two
  builders have nothing to recover from.
\<close>

definition buildBasicQuery ::
  "('si, 'sch, 'q, 'r, 'doc, 'w) solr \<Rightarrow> string \<Rightarrow> string \<Rightarrow> int \<Rightarrow> int \<Rightarrow> 'q" where
  "buildBasicQuery sl query flds start rows =
     (let q = sl_Q sl query (sl_NewQuery sl);
          q = (if flds \<noteq> cEmpty then sl_FieldList sl flds q else q)
      in sl_Rows sl rows (sl_Start sl start q))"

definition buildFilteredQuery ::
  "('si, 'sch, 'q, 'r, 'doc, 'w) solr \<Rightarrow> string \<Rightarrow> string \<Rightarrow> int \<Rightarrow> int \<Rightarrow> string list \<Rightarrow> 'q" where
  "buildFilteredQuery sl query flds start rows filterQueries =
     fold (sl_FilterQuery sl) filterQueries (buildBasicQuery sl query flds start rows)"

text \<open>The result is a pointer: nil after a recovered panic.\<close>

definition SimpleQuery ::
  "('si, 'sch, 'q, 'r, 'doc, 'w) solr \<Rightarrow> string \<Rightarrow> string \<Rightarrow> string \<Rightarrow> int \<Rightarrow> int \<Rightarrow> (('si, 'w) sstate, 'r option) io" where
  "SimpleQuery sl collection query flds start rows =
     recoverFromFailure None
       (io_bind (getSolrInterface sl collection) (\<lambda>si.
        io_bind (io_snd (sl_Result sl si (buildBasicQuery sl query flds start rows))) (\<lambda>r.
        io_ret (Some r))))"

definition FilteredQuery ::
  "('si, 'sch, 'q, 'r, 'doc, 'w) solr \<Rightarrow> string \<Rightarrow> string \<Rightarrow> string \<Rightarrow> int \<Rightarrow> int \<Rightarrow> string list \<Rightarrow>
     (('si, 'w) sstate, 'r option) io" where
  "FilteredQuery sl collection query flds start rows filterQueries =
     recoverFromFailure None
       (io_bind (getSolrInterface sl collection) (\<lambda>si.
        io_bind (io_snd (sl_Result sl si (buildFilteredQuery sl query flds start rows filterQueries))) (\<lambda>r.
        io_ret (Some r))))"

definition addFacets :: "('si, 'sch, 'q, 'r, 'doc, 'w) solr \<Rightarrow> string list \<Rightarrow> 'q \<Rightarrow> 'q" where
  "addFacets sl facetFields q = fold (sl_AddFacet sl) facetFields q"

definition addChildrenFacets :: "('si, 'sch, 'q, 'r, 'doc, 'w) solr \<Rightarrow> string list \<Rightarrow> 'q \<Rightarrow> 'q" where
  "addChildrenFacets sl facetFields q = fold (sl_AddChildFacet sl) facetFields q"

definition cFacetLimit :: string where "cFacetLimit = ''facet.limit''"

definition Facets ::
  "('si, 'sch, 'q, 'r, 'doc, 'w) solr \<Rightarrow> string \<Rightarrow> string \<Rightarrow> string \<Rightarrow> int \<Rightarrow> int \<Rightarrow> string list \<Rightarrow> string list \<Rightarrow>
     string list \<Rightarrow> bool \<Rightarrow> int \<Rightarrow> int \<Rightarrow> (('si, 'w) sstate, 'r option) io" where
  "Facets sl collection query flds start rows filterQueries facetFields childrenFacetFields blockJoin facetLimit minCount =
     recoverFromFailure None
       (io_bind (getSolrInterface sl collection) (\<lambda>si.
        let q = buildFilteredQuery sl query flds start rows filterQueries;
            q = addFacets sl facetFields q;
            q = addChildrenFacets sl childrenFacetFields q;
            q = sl_SetFacetMinCount sl minCount q;
            q = sl_SetParam sl cFacetLimit (itoa facetLimit) q
        in io_bind (io_snd (if blockJoin then sl_BlockJoinFaceting sl si q else sl_Result sl si q)) (\<lambda>r.
           io_ret (Some r))))"

section \<open>The cache of interfaces\<close>

definition cached :: "('si, 'w) sstate \<Rightarrow> string \<Rightarrow> 'si option" where
  "cached st c = sm_load (ss_solrInterfaceCache (fst st)) c"

text \<open>A call that never changes the interface that a collection has.\<close>

definition keeps_cache :: "(('si, 'w) sstate, 'a) io \<Rightarrow> bool" where
  "keeps_cache m \<longleftrightarrow> (\<forall>st c si. cached st c = Some si \<longrightarrow> cached (snd (m st)) c = Some si)"

lemma keepsD: "keeps_cache m \<Longrightarrow> cached st c = Some si \<Longrightarrow> cached (snd (m st)) c = Some si"
  unfolding keeps_cache_def by blast

named_theorems keeps_intros

lemma keeps_bind [keeps_intros]: "keeps_cache m \<Longrightarrow> (\<And>x. keeps_cache (f x)) \<Longrightarrow> keeps_cache (io_bind m f)"
  unfolding keeps_cache_def io_bind_def by (auto split: prod.splits res.splits) (metis snd_conv)+

lemma keeps_recover [keeps_intros]: "keeps_cache m \<Longrightarrow> keeps_cache (recoverFromFailure z m)"
  unfolding keeps_cache_def recoverFromFailure_def io_recover_def io_ret_def
  by (auto split: prod.splits res.splits) (metis snd_conv)+

lemma keeps_snd [keeps_intros]: "keeps_cache (io_snd m)"
  by (auto simp: keeps_cache_def io_snd_def cached_def split: prod.splits)

lemma keeps_id [keeps_intros]: "keeps_cache (io_ret x)" "keeps_cache (\<lambda>st. (r, st))"
  by (simp_all add: keeps_cache_def io_ret_def)

lemma keeps_getSolrInterface [keeps_intros]: "keeps_cache (getSolrInterface sl c)"
  by (auto simp: keeps_cache_def getSolrInterface_def cached_def split: option.splits prod.splits res.splits)

lemma keeps_if [keeps_intros]: "keeps_cache m \<Longrightarrow> keeps_cache n \<Longrightarrow> keeps_cache (if b then m else n)"
  by simp

lemma keeps_admin [keeps_intros]: "keeps_cache (admin_action sl a ps f)"
proof -
  have k: "keeps_cache (io_bind (io_snd (sl_Action sl u a ps)) (\<lambda>r. if ar_Status r \<noteq> 0 then (\<lambda>st. (Err f, st)) else io_ret r))" for u
    by (intro keeps_intros)
  show ?thesis
    unfolding keeps_cache_def
  proof (intro allI impI)
    fix st :: "('a, 'b) sstate" and c si
    assume "cached st c = Some si"
    from keepsD [OF k [of "ss_url (fst st)"] this]
    show "cached (snd (admin_action sl a ps f st)) c = Some si"
      by (simp add: admin_action_def)
  qed
qed

lemma keeps_operations:
  "keeps_cache (AddDocument sl c commit doc)"
  "keeps_cache (AddDocuments sl c commit docs)"
  "keeps_cache (DeleteDocumentByID sl c commit docid)"
  "keeps_cache (DeleteDocumentByQuery sl c commit query)"
  "keeps_cache (AddNewField sl c name ty mv sto idx dv)"
  "keeps_cache (CreateCollection sl c conf shards repl)"
  "keeps_cache (DeleteCollection sl c)"
  "keeps_cache (ListCollections sl)"
  "keeps_cache (SimpleQuery sl c query flds start rows)"
  "keeps_cache (FilteredQuery sl c query flds start rows fqs)"
  "keeps_cache (Facets sl c query flds start rows fqs ffs cfs bj lim minc)"
  by (auto simp: AddDocument_def AddDocuments_def DeleteDocumentByID_def DeleteDocumentByQuery_def AddNewField_def
      getSchema_def CreateCollection_def DeleteCollection_def ListCollections_def SimpleQuery_def FilteredQuery_def
      Facets_def Let_def split: option.splits prod.splits intro!: keeps_intros)

section \<open>Calls at the same time\<close>

text \<open>
  \<open>getSolrInterface\<close> cut at its accesses to the cache and at the call that creates an interface: the next action
  of a call, or its answer (\<open>Inr\<close>).
\<close>

datatype 'si get_pc = AtLoad string | AtNew string | AtStore string 'si

fun get_step ::
  "('si, 'sch, 'q, 'r, 'doc, 'w) solr \<Rightarrow> 'si get_pc \<Rightarrow> ('si, 'w) sstate \<Rightarrow>
     ('si get_pc + (string, 'si) res) \<times> ('si, 'w) sstate" where
  "get_step sl (AtLoad collection) st =
     (case sm_load (ss_solrInterfaceCache (fst st)) collection of
        Some si \<Rightarrow> (Inr (Ok si), st)
      | None \<Rightarrow> (Inl (AtNew collection), st))"
| "get_step sl (AtNew collection) st =
     (case sl_NewSolrInterface sl (ss_url (fst st)) collection (snd st) of
        (Ok si, w) \<Rightarrow> (Inl (AtStore collection si), (fst st, w))
      | (Err err, w) \<Rightarrow> (Inr (Err err), (fst st, w))
      | (Panic, w) \<Rightarrow> (Inr Panic, (fst st, w)))"
| "get_step sl (AtStore collection si) st =
     (Inr (Ok si), ((fst st)\<lparr>ss_solrInterfaceCache := sm_store collection si (ss_solrInterfaceCache (fst st))\<rparr>, snd st))"

fun pc_collection :: "'si get_pc \<Rightarrow> string" where
  "pc_collection (AtLoad c) = c"
| "pc_collection (AtNew c) = c"
| "pc_collection (AtStore c _) = c"

text \<open>A call that nothing disturbs.\<close>

lemma getSolrInterface_steps:
  "getSolrInterface sl c st =
     (case get_step sl (AtLoad c) st of
        (Inr r, st) \<Rightarrow> (r, st)
      | (Inl pc, st) \<Rightarrow>
          (case get_step sl pc st of
             (Inr r, st) \<Rightarrow> (r, st)
           | (Inl pc, st) \<Rightarrow> (case get_step sl pc st of (Inr r, st) \<Rightarrow> (r, st) | (Inl pc, st) \<Rightarrow> (Panic, st))))"
  by (simp add: getSolrInterface_def split: option.split prod.split res.split)

text \<open>
  The service with the calls that are on their way and the answers given so far, each with its collection. Every
  operation of the service is a call of \<open>getSolrInterface\<close> followed by calls of the Solr client, which
  change the world only (rule \<open>world\<close>).
\<close>

type_synonym ('si, 'w) calls = "('si, 'w) sstate \<times> 'si get_pc list \<times> (string \<times> (string, 'si) res) list"

inductive solar_step ::
  "('si, 'sch, 'q, 'r, 'doc, 'w) solr \<Rightarrow> ('si, 'w) calls \<Rightarrow> ('si, 'w) calls \<Rightarrow> bool" for sl where
  call: "solar_step sl (st, ps, as) (st, ps @ [AtLoad c], as)"
| goes_on: "i < length ps \<Longrightarrow> get_step sl (ps ! i) st = (Inl pc, st') \<Longrightarrow> solar_step sl (st, ps, as) (st', ps[i := pc], as)"
| answers: "i < length ps \<Longrightarrow> get_step sl (ps ! i) st = (Inr r, st') \<Longrightarrow>
     solar_step sl (st, ps, as) (st', take i ps @ drop (Suc i) ps, as @ [(pc_collection (ps ! i), r)])"
| world: "solar_step sl ((ss, w), ps, as) ((ss, w'), ps, as)"

text \<open>A call that has missed the cache and is going to replace what the cache has for the collection.\<close>

fun creates :: "string \<Rightarrow> 'si get_pc \<Rightarrow> bool" where
  "creates c (AtLoad _) \<longleftrightarrow> False"
| "creates c (AtNew c') \<longleftrightarrow> c' = c"
| "creates c (AtStore c' _) \<longleftrightarrow> c' = c"

definition settled :: "string \<Rightarrow> 'si \<Rightarrow> ('si, 'w) calls \<Rightarrow> bool" where
  "settled c si s \<longleftrightarrow> cached (fst s) c = Some si \<and> (\<forall>pc\<in>set (fst (snd s)). \<not> creates c pc)"

lemma get_step_settled:
  assumes "get_step sl pc st = (x, st')" and "cached st c = Some si" and "\<not> creates c pc"
  shows "cached st' c = Some si" "x = Inl pc' \<Longrightarrow> \<not> creates c pc'" "x = Inr r \<Longrightarrow> pc_collection pc = c \<Longrightarrow> r = Ok si"
proof -
  have "cached st' c = Some si \<and> (\<forall>pc'. x = Inl pc' \<longrightarrow> \<not> creates c pc') \<and> (\<forall>r. x = Inr r \<longrightarrow> pc_collection pc = c \<longrightarrow> r = Ok si)"
    using assms by (cases pc) (auto simp: cached_def split: option.split_asm prod.split_asm res.split_asm)
  then show "cached st' c = Some si" "x = Inl pc' \<Longrightarrow> \<not> creates c pc'" "x = Inr r \<Longrightarrow> pc_collection pc = c \<Longrightarrow> r = Ok si"
    by blast+
qed

lemma settled_step:
  assumes "solar_step sl s s'" and "settled c si s"
  shows "settled c si s' \<and> (\<exists>more. snd (snd s') = snd (snd s) @ more \<and> (\<forall>r. (c, r) \<in> set more \<longrightarrow> r = Ok si))"
  using assms(1)
proof cases
  case (goes_on i ps st pc st' as)
  have "\<not> creates c (ps ! i)" using assms(2) goes_on by (auto simp: settled_def)
  from get_step_settled [OF goes_on(4) _ this] assms(2) goes_on set_update_subset_insert [of ps i pc] show ?thesis
    by (auto simp: settled_def)
next
  case (answers i ps st r st' as)
  have "\<not> creates c (ps ! i)" using assms(2) answers by (auto simp: settled_def)
  from get_step_settled [OF answers(4) _ this] assms(2) answers show ?thesis
    by (auto simp: settled_def dest: in_set_takeD in_set_dropD)
qed (use assms(2) in \<open>auto simp: settled_def cached_def\<close>)

text \<open>
  C21: once the cache has an interface for a collection, and no call that missed the cache is still on its way, all
  later calls for the collection, however their accesses interleave with those of other calls, return this same
  interface, and none of them creates another. A deleted collection keeps its interface.
\<close>

theorem solar_interface_stable:
  assumes "(solar_step sl)\<^sup>*\<^sup>* (st, ps, as) (st', ps', as')" and "cached st c = Some si" and "\<forall>pc\<in>set ps. \<not> creates c pc"
  shows "cached st' c = Some si \<and> (\<forall>pc\<in>set ps'. \<not> creates c pc) \<and>
    (\<exists>more. as' = as @ more \<and> (\<forall>r. (c, r) \<in> set more \<longrightarrow> r = Ok si))"
proof -
  have "settled c si s' \<and> (\<exists>more. snd (snd s') = snd (snd s) @ more \<and> (\<forall>r. (c, r) \<in> set more \<longrightarrow> r = Ok si))"
    if "(solar_step sl)\<^sup>*\<^sup>* s s'" "settled c si s" for s s'
    using that(1)
  proof (induction rule: rtranclp_induct)
    case base
    with that(2) show ?case by simp
  next
    case (step s1 s2)
    from settled_step [OF step.hyps(2)] step.IH show ?case by fastforce
  qed
  from this [OF assms(1)] assms(2,3) show ?thesis by (simp add: settled_def)
qed

text \<open>Where the interfaces come from.\<close>

definition made_for :: "('si, 'sch, 'q, 'r, 'doc, 'w) solr \<Rightarrow> string \<Rightarrow> string \<Rightarrow> 'si \<Rightarrow> bool" where
  "made_for sl url c si \<longleftrightarrow> (\<exists>w. fst (sl_NewSolrInterface sl url c w) = Ok si)"

definition own_interfaces :: "('si, 'sch, 'q, 'r, 'doc, 'w) solr \<Rightarrow> string \<Rightarrow> ('si, 'w) calls \<Rightarrow> bool" where
  "own_interfaces sl url s \<longleftrightarrow> ss_url (fst (fst s)) = url \<and>
     (\<forall>c si. cached (fst s) c = Some si \<longrightarrow> made_for sl url c si) \<and>
     (\<forall>c si. AtStore c si \<in> set (fst (snd s)) \<longrightarrow> made_for sl url c si) \<and>
     (\<forall>c si. (c, Ok si) \<in> set (snd (snd s)) \<longrightarrow> made_for sl url c si)"

lemma get_step_own:
  assumes "get_step sl pc st = (x, st')" and "ss_url (fst st) = url"
    and "\<And>c si. cached st c = Some si \<Longrightarrow> made_for sl url c si" and "\<And>c si. pc = AtStore c si \<Longrightarrow> made_for sl url c si"
  shows "ss_url (fst st') = url \<and> (\<forall>c si. cached st' c = Some si \<longrightarrow> made_for sl url c si) \<and>
    (\<forall>c si. x = Inl (AtStore c si) \<longrightarrow> made_for sl url c si) \<and>
    (\<forall>si. x = Inr (Ok si) \<longrightarrow> made_for sl url (pc_collection pc) si)"
proof (cases pc)
  case (AtLoad c)
  then show ?thesis using assms by (auto simp: cached_def split: option.split_asm)
next
  case (AtNew c)
  then show ?thesis
    using assms(1-3) by (auto simp: cached_def made_for_def split: prod.split_asm res.split_asm) (metis fst_conv)
next
  case (AtStore c si)
  then show ?thesis
    using assms by (auto simp: cached_def split: if_split_asm)
qed

lemma own_interfaces_step: "solar_step sl s s' \<Longrightarrow> own_interfaces sl url s \<Longrightarrow> own_interfaces sl url s'"
proof (induction rule: solar_step.induct)
  case (goes_on i ps st pc st' as)
  have own: "made_for sl url c si" if "cached st c = Some si \<or> ps ! i = AtStore c si" for c si
    using goes_on.prems that nth_mem [OF goes_on.hyps(1)] by (metis fst_conv own_interfaces_def snd_conv)
  have "ss_url (fst st) = url" using goes_on.prems by (simp add: own_interfaces_def)
  from get_step_own [OF goes_on.hyps(2) this] own goes_on.prems set_update_subset_insert [of ps i pc] show ?case
    by (fastforce simp: own_interfaces_def)
next
  case (answers i ps st r st' as)
  have own: "made_for sl url c si" if "cached st c = Some si \<or> ps ! i = AtStore c si" for c si
    using answers.prems that nth_mem [OF answers.hyps(1)] by (metis fst_conv own_interfaces_def snd_conv)
  have "ss_url (fst st) = url" using answers.prems by (simp add: own_interfaces_def)
  from get_step_own [OF answers.hyps(2) this] own answers.prems show ?case
    by (fastforce simp: own_interfaces_def dest: in_set_takeD in_set_dropD)
qed (auto simp: own_interfaces_def cached_def)

text \<open>
  An interface never serves a collection other than its own: in a service that starts with an empty cache, however
  its calls interleave, an interface that is in the cache for a collection, or that a call for the collection
  returns, was created for that collection and for the service's URL.
\<close>

theorem solar_own_interfaces:
  assumes "NewSolrService sl url = Ok ss" and "(solar_step sl)\<^sup>*\<^sup>* ((ss, w), [], []) (st, ps, as)"
    and "cached st c = Some si \<or> (c, Ok si) \<in> set as"
  shows "\<exists>w. fst (sl_NewSolrInterface sl url c w) = Ok si"
proof -
  have "own_interfaces sl url ((ss, w), [], [])"
    using assms(1)
    by (auto simp: NewSolrService_def own_interfaces_def cached_def res_bind_Ok_iff split: option.split_asm)
  with assms(2) have "own_interfaces sl url (st, ps, as)"
    by (induction rule: rtranclp_induct) (auto intro: own_interfaces_step)
  with assms(3) show ?thesis
    by (auto simp: own_interfaces_def made_for_def)
qed

text \<open>
  Deleting by id is deleting by query with the id put into the query text as it is: the two calls do the same
  for every non-empty id, so an id such as \<open>x OR *:*\<close> deletes what that query selects.
\<close>

theorem solar_delete_id_query:
  assumes "docid \<noteq> []"
  shows "DeleteDocumentByID sl c commit docid = DeleteDocumentByQuery sl c commit (''id:'' @ docid)"
proof
  fix st
  have "DeleteDocumentByQuery sl c commit (''id:'' @ docid) st \<noteq> (Panic, s)" for s
    by (auto simp: DeleteDocumentByQuery_def recoverFromFailure_def io_recover_def io_ret_def split: prod.splits res.splits)
  then show "DeleteDocumentByID sl c commit docid st = DeleteDocumentByQuery sl c commit (''id:'' @ docid) st"
    using assms
    by (auto simp: DeleteDocumentByID_def cEmpty_def recoverFromFailure_def io_recover_def io_ret_def split: prod.splits res.splits)
qed

text \<open>
  An operation that has a deferred recovery never panics, but it then returns a nil error: a document that was
  not added, or not deleted, because the client panicked is reported as a success, and a query returns
  neither a result nor an error.
\<close>

theorem solar_panic_reported_as_success:
  assumes "getSolrInterface sl c st = (Ok si, (ss, w))" and "docs \<noteq> []" and "query \<noteq> []"
  shows "(fst (sl_Add sl si docs 0 (commit_params commit) w) = Panic \<longrightarrow>
      fst (AddDocuments sl c commit docs st) = Ok ()) \<and>
    (fst (sl_Delete sl si [(cQuery, query)] (commit_params commit) w) = Panic \<longrightarrow>
      fst (DeleteDocumentByQuery sl c commit query st) = Ok ()) \<and>
    (fst (sl_Result sl si (buildBasicQuery sl query flds start rows) w) = Panic \<longrightarrow>
      fst (SimpleQuery sl c query flds start rows st) = Ok None)"
  using assms
  by (auto simp: AddDocuments_def DeleteDocumentByQuery_def SimpleQuery_def recoverFromFailure_def io_recover_def
      io_bind_def io_ret_def io_snd_def cEmpty_def split: prod.splits)

text \<open>
  A filtered query without filters is the simple query, and facets without any facet field differ from it only
  in the two facet settings.
\<close>

theorem solar_filtered_nil:
  "FilteredQuery sl c query flds start rows [] = SimpleQuery sl c query flds start rows"
  by (simp add: FilteredQuery_def SimpleQuery_def buildFilteredQuery_def)

lemma strings_Ok_iff: "strings vs = Ok cs \<longleftrightarrow> vs = map JString cs"
proof
  show "strings vs = Ok cs \<Longrightarrow> vs = map JString cs"
    by (induction vs arbitrary: cs rule: strings.induct) (auto simp: res_bind_Ok_iff)
  show "vs = map JString cs \<Longrightarrow> strings vs = Ok cs"
    by (induction cs arbitrary: vs) auto
qed

lemma strings_not_Err: "strings vs \<noteq> Err e"
  by (induction vs rule: strings.induct) (auto simp: res_bind_Err_iff)

text \<open>
  \<open>ListCollections\<close> returns exactly the names of the answer; an answer without a list of strings under
  \<open>collections\<close> makes it panic, since this operation has no deferred recovery.
\<close>

theorem solar_list_collections:
  assumes "sl_Action sl (ss_url ss) ''LIST'' None w = (Ok r, w')" and "ar_Status r = 0"
  shows "(fst (ListCollections sl (ss, w)) = Ok cs \<longleftrightarrow> ar_Response r ''collections'' = Some (JList (map JString cs))) \<and>
    ((\<forall>cs. ar_Response r ''collections'' \<noteq> Some (JList (map JString cs))) \<longrightarrow> fst (ListCollections sl (ss, w)) = Panic)"
proof -
  have list: "fst (ListCollections sl (ss, w)) = (case ar_Response r ''collections'' of Some (JList vs) \<Rightarrow> strings vs | _ \<Rightarrow> Panic)"
    using assms by (simp add: ListCollections_def admin_action_def io_bind_def io_snd_def io_ret_def)
  show ?thesis
  proof (cases "\<exists>vs. ar_Response r ''collections'' = Some (JList vs)")
    case True
    then obtain vs where vs: "ar_Response r ''collections'' = Some (JList vs)"
      by blast
    then show ?thesis
      using list strings_not_Err [of vs] strings_Ok_iff [of vs] by (cases "strings vs") auto
  qed (auto simp: list split: option.splits jvalue.splits)
qed

text \<open>Calls without a document, an id or a query fail before anything is asked of the server.\<close>

lemma solar_rejects_empty:
  "AddDocument sl c commit None st = (Err ''document is null'', st)"
  "AddDocuments sl c commit [] st = (Err ''no documents to add'', st)"
  "DeleteDocumentByID sl c commit [] st = (Err ''document id not informed, no document will be deleted'', st)"
  "DeleteDocumentByQuery sl c commit [] st = (Err ''query not informed, no document will be deleted'', st)"
  by (simp_all add: AddDocument_def AddDocuments_def DeleteDocumentByID_def DeleteDocumentByQuery_def
      recoverFromFailure_def io_recover_def cEmpty_def)

section \<open>Witnesses\<close>

text \<open>A client whose interfaces are the names of the collections and that logs its calls; adding panics.\<close>

definition solr_example :: "(string, unit, string list, string, string, string list) solr" where
  "solr_example = \<lparr>sl_NewCollectionsAdmin = (\<lambda>_. None),
     sl_NewSolrInterface = (\<lambda>u c w. (Ok c, w @ [''new '' @ c])),
     sl_Add = (\<lambda>si ds n ps w. (Panic, w)),
     sl_Delete = (\<lambda>si d ps w. (Ok (True, ''''), w @ map snd d)),
     sl_Schema = (\<lambda>si w. (Ok (), w)), sl_Post = (\<lambda>sch p f w. (Ok (), w)),
     sl_Action = (\<lambda>u a ps w. (Ok \<lparr>ar_Status = 0, ar_Response = [''collections'' \<mapsto> JList [JString ''c1'', JString ''c2'']]\<rparr>, w)),
     sl_NewQuery = [], sl_Q = (\<lambda>s q. q @ [s]), sl_FieldList = (\<lambda>s q. q @ [s]), sl_Start = (\<lambda>_ q. q), sl_Rows = (\<lambda>_ q. q),
     sl_FilterQuery = (\<lambda>s q. q @ [s]), sl_AddFacet = (\<lambda>s q. q @ [s]), sl_AddChildFacet = (\<lambda>s q. q @ [s]),
     sl_SetFacetMinCount = (\<lambda>_ q. q), sl_SetParam = (\<lambda>_ _ q. q),
     sl_Result = (\<lambda>si q w. (Ok ''r'', w)), sl_BlockJoinFaceting = (\<lambda>si q w. (Ok ''r'', w))\<rparr>"

definition service_example :: "string SolrService" where
  "service_example = \<lparr>ss_url = ''http://solr'', ss_loggers = \<lparr>numKeyValues = 2, keyValues = [''pkg'', ''solar'']\<rparr>,
     ss_solrInterfaceCache = sm_empty\<rparr>"

lemma example_interface:
  "getSolrInterface solr_example ''c1'' (service_example, []) =
     (Ok ''c1'', (service_example\<lparr>ss_solrInterfaceCache := [(''c1'', ''c1'')]\<rparr>, [''new c1'']))"
  by (simp add: getSolrInterface_def solr_example_def service_example_def sm_load_def sm_empty_def sm_store_def)

text \<open>The service after one call for \<open>c1\<close>; a second call comes.\<close>

lemma example_second_call:
  defines "st \<equiv> (service_example\<lparr>ss_solrInterfaceCache := [(''c1'', ''c1'')]\<rparr>, [''new c1''])"
  shows "(solar_step solr_example)\<^sup>*\<^sup>* (st, [], as) (st, [], as @ [(''c1'', Ok ''c1'')])"
proof -
  have "(solar_step solr_example)\<^sup>*\<^sup>* (st, [], as) (st, [AtLoad ''c1''], as)"
    using solar_step.call [of solr_example st "[]" as "''c1''"] by (intro r_into_rtranclp) simp
  also have "solar_step solr_example \<dots> (st, [], as @ [(''c1'', Ok ''c1'')])"
    using solar_step.answers [of 0 "[AtLoad ''c1'']" solr_example st "Ok ''c1''" st as] by (simp add: st_def sm_load_def)
  finally show ?thesis .
qed

theorem solar_interface_stable_witness:
  "\<exists>st as. (solar_step solr_example)\<^sup>*\<^sup>* (st, [], []) (st, [], as) \<and> as \<noteq> [] \<and> (\<forall>r. (''c1'', r) \<in> set as \<longrightarrow> r = Ok ''c1'')"
proof -
  let ?st = "(service_example\<lparr>ss_solrInterfaceCache := [(''c1'', ''c1'')]\<rparr>, [''new c1''])"
  have "\<forall>r. (''c1'', r) \<in> set ([] @ [(''c1'', Ok ''c1'')]) \<longrightarrow> r = Ok ''c1''"
    using solar_interface_stable [OF example_second_call, of "''c1''" "''c1''" "[]"] by (simp add: cached_def sm_load_def)
  then show ?thesis
    using example_second_call [of "[]"] by (intro exI [of _ ?st] exI [of _ "[] @ [(''c1'', Ok ''c1'')]"]) simp
qed

text \<open>
  Two calls for the same collection that both miss the cache create an interface each, and the second \<open>Store\<close>
  replaces the first interface, which its caller goes on to use. The interfaces of this client are numbered by the
  calls that created them.
\<close>

definition solr_numbering :: "(string, unit, string list, string, string, string list) solr" where
  "solr_numbering = solr_example\<lparr>sl_NewSolrInterface := (\<lambda>u c w. (Ok (c @ itoa (int (length w))), w @ [''new '' @ c]))\<rparr>"

lemma solar_race_two_interfaces:
  defines "s0 \<equiv> ((service_example, []), [], [])"
  shows "\<exists>st. (solar_step solr_numbering)\<^sup>*\<^sup>* s0
      (st, [], [(''c1'', Ok (''c1'' @ itoa 0)), (''c1'', Ok (''c1'' @ itoa 1))]) \<and> cached st ''c1'' = Some (''c1'' @ itoa 1)"
proof -
  let ?a = "''c1'' @ itoa 0" and ?b = "''c1'' @ itoa 1"
  let ?st = "\<lambda>m w. (service_example\<lparr>ss_solrInterfaceCache := m\<rparr>, w)"
  let ?s0 = "?st sm_empty []" and ?s1 = "?st sm_empty [''new c1'']" and ?s2 = "?st sm_empty [''new c1'', ''new c1'']"
  let ?s3 = "?st (sm_store ''c1'' ?a sm_empty) [''new c1'', ''new c1'']"
  let ?s4 = "?st (sm_store ''c1'' ?b (sm_store ''c1'' ?a sm_empty)) [''new c1'', ''new c1'']"
  let ?go = "solar_step solr_numbering"
  have s0: "s0 = (?s0, [], [])" by (simp add: s0_def service_example_def)
  have "?go\<^sup>*\<^sup>* (?s0, [], []) (?s0, [AtLoad ''c1''], [])"
    using solar_step.call [of solr_numbering ?s0 "[]" "[]" "''c1''"] by (intro r_into_rtranclp) simp
  also have "?go \<dots> (?s0, [AtLoad ''c1'', AtLoad ''c1''], [])"
    using solar_step.call [of solr_numbering ?s0 "[AtLoad ''c1'']" "[]" "''c1''"] by simp
  also have "?go \<dots> (?s0, [AtNew ''c1'', AtLoad ''c1''], [])"
    using solar_step.goes_on [of 0 "[AtLoad ''c1'', AtLoad ''c1'']" solr_numbering ?s0 "AtNew ''c1''" ?s0 "[]"] by simp
  also have "?go \<dots> (?s0, [AtNew ''c1'', AtNew ''c1''], [])"
    using solar_step.goes_on [of 1 "[AtNew ''c1'', AtLoad ''c1'']" solr_numbering ?s0 "AtNew ''c1''" ?s0 "[]"] by simp
  also have "?go \<dots> (?s1, [AtStore ''c1'' ?a, AtNew ''c1''], [])"
    using solar_step.goes_on [of 0 "[AtNew ''c1'', AtNew ''c1'']" solr_numbering ?s0 "AtStore ''c1'' ?a" ?s1 "[]"]
    by (simp add: solr_numbering_def)
  also have "?go \<dots> (?s2, [AtStore ''c1'' ?a, AtStore ''c1'' ?b], [])"
    using solar_step.goes_on [of 1 "[AtStore ''c1'' ?a, AtNew ''c1'']" solr_numbering ?s1 "AtStore ''c1'' ?b" ?s2 "[]"]
    by (simp add: solr_numbering_def)
  also have "?go \<dots> (?s3, [AtStore ''c1'' ?b], [(''c1'', Ok ?a)])"
    using solar_step.answers [of 0 "[AtStore ''c1'' ?a, AtStore ''c1'' ?b]" solr_numbering ?s2 "Ok ?a" ?s3 "[]"] by simp
  also have "?go \<dots> (?s4, [], [(''c1'', Ok ?a), (''c1'', Ok ?b)])"
    using solar_step.answers [of 0 "[AtStore ''c1'' ?b]" solr_numbering ?s3 "Ok ?b" ?s4 "[(''c1'', Ok ?a)]"] by simp
  finally have "?go\<^sup>*\<^sup>* s0 (?s4, [], [(''c1'', Ok ?a), (''c1'', Ok ?b)])" by (simp only: s0)
  moreover have "cached ?s4 ''c1'' = Some ?b" by (simp add: cached_def)
  ultimately show ?thesis by blast
qed

theorem solar_own_interfaces_witness:
  "\<exists>w. fst (sl_NewSolrInterface solr_numbering ''http://solr'' ''c1'' w) = Ok (''c1'' @ itoa 1)"
proof -
  have new: "NewSolrService solr_numbering ''http://solr'' = Ok service_example"
    by (simp add: NewSolrService_def solr_numbering_def solr_example_def service_example_def CreateContextualLogger_def)
  obtain st where "(solar_step solr_numbering)\<^sup>*\<^sup>* ((service_example, []), [], [])
      (st, [], [(''c1'', Ok (''c1'' @ itoa 0)), (''c1'', Ok (''c1'' @ itoa 1))])"
    using solar_race_two_interfaces by blast
  from solar_own_interfaces [OF new this, of "''c1''" "''c1'' @ itoa 1"] show ?thesis by simp
qed

theorem solar_delete_id_query_witness:
  "DeleteDocumentByID solr_example ''c1'' True ''x OR *:*'' = DeleteDocumentByQuery solr_example ''c1'' True ''id:x OR *:*''"
  using solar_delete_id_query [of "''x OR *:*''" solr_example "''c1''" True] by simp

theorem solar_panic_reported_as_success_witness:
  "fst (AddDocuments solr_example ''c1'' True [''d''] (service_example, [])) = Ok ()"
  using solar_panic_reported_as_success [OF example_interface, of "[''d'']" "''q''" True] by (simp add: solr_example_def)

theorem solar_list_collections_witness:
  "fst (ListCollections solr_example (service_example, [])) = Ok [''c1'', ''c2'']"
proof -
  have "sl_Action solr_example (ss_url service_example) ''LIST'' None [] =
      (Ok \<lparr>ar_Status = 0, ar_Response = [''collections'' \<mapsto> JList [JString ''c1'', JString ''c2'']]\<rparr>, [])"
    by (simp add: solr_example_def)
  from solar_list_collections [OF this, of "[''c1'', ''c2'']"] show ?thesis
    by simp
qed

end
