(* ===== verification/Data_Access.thy ===== *)
theory Data_Access
  imports Files Go_Duration
begin

text \<open>
  The small packages around data stores and configuration: \<open>cassandra\<close> (\<open>src/cassandra/cassandra.go\<close>),
  \<open>cockroach\<close> (\<open>src/cockroach/connection.go\<close>), \<open>loader\<close> (\<open>src/loader/loader.go\<close>) and the point types of
  \<open>src/structs/mycenae.go\<close>.

  The drivers (\<open>gocql\<close>, \<open>gorm\<close>), the command \<open>docker\<close> and the decoders are parameters; what the packages
  themselves compute is the configuration, the connection URLs, the check of an address and the order
  of the calls.
\<close>

section \<open>structs/mycenae.go\<close>

record mycenae_Point =
  mp_Metric :: string
  mp_Tags :: "string \<Rightarrow> string option"
  mp_Timestamp :: "64 word"

record NumberPoint = mycenae_Point +
  np_Value :: float64

record TextPoint = mycenae_Point +
  tp_Text :: string

section \<open>cassandra.go\<close>

datatype Consistency =
  CAny | COne | CTwo | CThree | CQuorum | CAll | CLocalQuorum | CEachQuorum | CLocalOne

record cassandra_Settings =
  cs_Keyspace :: string
  cs_Consistency :: string
  cs_Nodes :: "string list"
  cs_Username :: string
  cs_Password :: string
  cs_Connections :: int
  cs_Retry :: int
  cs_PageSize :: int
  cs_ProtoVersion :: int
  cs_Timeout :: string

text \<open>The fields of \<open>gocql.ClusterConfig\<close> that are set.\<close>

record ClusterConfig =
  cc_Hosts :: "string list"
  cc_Timeout :: int
  cc_Keyspace :: string
  cc_ProtoVersion :: int
  cc_Consistency :: Consistency
  cc_Authenticator :: "(string \<times> string) option"
  cc_NumConns :: int
  cc_NumRetries :: "int option"
  cc_TokenAwareHostPool :: bool

record ('s, 'w) gocql =
  gq_NewCluster :: "string list \<Rightarrow> ClusterConfig"
  gq_CreateSession :: "ClusterConfig \<Rightarrow> ('w, 's) io"
  gq_SetPageSize :: "int \<Rightarrow> 's \<Rightarrow> 's"

definition consistency_switch :: "string \<Rightarrow> Consistency \<Rightarrow> Consistency" where
  "consistency_switch c dflt =
     (if c = ''one'' then COne else if c = ''quorum'' then CQuorum else if c = ''all'' then CAll else dflt)"

definition cassandra_New :: "('s, 'w) gocql \<Rightarrow> cassandra_Settings \<Rightarrow> ('w, 's) io" where
  "cassandra_New gq settings =
     (let cluster = gq_NewCluster gq (cs_Nodes settings) in
      if cs_Timeout settings \<noteq> [] \<and> ParseDuration (cs_Timeout settings) = None
      then (\<lambda>w. (Err (''time: invalid duration '' @ cs_Timeout settings), w))
      else
        (let cluster = (case ParseDuration (cs_Timeout settings) of
                          Some t \<Rightarrow> if cs_Timeout settings \<noteq> [] then cluster\<lparr>cc_Timeout := t\<rparr> else cluster
                        | None \<Rightarrow> cluster);
             cluster = cluster\<lparr>cc_Keyspace := cs_Keyspace settings, cc_ProtoVersion := 3\<rparr>;
             cluster = (if cs_ProtoVersion settings \<noteq> 0 then cluster\<lparr>cc_ProtoVersion := cs_ProtoVersion settings\<rparr> else cluster);
             cluster = cluster\<lparr>cc_Consistency := consistency_switch (cs_Consistency settings) (cc_Consistency cluster)\<rparr>;
             cluster = cluster\<lparr>cc_Authenticator := Some (cs_Username settings, cs_Password settings),
                               cc_NumConns := cs_Connections settings,
                               cc_NumRetries := Some (cs_Retry settings),
                               cc_TokenAwareHostPool := True\<rparr>
         in io_bind (gq_CreateSession gq cluster) (\<lambda>s.
            io_ret (if cs_PageSize settings \<noteq> 0 then gq_SetPageSize gq (cs_PageSize settings) s else s))))"

section \<open>connection.go\<close>

text \<open>\<open>'d\<close> is a \<open>*gorm.DB\<close>; the logger is left out of the connection.\<close>

record 'd Connection =
  co_dbConnection :: 'd

record ('d, 'w) gorm =
  go_Open :: "string \<Rightarrow> string \<Rightarrow> ('w, 'd) io"
  go_Close :: "'d \<Rightarrow> 'w \<Rightarrow> string option \<times> 'w"
  go_docker :: "string list \<Rightarrow> ('w, string) io"

definition NewConnUsingCerts :: "('d, 'w) gorm \<Rightarrow> string \<Rightarrow> string \<Rightarrow> string \<Rightarrow> string \<Rightarrow> ('w, 'd Connection) io" where
  "NewConnUsingCerts go host database user certsPath =
     (let connectionURL =
            ''postgresql://'' @ user @ ''@'' @ host @ ''/'' @ database @ ''?ssl=true&sslmode=require&sslrootcert='' @ certsPath @
            ''/ca.crt&sslkey='' @ certsPath @ ''/client.'' @ user @ ''.key&sslcert='' @ certsPath @ ''/client.'' @ user @ ''.crt''
      in io_bind (go_Open go ''postgres'' connectionURL) (\<lambda>db. io_ret \<lparr>co_dbConnection = db\<rparr>))"

definition password_url :: "string \<Rightarrow> string \<Rightarrow> string \<Rightarrow> string \<Rightarrow> string" where
  "password_url host database user password =
     ''postgresql://'' @ user @ '':'' @ password @ ''@'' @ host @ ''/'' @ database @ ''?ssl=true&sslmode=require''"

definition NewConnUsingPassword :: "('d, 'w) gorm \<Rightarrow> string \<Rightarrow> string \<Rightarrow> string \<Rightarrow> string \<Rightarrow> ('w, 'd Connection) io" where
  "NewConnUsingPassword go host database user password =
     io_bind (go_Open go ''postgres'' (password_url host database user password)) (\<lambda>db. io_ret \<lparr>co_dbConnection = db\<rparr>)"

text \<open>The regular expression \<open>[0-9]+\.[0-9]+\.[0-9]+\.[0-9]+\<close>: at the start of a string, then anywhere in it.\<close>

fun ip_here :: "nat \<Rightarrow> string \<Rightarrow> bool" where
  "ip_here 0 s = (case s of c # _ \<Rightarrow> is_digit c | [] \<Rightarrow> False)"
| "ip_here (Suc n) s =
     (case dropWhile is_digit s of
        c # r \<Rightarrow> s \<noteq> dropWhile is_digit s \<and> c = CHR ''.'' \<and> ip_here n r
      | [] \<Rightarrow> False)"

fun ip_matches :: "string \<Rightarrow> bool" where
  "ip_matches [] = False"
| "ip_matches (c # s) = (ip_here 3 (c # s) \<or> ip_matches s)"

definition first_line :: "string \<Rightarrow> string" where
  "first_line output = filter (\<lambda>c. c \<noteq> CHR 0x27) (takeWhile (\<lambda>c. c \<noteq> CHR 0x0A) output)"

definition NewConnUsingDocker ::
  "('d, 'w) gorm \<Rightarrow> string \<Rightarrow> string \<Rightarrow> string \<Rightarrow> string \<Rightarrow> string \<Rightarrow> int \<Rightarrow> ('w, 'd Connection) io" where
  "NewConnUsingDocker go pod network database user password port w =
     (case go_docker go [''inspect'', ''--format='' @ [CHR 0x27] @ ''{{ .NetworkSettings.Networks.'' @ network @
              ''.IPAddress }}'' @ [CHR 0x27], pod] w of
        (Ok output, w) \<Rightarrow>
          if \<not> ip_matches (first_line output)
          then (Err ([CHR 0x27] @ first_line output @ [CHR 0x27] @ '' is not a valid IP''), w)
          else NewConnUsingPassword go (first_line output @ '':'' @ itoa port) database user password w
      | (_, w) \<Rightarrow> (Panic, w))"

definition GetConnection :: "'d Connection \<Rightarrow> 'd" where
  "GetConnection c = co_dbConnection c"

text \<open>The error of closing is only logged.\<close>

definition co_Close :: "('d, 'w) gorm \<Rightarrow> 'd Connection \<Rightarrow> ('w, unit) io" where
  "co_Close go c w = (Ok (), snd (go_Close go (co_dbConnection c) w))"

section \<open>loader.go\<close>

text \<open>
  \<open>'t\<close> is what \<open>settings\<close> points to. A decoder returns its error and the settings as it leaves them.
  \<open>toml.DecodeFile\<close> reads the file itself.
\<close>

record 't decoders =
  ld_Abs :: "string \<Rightarrow> (string, string) res"
  ld_json :: "byte list \<Rightarrow> 't \<Rightarrow> string option \<times> 't"
  ld_yaml :: "byte list \<Rightarrow> 't \<Rightarrow> string option \<times> 't"
  ld_toml :: "string \<Rightarrow> fs \<Rightarrow> 't \<Rightarrow> string option \<times> 't"

text \<open>The bytes that can be read from an open file, or the error of reading it.\<close>

definition read_all :: "string \<Rightarrow> node \<Rightarrow> fs \<Rightarrow> (string, byte list) res" where
  "read_all p n s =
     (case fs_fault s OpRead p of
        Some err \<Rightarrow> Err err
      | None \<Rightarrow> (case n of Regular b _ \<Rightarrow> Ok b | Folder \<Rightarrow> Err (''read '' @ p @ '': is a directory'')))"

definition decoded :: "string option \<times> 't \<Rightarrow> fs \<Rightarrow> (string, unit) res \<times> 't \<times> fs" where
  "decoded d s = (case fst d of Some err \<Rightarrow> (Err err, snd d, s) | None \<Rightarrow> (Ok (), snd d, s))"

definition ConfJson :: "'t decoders \<Rightarrow> string \<Rightarrow> 't \<Rightarrow> fs \<Rightarrow> (string, unit) res \<times> 't \<times> fs" where
  "ConfJson ld path settings s =
     (case ld_Abs ld path of
        Ok absolutePath \<Rightarrow>
          (case os_Open absolutePath s of
             Ok (confFile, s) \<Rightarrow>
               (case read_all absolutePath confFile s of
                  Ok b \<Rightarrow> decoded (ld_json ld b settings) s
                | Err err \<Rightarrow> (Err err, settings, s)
                | Panic \<Rightarrow> (Panic, settings, s))
           | Err err \<Rightarrow> (Err err, settings, s)
           | Panic \<Rightarrow> (Panic, settings, s))
      | Err err \<Rightarrow> (Err err, settings, s)
      | Panic \<Rightarrow> (Panic, settings, s))"

definition ConfYaml :: "'t decoders \<Rightarrow> string \<Rightarrow> 't \<Rightarrow> fs \<Rightarrow> (string, unit) res \<times> 't \<times> fs" where
  "ConfYaml ld path settings s =
     (case ld_Abs ld path of
        Ok absolutePath \<Rightarrow>
          (case os_Open absolutePath s of
             Ok (confFile, s) \<Rightarrow>
               (case read_all absolutePath confFile s of
                  Ok b \<Rightarrow> decoded (ld_yaml ld b settings) (os_Close s)
                | Err err \<Rightarrow> (Err err, settings, os_Close s)
                | Panic \<Rightarrow> (Panic, settings, os_Close s))
           | Err err \<Rightarrow> (Err err, settings, s)
           | Panic \<Rightarrow> (Panic, settings, s))
      | Err err \<Rightarrow> (Err err, settings, s)
      | Panic \<Rightarrow> (Panic, settings, s))"

definition ConfToml :: "'t decoders \<Rightarrow> string \<Rightarrow> 't \<Rightarrow> fs \<Rightarrow> (string, unit) res \<times> 't \<times> fs" where
  "ConfToml ld path settings s =
     (case ld_Abs ld path of
        Ok absolutePath \<Rightarrow> decoded (ld_toml ld absolutePath s settings) s
      | Err err \<Rightarrow> (Err err, settings, s)
      | Panic \<Rightarrow> (Panic, settings, s))"

section \<open>Properties\<close>

text \<open>
  A session of \<open>cassandra.New\<close> is made with the timeout, protocol version, consistency, credentials, connections
  and retries of the settings, protocol version 3 when none is given and the driver's timeout when none is
  given; it uses the token aware host policy, and its page size is set when the settings have one.
\<close>

theorem cassandra_session:
  assumes "cassandra_New gq settings w = (Ok s, w')"
  shows "\<exists>cfg s0. gq_CreateSession gq cfg w = (Ok s0, w') \<and>
    s = (if cs_PageSize settings = 0 then s0 else gq_SetPageSize gq (cs_PageSize settings) s0) \<and>
    cc_Hosts cfg = cc_Hosts (gq_NewCluster gq (cs_Nodes settings)) \<and> cc_TokenAwareHostPool cfg \<and>
    cc_Keyspace cfg = cs_Keyspace settings \<and>
    cc_ProtoVersion cfg = (if cs_ProtoVersion settings = 0 then 3 else cs_ProtoVersion settings) \<and>
    cc_Consistency cfg = consistency_switch (cs_Consistency settings) (cc_Consistency (gq_NewCluster gq (cs_Nodes settings))) \<and>
    cc_Authenticator cfg = Some (cs_Username settings, cs_Password settings) \<and>
    cc_NumConns cfg = cs_Connections settings \<and> cc_NumRetries cfg = Some (cs_Retry settings) \<and>
    (cs_Timeout settings \<noteq> [] \<longrightarrow> ParseDuration (cs_Timeout settings) = Some (cc_Timeout cfg)) \<and>
    (cs_Timeout settings = [] \<longrightarrow> cc_Timeout cfg = cc_Timeout (gq_NewCluster gq (cs_Nodes settings)))"
  using assms
  by (fastforce simp: cassandra_New_def Let_def io_bind_def io_ret_def split: prod.splits res.splits if_splits option.splits)

text \<open>A timeout that does not parse is an error, and the driver is not asked for a session.\<close>

lemma cassandra_bad_timeout:
  assumes "cs_Timeout settings \<noteq> []" and "ParseDuration (cs_Timeout settings) = None"
  shows "\<exists>err. cassandra_New gq settings w = (Err err, w)"
  using assms by (simp add: cassandra_New_def Let_def)

text \<open>
  A consistency that is none of the three words, for instance one in capitals, is ignored: the session gets the
  default of the driver, whatever the text says.
\<close>

lemma cassandra_unknown_consistency:
  assumes "c \<notin> {''one'', ''quorum'', ''all''}" and "d \<notin> {''one'', ''quorum'', ''all''}"
  shows "cassandra_New gq (settings\<lparr>cs_Consistency := c\<rparr>) = cassandra_New gq (settings\<lparr>cs_Consistency := d\<rparr>)"
  using assms by (simp add: cassandra_New_def consistency_switch_def Let_def cong: if_cong option.case_cong)

definition digits :: "string \<Rightarrow> bool" where
  "digits s \<longleftrightarrow> s \<noteq> [] \<and> list_all is_digit s"

lemma dropWhile_digits: "list_all is_digit d \<Longrightarrow> dropWhile is_digit (d @ CHR ''.'' # r) = CHR ''.'' # r"
  by (induction d) (auto simp: is_digit_def)

lemma ip_here_Suc: "digits d \<Longrightarrow> ip_here (Suc n) (d @ CHR ''.'' # r) = ip_here n r"
  by (auto simp: digits_def dropWhile_digits)

lemma ip_here_0: "digits d \<Longrightarrow> ip_here 0 (d @ r)"
  by (cases d) (auto simp: digits_def)

lemma ip_here_address:
  assumes "digits a" "digits b" "digits c" "digits d"
  shows "ip_here 3 (a @ ''.'' @ b @ ''.'' @ c @ ''.'' @ d @ r)"
  using assms by (simp add: numeral_3_eq_3 ip_here_Suc ip_here_0 del: ip_here.simps)

lemma ip_matches_append: "ip_matches s \<Longrightarrow> ip_matches (p @ s)"
  by (induction p) auto

lemma ip_here_matches: "ip_here 3 s \<Longrightarrow> ip_matches s"
  by (cases s) (auto simp: numeral_3_eq_3)

text \<open>
  The check of the address that docker prints accepts any line that contains four numbers with dots somewhere,
  and the whole line becomes the host of the connection URL: what stands before or after the address is not
  rejected.
\<close>

theorem docker_address_unanchored:
  assumes "digits a" "digits b" "digits c" "digits d"
    and "first_line output = pre @ a @ ''.'' @ b @ ''.'' @ c @ ''.'' @ d @ post"
    and "go_docker go [''inspect'', ''--format='' @ [CHR 0x27] @ ''{{ .NetworkSettings.Networks.'' @ network @
              ''.IPAddress }}'' @ [CHR 0x27], pod] w = (Ok output, w')"
  shows "NewConnUsingDocker go pod network database user password port w =
    NewConnUsingPassword go (first_line output @ '':'' @ itoa port) database user password w'"
proof -
  have "ip_matches (first_line output)"
    unfolding assms(5) by (intro ip_matches_append ip_here_matches ip_here_address assms)
  then show ?thesis
    using assms(6) by (simp add: NewConnUsingDocker_def)
qed

text \<open>
  What loading a configuration leaves behind. \<open>ConfJson\<close> never closes the file it opens; \<open>ConfYaml\<close> and \<open>ConfToml\<close>
  leave the handles as they were. None of them changes a file, and settings are untouched when the file cannot be
  read.
\<close>

theorem loader_handles:
  "snd (snd (ConfYaml ld path t s)) = s \<and> snd (snd (ConfToml ld path t s)) = s \<and>
   snd (snd (ConfJson ld path t s)) =
     (if \<exists>p x. ld_Abs ld path = Ok p \<and> os_Open p s = Ok x then s\<lparr>fs_handles := Suc (fs_handles s)\<rparr> else s)"
proof (intro conjI)
  have close: "os_Open p s = Ok (n, s') \<Longrightarrow> s' = s\<lparr>fs_handles := Suc (fs_handles s)\<rparr>" for p n s'
    by (auto simp: os_Open_def split: option.splits)
  show "snd (snd (ConfYaml ld path t s)) = s" "snd (snd (ConfToml ld path t s)) = s"
    "snd (snd (ConfJson ld path t s)) =
       (if \<exists>p x. ld_Abs ld path = Ok p \<and> os_Open p s = Ok x then s\<lparr>fs_handles := Suc (fs_handles s)\<rparr> else s)"
    by (auto simp: ConfYaml_def ConfToml_def ConfJson_def decoded_def os_Close_def
        split: res.splits option.splits prod.splits dest!: close)
qed

definition gocql_example :: "(string, string list) gocql" where
  "gocql_example = \<lparr>gq_NewCluster = (\<lambda>hs. \<lparr>cc_Hosts = hs, cc_Timeout = 600, cc_Keyspace = [], cc_ProtoVersion = 2,
       cc_Consistency = CQuorum, cc_Authenticator = None, cc_NumConns = 2, cc_NumRetries = None, cc_TokenAwareHostPool = False\<rparr>),
     gq_CreateSession = (\<lambda>cfg w. (Ok ''session'', w @ [cc_Keyspace cfg])), gq_SetPageSize = (\<lambda>n s. s)\<rparr>"

definition settings_example :: cassandra_Settings where
  "settings_example = \<lparr>cs_Keyspace = ''ks'', cs_Consistency = ''QUORUM'', cs_Nodes = [''n1''], cs_Username = ''u'',
     cs_Password = ''p'', cs_Connections = 4, cs_Retry = 1, cs_PageSize = 0, cs_ProtoVersion = 0, cs_Timeout = []\<rparr>"

theorem cassandra_session_witness:
  "\<exists>cfg. gq_CreateSession gocql_example cfg [] = (Ok ''session'', [''ks'']) \<and> cc_ProtoVersion cfg = 3 \<and>
    cc_Consistency cfg = CQuorum"
proof -
  have "cassandra_New gocql_example settings_example [] = (Ok ''session'', [''ks''])"
    by (simp add: cassandra_New_def gocql_example_def settings_example_def io_bind_def io_ret_def Let_def split: option.split)
  from cassandra_session [OF this] show ?thesis
    by (auto simp: gocql_example_def settings_example_def consistency_switch_def)
qed

definition gorm_example :: "string \<Rightarrow> (string, string list) gorm" where
  "gorm_example output = \<lparr>go_Open = (\<lambda>d u w. (Ok ''db'', w @ [u])), go_Close = (\<lambda>d w. (None, w)),
     go_docker = (\<lambda>args w. (Ok output, w))\<rparr>"

theorem docker_address_unanchored_witness:
  "NewConnUsingDocker (gorm_example ''evil.com/10.0.0.1'') ''pod'' ''net'' ''db'' ''root'' ''pw'' 26257 [] =
     NewConnUsingPassword (gorm_example ''evil.com/10.0.0.1'') (''evil.com/10.0.0.1:'' @ itoa 26257) ''db'' ''root'' ''pw'' []"
  using docker_address_unanchored [of "''10''" "''0''" "''0''" "''1''" "''evil.com/10.0.0.1''" "''evil.com/''" "[]"
      "gorm_example ''evil.com/10.0.0.1''" "''net''" "''pod''" "[]" "[]" "''db''" "''root''" "''pw''" 26257]
  by (simp add: digits_def is_digit_def first_line_def gorm_example_def)

end
