(* ===== verification/Spec2Isabelle.thy ===== *)
theory Spec2Isabelle
  imports
    Timeline_Manager
    Scheduler
    Election
    Snitch
    Rip_Middleware
    Httpserver
    Files
    Solar
    Data_Access
begin

text \<open>
  A verification of \<open>gobol\<close>, a collection of Go packages that services share: a time series client
  (\<open>timeline\<close>), a scheduler (\<open>scheduler\<close>), a ZooKeeper election (\<open>election\<close>), a statistics client
  (\<open>snitch\<close>), value hashing (\<open>hashing\<close>), HTTP middleware (\<open>rip\<close>), logging (\<open>logh\<close>), compression and files
  (\<open>compress\<close>, \<open>files\<close>), access to data stores (\<open>solar\<close>, \<open>cassandra\<close>, \<open>cockroach\<close>), a test server
  (\<open>tester/httpserver\<close>) and small helpers (\<open>loader\<close>, \<open>structs\<close>, \<open>util\<close>).

  \<^bold>\<open>The program and its parts.\<close> A client of \<open>timeline\<close> builds a transport (HTTP or OpenTSDB), possibly a
  flattener over it, and a manager over either. Points go through the transport's channel to a loop
  that sends them in batches. With a flattener, a point is first converted by the transport, hashed
  to find its series, and collected; once per cycle every series becomes one point that is converted
  back and sent through the same channel. The scheduler, the election and \<open>snitch\<close> are independent of
  \<open>timeline\<close>; \<open>election\<close> uses \<open>util\<close>. An HTTP service puts its router (\<open>rip/router.go\<close>) behind the log
  middleware, which counts requests, and the gzip middleware, which compresses answers; handlers
  decode requests with \<open>FromJSON\<close> and answer with \<open>Success\<close> and \<open>Fail\<close>, which log through \<open>logh\<close>.

  \<^bold>\<open>The theories.\<close>

  \<^item> \<open>Gobol_Prelude\<close>: results of Go calls (value, error, panic), bytes and strings, hexadecimal and
    decimal text, \<open>sort.Sort\<close> with its contract (locale \<open>sort_contract\<close>).
  \<^item> \<open>Float64\<close>: IEEE-754 double arithmetic on 64-bit words, with the lemmas that comparison, addition,
    division and sums are exact on integers up to \<open>2 ^ 53\<close>.
  \<^item> \<open>Go_Duration\<close>: \<open>time.ParseDuration\<close>.
  \<^item> \<open>Sync_Map\<close>: \<open>sync.Map\<close> (locale \<open>sync_map_ops\<close>) and \<open>util/collections.go\<close>.
  \<^item> \<open>Go_Channel\<close>: buffered channels (locale \<open>channel_ops\<close>).
  \<^item> \<open>Hashing\<close>: \<open>hashing/byteconv.go\<close>, \<open>sortconv.go\<close>, \<open>hashing.go\<close>. A reflected value is a \<open>goval\<close>; a Go map is
    the list of its entries in iteration order. The hash functions are parameters (locale
    \<open>hash_contract\<close>, satisfied by a model of CRC-32).
  \<^item> \<open>Transport\<close>: \<open>timeline/transport.go\<close> and the data of the package. The record \<open>core\<close> is \<open>transportCore\<close>
    with the batches it has sent; \<open>transferDataLoop\<close> is an undisturbed pass of its loop, \<open>core_step\<close> interleaves the
    receives and transfers of the loop with senders and the close.
  \<^item> \<open>Http_Transport\<close>, \<open>Opentsdb_Transport\<close>: \<open>timeline/http.go\<close> and \<open>timeline/opentsdb.go\<close>; the serializers,
    the HTTP client and the network are records of functions over a state of the world.
  \<^item> \<open>Transport_Interface\<close>: the interface \<open>Transport\<close> as a sum of the two, with the contract of the
    conversions (locale \<open>point_conversion\<close>, interpreted for each transport and for their sum).
  \<^item> \<open>Flattener\<close>: \<open>timeline/flattener.go\<close>; entries live in a store because \<open>Add\<close> and the cycle share them
    by pointer.
  \<^item> \<open>Timeline_Manager\<close>: \<open>timeline/manager.go\<close>.
  \<^item> \<open>Scheduler\<close>: \<open>scheduler/task.go\<close>, \<open>scheduler/scheduler.go\<close>; a store of tasks, the map of ids, the live
    goroutines and the executed jobs. The operations are functions (calls that nothing disturbs) and are cut at
    their accesses to shared state by \<open>call_step\<close>; \<open>live_step\<close> interleaves the accesses of concurrent calls with the
    goroutines. The locale \<open>task_registry\<close> is what clients rely on.
  \<^item> \<open>Election\<close>: \<open>election/election.go\<close>, \<open>election/structs.go\<close>; handlers are functions on the manager's state
    that return, fail, panic or wait. The locale \<open>zookeeper\<close> says what the code relies on; an in-memory
    tree of nodes satisfies it. \<open>elect_step\<close> cuts an election at its calls to ZooKeeper; \<open>cluster_step\<close> interleaves
    the elections of several nodes that share a ZooKeeper.
  \<^item> \<open>Snitch\<close>: the package \<open>snitch\<close>; points in a store, the cron's table, the client loops.
  \<^item> \<open>Logh\<close>: \<open>logh/logh.go\<close>; zerolog is a record of functions (locale \<open>zerolog_contract\<close>, satisfied by a
    logger with a global level that keeps the lines it prints).
  \<^item> \<open>Compress\<close>: \<open>compress/gzip.go\<close>; Go's \<open>compress/gzip\<close> is a record of functions (locale
    \<open>gzip_contract\<close>, satisfied by a writer and a reader of stored blocks).
  \<^item> \<open>Go_Http\<close>: headers and the response writer of \<open>net/http\<close>, and \<open>util/util.go\<close>.
  \<^item> \<open>Rip\<close>: \<open>error.go\<close>, the response writers and \<open>rip/rip.go\<close>. A writer is a datatype, because the
    middlewares wrap the writer of the connection: \<open>Header\<close>, \<open>Write\<close> and \<open>WriteHeader\<close> are functions on it.
  \<^item> \<open>Rip_Middleware\<close>: \<open>rip/gzip_middleware.go\<close>, \<open>rip/log_middleware.go\<close>, \<open>rip/router.go\<close>; a handler of an
    application is a list of the calls it makes.
  \<^item> \<open>Httpserver\<close>: the package \<open>tester/httpserver\<close>.
  \<^item> \<open>Files\<close>: the package \<open>files\<close>, over a model of a file system with faults and a count of open handles.
  \<^item> \<open>Solar\<close>: the package \<open>solar\<close>; the Solr client is a record of functions; \<open>solar_step\<close> interleaves the accesses of
    concurrent calls to the cache of interfaces.
  \<^item> \<open>Data_Access\<close>: \<open>cassandra\<close>, \<open>cockroach\<close>, \<open>loader\<close>, \<open>structs\<close>.

  \<^bold>\<open>What the lemmas show.\<close> For \<open>hashing\<close>: the bytes of a value do not depend on map iteration order, exactly
  which values are converted, integers can be decoded again; maps with array keys are converted in
  iteration order. For \<open>timeline\<close>: an open transport conserves points and their order,
  every batch is transferred once and holds what was sent until the loop found the channel empty, a close drops
  what is in the channel; HTTP success is characterised; the
  OpenTSDB transfer delivers once the network stops failing; points round-trip through the HTTP
  conversion; \<open>Add\<close> refines an update of the map of series and a cycle sends exactly one item per series
  with the aggregate of all its values, exact on integers; a client's values reach the wire as one
  point with their sum; what is lost or panics at the edges (updates during a cycle, closing, messages
  of the wrong kind). For \<open>scheduler\<close>: the reachable states of concurrent calls are well-formed, the manager is a registry,
  removed tasks end, a quick restart duplicates a goroutine, a start can lose its goroutine. For \<open>election\<close>: the outcome of an
  election in every state, at most one master among nodes that keep their sessions, the change
  detection of the node watcher, and what a repeated election, a lost session or a failed start does. For \<open>snitch\<close>: exact
  sums and averages, keys that do not depend on iteration order, and the cases in which points are
  ignored, run twice, merged or stuck. For \<open>logh\<close>: the flags say which events are enabled after every
  sequence of configurations, and a contextual logger adds its pairs in order. For \<open>rip\<close>: a handler
  behind the gzip middleware gives the same status and the same body once decompressed, a compressed
  request decodes like the plain one, \<open>Fail\<close> answers with the status and the texts of its error, requests
  are counted under the status that the client gets, and unknown paths create a bounded number of
  points; what happens with errors that panic, declared lengths and superfluous statuses. For
  \<open>tester/httpserver\<close>: the last response configured for a URI is the one served, and the request comes
  out of the channel as it was sent when the response is short enough. For \<open>compress\<close> and \<open>files\<close>: round trips, the partition that a scan
  computes, open handles, errors that are lost. For \<open>solar\<close>: an interface that is cached serves all later
  calls for its own collection once no call that missed the cache is on its way, the race that replaces one, and calls
  that panic and seem to succeed. For \<open>cassandra\<close>, \<open>cockroach\<close> and \<open>loader\<close>: the
  configuration that reaches the driver, and the edge cases of the parsers.

  \<^bold>\<open>Loops.\<close> Loops over data are structural or have a measure. The retry loops of the OpenTSDB transport and
  of the election may not end; they are partial functions whose value \<open>None\<close> means that the call does not
  return, and delivery is proved under a rank that bounds the number of failures. The goroutines that
  run for ever are modelled one round at a time, and runs are sequences of rounds. The calls that are cut into
  steps end because each step lowers a rank (\<open>call_rank\<close>, \<open>elect_rank\<close>), and put together they are the functions
  (\<open>run_call_AddTask\<close> and its siblings, \<open>electForMaster_calls\<close>, \<open>getSolrInterface_steps\<close>, \<open>core_run_pass\<close>). The loops with an index
  (\<open>addContext_loop\<close>, \<open>wait_loop\<close>) and the block loops of the gzip instance have measures; the wait for a
  request ends after at most ten checks. Only
  \<open>Go_Duration.parse_terms\<close> has fuel, the length of the text, which is enough because each term
  consumes a character (\<open>parse_terms_fuel\<close>).

  \<^bold>\<open>Not modelled.\<close> Log output of the packages other than \<open>logh\<close> and \<open>rip\<close>; there it is modelled because
  logging an error can panic. Third-party libraries (the serializers, ZooKeeper, cron, zerolog, gzip, the
  clients of Solr, Cassandra and PostgreSQL, the HTTP router) and the operating system are parameters.
  The trees of files have no symbolic links; \<open>GzipDecompressFile\<close> onto its own input is left out, since
  it reads and truncates the same file. Tests are not part of the model. In the step
  relations each access to a map, a channel, a shared field or ZooKeeper is one step; data races below this level are
  not considered. Where there is no step relation (the flattener, \<open>snitch\<close>, \<open>rip\<close>, the rounds of the election's watchers)
  an operation is described as it runs when nothing disturbs it.
\<close>

end
